(* ===== verification/Prelude.thy ===== *)
theory Prelude
  imports Main "HOL-Library.Word"
begin

text \<open>
  What every component shares: the collections of rewrite rules the component proofs use, the names
  of the Go types the model keeps at their width, and a few facts on lists, options and sums.

  \<^item> \<open>err_simps\<close> collects the facts that evaluate the error operations of \<open>platform\<close>;
  \<^item> \<open>db_simps\<close> collects the facts that evaluate the SQL statements on the tables;
  \<^item> \<open>step_intros\<close> collects the preservation lemmas of the operations.
\<close>

named_theorems err_simps \<open>evaluation of the typed errors of package platform\<close>
named_theorems db_simps \<open>evaluation of the SQL statements\<close>
named_theorems step_intros \<open>operations preserve the invariant of their component\<close>

section \<open>Go types\<close>

text \<open>
  A \<open>float64\<close> is only moved around and marshalled by this program, never computed with: it is kept
  as its 64 bits. A \<open>uuid.UUID\<close> is sixteen bytes. An \<open>int\<close> or \<open>int64\<close> that is only compared is an
  \<open>int\<close>; where the code's arithmetic can wrap around, \<open>wrap64\<close> writes the wrap-around out.
\<close>

type_synonym float64 = "64 word"
type_synonym uuid = "128 word"

definition wrap64 :: "int \<Rightarrow> int" where
  "wrap64 n = (n + 2 ^ 63) mod 2 ^ 64 - 2 ^ 63"

definition in_int64 :: "int \<Rightarrow> bool" where
  "in_int64 n \<longleftrightarrow> - (2 ^ 63) \<le> n \<and> n < 2 ^ 63"

lemma wrap64_range: "in_int64 (wrap64 n)"
proof -
  have "0 \<le> (n + 2 ^ 63) mod 2 ^ 64" "(n + 2 ^ 63) mod 2 ^ 64 < (2 ^ 64 :: int)"
    by simp_all
  then show ?thesis
    by (simp add: wrap64_def in_int64_def)
qed

lemma wrap64_id: "in_int64 n \<Longrightarrow> wrap64 n = n"
  by (simp add: wrap64_def in_int64_def)

lemma wrap64_mod: "wrap64 n mod 2 ^ 64 = n mod 2 ^ 64"
proof -
  have "wrap64 n mod 2 ^ 64 = ((n + 2 ^ 63) mod 2 ^ 64 - 2 ^ 63) mod 2 ^ 64"
    by (simp add: wrap64_def)
  also have "\<dots> = (n + 2 ^ 63 - 2 ^ 63) mod 2 ^ 64"
    by (rule mod_diff_left_eq)
  finally show ?thesis by simp
qed

lemma wrap64_cong: "a mod 2 ^ 64 = b mod 2 ^ 64 \<Longrightarrow> wrap64 a = wrap64 b"
  unfolding wrap64_def by (metis mod_add_left_eq)

lemma wrap64_add: "wrap64 (wrap64 a + wrap64 b) = wrap64 (a + b)"
  by (rule wrap64_cong) (metis mod_add_eq wrap64_mod)

text \<open>IEEE 754: the exponent bits of an infinity or a NaN are all ones.\<close>

definition float_finite :: "float64 \<Rightarrow> bool" where
  "float_finite x \<longleftrightarrow> (uint x div 2 ^ 52) mod 2 ^ 11 \<noteq> 2047"

section \<open>Lists, options and sums\<close>

text \<open>The first successful answer over a list, as a chain walk finds it.\<close>

fun first_some :: "('a \<Rightarrow> 'b option) \<Rightarrow> 'a list \<Rightarrow> 'b option" where
  "first_some f [] = None"
| "first_some f (x # xs) = (case f x of Some y \<Rightarrow> Some y | None \<Rightarrow> first_some f xs)"

lemma first_some_append:
  "first_some f (xs @ ys) = (case first_some f xs of Some y \<Rightarrow> Some y | None \<Rightarrow> first_some f ys)"
  by (induction xs) (auto split: option.splits)

lemma first_some_None: "first_some f xs = None \<longleftrightarrow> (\<forall>x \<in> set xs. f x = None)"
  by (induction xs) (auto split: option.splits)

lemma first_some_SomeD: "first_some f xs = Some y \<Longrightarrow> \<exists>x \<in> set xs. f x = Some y"
  by (induction xs) (auto split: option.splits)

lemma distinct_map_snoc:
  "distinct (map f (xs @ [x])) \<longleftrightarrow> distinct (map f xs) \<and> f x \<notin> f ` set xs"
  by auto

lemma count_list_map_0: "count_list (map f xs) y = 0 \<longleftrightarrow> y \<notin> f ` set xs"
  by (induction xs) auto

lemma filter_single:
  assumes "distinct (map f xs)" "x \<in> set xs"
  shows "filter (\<lambda>z. f z = f x) xs = [x]"
  using assms by (induction xs) (auto simp: filter_empty_conv intro: rev_image_eqI)

definition is_Inr :: "'e + 'a \<Rightarrow> bool" where
  "is_Inr r \<longleftrightarrow> (case r of Inl _ \<Rightarrow> False | Inr _ \<Rightarrow> True)"

lemma is_Inr_simps [simp]: "is_Inr (Inr x)" "\<not> is_Inr (Inl e)"
  by (simp_all add: is_Inr_def)

lemma is_Inr_ex: "is_Inr r \<longleftrightarrow> (\<exists>x. r = Inr x)"
  by (cases r) simp_all

end
