(* ===== verification/GoText.thy ===== *)
theory GoText
  imports Prelude
begin

text \<open>
  The functions of Go's \<open>strings\<close>, \<open>strconv\<close> and \<open>encoding/hex\<close> packages that the program calls, on
  Go strings: a Go string is a sequence of bytes, here a \<open>string\<close> (a list of 8-bit \<open>char\<close>s), with
  non-ASCII text as its UTF-8 bytes. Nothing here is code of the repository; the components call it.
\<close>

section \<open>Bytes\<close>

abbreviation code_of :: "char \<Rightarrow> nat" where
  "code_of c \<equiv> of_char c"

definition is_digit :: "char \<Rightarrow> bool" where
  "is_digit c \<longleftrightarrow> 48 \<le> code_of c \<and> code_of c \<le> 57"

definition to_lower :: "char \<Rightarrow> char" where
  "to_lower c = (if 65 \<le> code_of c \<and> code_of c \<le> 90 then char_of (code_of c + 32) else c)"

section \<open>strings.TrimSpace\<close>

text \<open>
  The UTF-8 encodings of the characters \<open>unicode.IsSpace\<close> accepts: six ASCII controls and blank,
  U+0085, U+00A0, U+1680, U+2000 to U+200A, U+2028, U+2029, U+202F, U+205F and U+3000. UTF-8 is
  self-synchronising, so a suffix that is one of these encodings is a trailing space character.
\<close>

definition space_encodings :: "string list" where
  "space_encodings =
     map (\<lambda>n. [char_of (n::nat)]) [9, 10, 11, 12, 13, 32]
     @ map (map char_of) [[0xC2, 0x85], [0xC2, 0xA0::nat]]
     @ map (map char_of)
         ([[0xE1, 0x9A, 0x80]] @ map (\<lambda>n. [0xE2, 0x80, n]) [0x80..<0x8B]
          @ [[0xE2, 0x80, 0xA8], [0xE2, 0x80, 0xA9], [0xE2, 0x80, 0xAF], [0xE2, 0x81, 0x9F],
             [0xE3, 0x80, 0x80::nat]])"

definition starts_with :: "string \<Rightarrow> string \<Rightarrow> bool" where
  "starts_with p s \<longleftrightarrow> take (length p) s = p"

function trim_front :: "string list \<Rightarrow> string \<Rightarrow> string" where
  "trim_front ws s =
     (case find (\<lambda>w. w \<noteq> [] \<and> starts_with w s) ws of
        None \<Rightarrow> s
      | Some w \<Rightarrow> trim_front ws (drop (length w) s))"
  by pat_completeness auto
termination
proof (relation "measure (\<lambda>(ws, s). length s)", goal_cases)
  case (2 ws s w)
  then have "w \<noteq> []" "starts_with w s"
    by (auto simp: find_Some_iff)
  then show ?case by (cases s) (auto simp: starts_with_def)
qed simp

declare trim_front.simps [simp del]

definition TrimSpace :: "string \<Rightarrow> string" where
  "TrimSpace s = rev (trim_front (map rev space_encodings) (rev (trim_front space_encodings s)))"

text \<open>Whether one of the encodings opens a string: what the trimming loop looks for.\<close>

definition opens :: "string list \<Rightarrow> string \<Rightarrow> bool" where
  "opens ws s \<longleftrightarrow> (\<exists>w \<in> set ws. w \<noteq> [] \<and> starts_with w s)"

lemma trim_front_unopened: "\<not> opens ws s \<Longrightarrow> trim_front ws s = s"
  by (subst trim_front.simps) (auto simp: opens_def find_Some_iff split: option.splits)

lemma not_opens_trim_front: "\<not> opens ws (trim_front ws s)"
proof (induction ws s rule: trim_front.induct)
  case (1 ws s)
  show ?case
  proof (cases "find (\<lambda>w. w \<noteq> [] \<and> starts_with w s) ws")
    case None
    then have "trim_front ws s = s"
      by (simp add: trim_front.simps)
    with None show ?thesis
      by (auto simp: opens_def find_None_iff)
  next
    case (Some w)
    then show ?thesis
      using "1.IH" by (subst trim_front.simps) simp
  qed
qed

lemma trim_front_idem: "trim_front ws (trim_front ws s) = trim_front ws s"
  by (rule trim_front_unopened) (rule not_opens_trim_front)

lemma trim_front_suffix: "\<exists>p. s = p @ trim_front ws s"
proof (induction ws s rule: trim_front.induct)
  case (1 ws s)
  show ?case
  proof (cases "find (\<lambda>w. w \<noteq> [] \<and> starts_with w s) ws")
    case None
    then show ?thesis
      by (simp add: trim_front.simps)
  next
    case (Some w)
    then have eq: "trim_front ws s = trim_front ws (drop (length w) s)"
      by (subst trim_front.simps) simp
    from "1.IH" [OF Some] obtain p where "drop (length w) s = p @ trim_front ws (drop (length w) s)"
      by blast
    then have "s = (take (length w) s @ p) @ trim_front ws (drop (length w) s)"
      by (metis append.assoc append_take_drop_id)
    with eq show ?thesis by metis
  qed
qed

lemma starts_with_append: "starts_with w s \<Longrightarrow> starts_with w (s @ t)"
  by (auto simp: starts_with_def) (metis append_take_drop_id length_take min_def nat_le_linear take_all)

lemma opens_append: "opens ws s \<Longrightarrow> opens ws (s @ t)"
  by (auto simp: opens_def intro: starts_with_append)

text \<open>Trimming twice changes nothing more, on either side.\<close>

lemma TrimSpace_idem [simp]: "TrimSpace (TrimSpace s) = TrimSpace s"
proof -
  define l where "l = trim_front space_encodings s"
  define u where "u = TrimSpace s"
  have u: "rev u = trim_front (map rev space_encodings) (rev l)"
    by (simp add: u_def l_def TrimSpace_def)
  obtain p where "rev l = p @ rev u"
    using trim_front_suffix [of "rev l" "map rev space_encodings"] u by metis
  then have l: "l = u @ rev p"
    by (metis rev_append rev_rev_ident)
  have "\<not> opens space_encodings l"
    unfolding l_def by (rule not_opens_trim_front)
  then have "\<not> opens space_encodings u"
    using l opens_append by metis
  then have "trim_front space_encodings u = u"
    by (rule trim_front_unopened)
  moreover have "trim_front (map rev space_encodings) (rev u) = rev u"
    using u trim_front_idem by metis
  ultimately have "TrimSpace u = u"
    by (simp add: TrimSpace_def)
  then show ?thesis by (simp add: u_def)
qed

lemma TrimSpace_Nil [simp]: "TrimSpace [] = []"
  using trim_front_suffix [of "[]" space_encodings]
    trim_front_suffix [of "[]" "map rev space_encodings"]
  by (simp add: TrimSpace_def)

text \<open>Text of visible ASCII characters has nothing to trim.\<close>

definition visible :: "string \<Rightarrow> bool" where
  "visible s \<longleftrightarrow> (\<forall>c \<in> set s. 33 \<le> code_of c \<and> code_of c \<le> 126)"

lemma not_opens_visible:
  assumes "visible s" "\<forall>w \<in> set ws. w \<noteq> [] \<longrightarrow> code_of (hd w) < 33 \<or> 126 < code_of (hd w)"
  shows "\<not> opens ws s"
proof
  assume "opens ws s"
  then obtain w where w: "w \<in> set ws" "w \<noteq> []" "starts_with w s"
    by (auto simp: opens_def)
  then have "hd w \<in> set s"
    unfolding starts_with_def by (metis hd_in_set in_set_takeD)
  then show False
    using assms w(1,2) by (force simp: visible_def)
qed

lemma space_encodings_ends:
  "w \<in> set space_encodings \<Longrightarrow> w \<noteq> [] \<Longrightarrow> code_of (hd w) < 33 \<or> 126 < code_of (hd w)"
  "w \<in> set (map rev space_encodings) \<Longrightarrow> w \<noteq> [] \<Longrightarrow> code_of (hd w) < 33 \<or> 126 < code_of (hd w)"
  by (auto simp: space_encodings_def upt_rec)

lemma TrimSpace_visible:
  assumes "visible s"
  shows "TrimSpace s = s"
proof -
  have "visible (rev s)"
    using assms by (simp add: visible_def)
  then show ?thesis
    using assms space_encodings_ends by (simp add: TrimSpace_def trim_front_unopened not_opens_visible)
qed

text \<open>Nor has any text between two visible characters.\<close>

lemma not_opens_head:
  assumes "visible [a]" "\<And>w. w \<in> set ws \<Longrightarrow> w \<noteq> [] \<Longrightarrow> code_of (hd w) < 33 \<or> 126 < code_of (hd w)"
  shows "\<not> opens ws (a # s)"
proof
  assume "opens ws (a # s)"
  then obtain w where w: "w \<in> set ws" "w \<noteq> []" "starts_with w (a # s)"
    by (auto simp: opens_def)
  have "hd w = a" using w(2,3) by (cases w) (simp_all add: starts_with_def)
  then show False using assms(1) assms(2) [OF w(1,2)] by (simp add: visible_def)
qed

lemma TrimSpace_between:
  assumes "visible [a]" "visible [b]"
  shows "TrimSpace (a # s @ [b]) = a # s @ [b]"
proof -
  have "\<not> opens space_encodings (a # s @ [b])"
    by (rule not_opens_head [OF assms(1) space_encodings_ends(1)])
  moreover have "\<not> opens (map rev space_encodings) (b # rev s @ [a])"
    by (rule not_opens_head [OF assms(2) space_encodings_ends(2)])
  ultimately show ?thesis
    by (simp add: TrimSpace_def trim_front_unopened del: set_map list.set_map)
qed

section \<open>strings.Split, strings.ReplaceAll, strings.HasPrefix, strings.EqualFold\<close>

text \<open>\<open>strings.Split\<close> with a one-byte separator: one more piece than there are separators.\<close>

fun Split :: "string \<Rightarrow> char \<Rightarrow> string list" where
  "Split [] sep = [[]]"
| "Split (c # s) sep =
     (if c = sep then [] # Split s sep
      else case Split s sep of [] \<Rightarrow> [[c]] | p # ps \<Rightarrow> (c # p) # ps)"

lemma Split_not_Nil [simp]: "Split s sep \<noteq> []"
  by (induction s) (auto split: list.splits)

lemma Split_no_sep: "p \<in> set (Split s sep) \<Longrightarrow> sep \<notin> set p"
  by (induction s arbitrary: p) (auto split: list.splits if_splits)

text \<open>\<open>strings.ReplaceAll(s, old, "")\<close> with a one-byte \<open>old\<close> removes every occurrence of it.\<close>

definition RemoveAll :: "string \<Rightarrow> char \<Rightarrow> string" where
  "RemoveAll s old = filter (\<lambda>c. c \<noteq> old) s"

definition HasPrefix :: "string \<Rightarrow> string \<Rightarrow> bool" where
  "HasPrefix s p = starts_with p s"

lemma HasPrefix_append [simp]: "HasPrefix (p @ s) p"
  by (simp add: HasPrefix_def starts_with_def)

text \<open>
  \<open>strings.EqualFold\<close> on a second argument that is ASCII and has neither \<open>k\<close> nor \<open>s\<close> (the only
  ASCII letters that also fold to a character outside ASCII): the program folds with
  \<open>"Development"\<close> only.
\<close>

definition EqualFold :: "string \<Rightarrow> string \<Rightarrow> bool" where
  "EqualFold s t \<longleftrightarrow> map to_lower s = map to_lower t"

section \<open>strconv\<close>

definition digit_val :: "char \<Rightarrow> nat" where
  "digit_val c = code_of c - 48"

definition dec_nat :: "string \<Rightarrow> nat" where
  "dec_nat ds = foldl (\<lambda>n c. 10 * n + digit_val c) 0 ds"

text \<open>\<open>strconv.Atoi\<close>: an optional sign and decimal digits, in the range of \<open>int64\<close>.\<close>

definition split_sign :: "string \<Rightarrow> bool \<times> string" where
  "split_sign s =
     (case s of
        [] \<Rightarrow> (False, [])
      | c # r \<Rightarrow> if c = CHR ''-'' then (True, r) else if c = CHR ''+'' then (False, r) else (False, s))"

definition Atoi :: "string \<Rightarrow> int option" where
  "Atoi s =
     (let (neg, ds) = split_sign s;
          v = (if neg then - int (dec_nat ds) else int (dec_nat ds))
      in if ds = [] \<or> \<not> list_all is_digit ds \<or> \<not> in_int64 v then None else Some v)"

definition digit_char :: "nat \<Rightarrow> char" where
  "digit_char d = char_of (48 + d)"

fun nat_str :: "nat \<Rightarrow> string" where
  "nat_str n = (if n < 10 then [digit_char n] else nat_str (n div 10) @ [digit_char (n mod 10)])"

declare nat_str.simps [simp del]

definition Itoa :: "int \<Rightarrow> string" where
  "Itoa n = (if n < 0 then CHR ''-'' # nat_str (nat (- n)) else nat_str (nat n))"

lemma digit_char_simps [simp]:
  assumes "d < 10"
  shows "is_digit (digit_char d)" "digit_val (digit_char d) = d"
  using assms by (simp_all add: is_digit_def digit_char_def digit_val_def)

lemma nat_str_digits: "list_all is_digit (nat_str n) \<and> nat_str n \<noteq> []"
  by (induction n rule: nat_str.induct) (subst (1 2) nat_str.simps, simp)

lemma dec_nat_snoc: "dec_nat (s @ [c]) = 10 * dec_nat s + digit_val c"
  by (simp add: dec_nat_def)

lemma dec_nat_nat_str [simp]: "dec_nat (nat_str n) = n"
proof (induction n rule: nat_str.induct)
  case (1 n)
  show ?case
  proof (cases "n < 10")
    case True
    then show ?thesis
      by (subst nat_str.simps) (simp add: dec_nat_def)
  next
    case False
    then show ?thesis
      using "1.IH" by (subst nat_str.simps) (simp add: dec_nat_snoc)
  qed
qed

lemma digit_not_sign: "is_digit c \<Longrightarrow> c \<noteq> CHR ''-'' \<and> c \<noteq> CHR ''+''"
  by (auto simp: is_digit_def)

lemma split_sign_nat_str: "split_sign (nat_str n) = (False, nat_str n)"
  using nat_str_digits [of n] digit_not_sign
  by (cases "nat_str n") (auto simp: split_sign_def)

text \<open>\<open>strconv.Itoa\<close> writes what \<open>strconv.Atoi\<close> reads back.\<close>

lemma Atoi_Itoa [simp]: "in_int64 n \<Longrightarrow> Atoi (Itoa n) = Some n"
  using nat_str_digits [of "nat n"] nat_str_digits [of "nat (- n)"]
  by (auto simp: Atoi_def Itoa_def split_sign_nat_str split_sign_def [of "CHR ''-'' # _"])

lemma Atoi_range: "Atoi s = Some v \<Longrightarrow> in_int64 v"
  by (auto simp: Atoi_def Let_def split: prod.splits if_splits)

definition ParseBool :: "string \<Rightarrow> bool option" where
  "ParseBool s =
     (if s \<in> set [''1'', ''t'', ''T'', ''TRUE'', ''true'', ''True''] then Some True
      else if s \<in> set [''0'', ''f'', ''F'', ''FALSE'', ''false'', ''False''] then Some False
      else None)"

definition FormatBool :: "bool \<Rightarrow> string" where
  "FormatBool b = (if b then ''true'' else ''false'')"

lemma ParseBool_FormatBool [simp]: "ParseBool (FormatBool b) = Some b"
  by (simp add: ParseBool_def FormatBool_def)

section \<open>encoding/hex\<close>

definition hex_char :: "nat \<Rightarrow> char" where
  "hex_char d = char_of (if d < 10 then 48 + d else 87 + d)"

definition EncodeToString :: "8 word list \<Rightarrow> string" where
  "EncodeToString bs = concat (map (\<lambda>b. [hex_char (unat b div 16), hex_char (unat b mod 16)]) bs)"

lemma length_EncodeToString [simp]: "length (EncodeToString bs) = 2 * length bs"
  by (induction bs) (simp_all add: EncodeToString_def)

section \<open>fmt: the verb q\<close>

text \<open>
  A quoted ASCII string. The program quotes field names, which are ASCII constants, and a port that is
  not a number; bytes from 0x80 on are copied, which is what Go does with printable UTF-8.
\<close>

definition quote_char :: "char \<Rightarrow> string" where
  "quote_char c =
     (if c = CHR 0x22 \<or> c = CHR 0x5C then [CHR 0x5C, c]
      else if 7 \<le> code_of c \<and> code_of c \<le> 13 then [CHR 0x5C, ''abtnvfr'' ! (code_of c - 7)]
      else if code_of c < 32 \<or> code_of c = 127
        then [CHR 0x5C, CHR ''x'', hex_char (code_of c div 16), hex_char (code_of c mod 16)]
      else [c])"

definition Quote :: "string \<Rightarrow> string" where
  "Quote s = [CHR 0x22] @ concat (map quote_char s) @ [CHR 0x22]"

end
