(* ===== verification/Uuid.thy ===== *)
theory Uuid
  imports GoText
begin

text \<open>
  UUIDs and their text form. \<open>uuid_string\<close> is the text that \<open>uuid.UUID.String\<close> and PostgreSQL's cast
  \<open>id::text\<close> produce: the RFC 9562 form, 32 lower-case hexadecimal digits in groups of 8, 4, 4, 4 and
  12. \<open>rfc_parse\<close> reads that form with letters in either case, as RFC 9562 asks of a parser.

  The parsers the program really calls, \<open>uuid.Parse\<close> and the cast \<open>text::uuid\<close>, accept more than the
  RFC form and are parameters of the model (\<open>World.runtime\<close>). What the program relies on is that they
  accept the RFC form and read it as the RFC does, which is \<open>reads_rfc\<close>.
\<close>

section \<open>Fixed-width hexadecimal\<close>

fun hex_fixed :: "nat \<Rightarrow> nat \<Rightarrow> string" where
  "hex_fixed 0 x = []"
| "hex_fixed (Suc n) x = hex_fixed n (x div 16) @ [hex_char (x mod 16)]"

definition hex_val :: "char \<Rightarrow> nat option" where
  "hex_val c =
     (let n = code_of c in
      if 48 \<le> n \<and> n \<le> 57 then Some (n - 48)
      else if 97 \<le> n \<and> n \<le> 102 then Some (n - 87)
      else if 65 \<le> n \<and> n \<le> 70 then Some (n - 55)
      else None)"

fun hex_num :: "nat \<Rightarrow> string \<Rightarrow> nat option" where
  "hex_num acc [] = Some acc"
| "hex_num acc (c # s) =
     (case hex_val c of None \<Rightarrow> None | Some d \<Rightarrow> hex_num (16 * acc + d) s)"

lemma length_hex_fixed [simp]: "length (hex_fixed n x) = n"
  by (induction n arbitrary: x) simp_all

lemma hex_val_hex_char [simp]: "d < 16 \<Longrightarrow> hex_val (hex_char d) = Some d"
  by (auto simp: hex_val_def hex_char_def)

lemma hex_val_lt: "hex_val c = Some d \<Longrightarrow> d < 16"
  by (auto simp: hex_val_def Let_def split: if_splits)

lemma hex_char_hex_val: "hex_val c = Some d \<Longrightarrow> hex_char d = to_lower c"
  by (auto simp: hex_val_def hex_char_def to_lower_def Let_def split: if_splits)

lemma hex_num_append:
  "hex_num acc (s @ t) = (case hex_num acc s of None \<Rightarrow> None | Some v \<Rightarrow> hex_num v t)"
  by (induction s arbitrary: acc) (auto split: option.splits)

lemma hex_num_hex_fixed: "hex_num acc (hex_fixed n x) = Some (acc * 16 ^ n + x mod 16 ^ n)"
proof (induction n arbitrary: x)
  case (Suc n)
  have "x mod 16 ^ Suc n = 16 * (x div 16 mod 16 ^ n) + x mod 16"
    by (simp add: mod_mult2_eq)
  then show ?case
    using Suc by (simp add: hex_num_append algebra_simps)
qed simp

lemma hex_num_lt: "hex_num acc s = Some v \<Longrightarrow> v < (acc + 1) * 16 ^ length s"
proof (induction s arbitrary: acc)
  case (Cons c s)
  then obtain d where d: "hex_val c = Some d" "hex_num (16 * acc + d) s = Some v"
    by (auto split: option.splits)
  then have "v < (16 * acc + d + 1) * 16 ^ length s"
    using Cons.IH by blast
  also have "\<dots> \<le> (16 * (acc + 1)) * 16 ^ length s"
    using hex_val_lt [OF d(1)] by (intro mult_right_mono) auto
  finally show ?case by (simp add: algebra_simps)
qed simp

lemma hex_fixed_hex_num: "hex_num 0 s = Some v \<Longrightarrow> hex_fixed (length s) v = map to_lower s"
proof (induction s arbitrary: v rule: rev_induct)
  case (snoc c s)
  then obtain v' d where h: "hex_num 0 s = Some v'" "hex_val c = Some d" "v = 16 * v' + d"
    by (auto simp: hex_num_append split: option.splits)
  moreover have "d < 16"
    using h(2) by (rule hex_val_lt)
  ultimately show ?case
    using snoc.IH by (simp add: hex_char_hex_val)
qed simp

section \<open>The text form\<close>

definition dashed :: "string \<Rightarrow> string" where
  "dashed h = take 8 h @ CHR ''-'' # take 4 (drop 8 h) @ CHR ''-'' # take 4 (drop 12 h)
     @ CHR ''-'' # take 4 (drop 16 h) @ CHR ''-'' # drop 20 h"

definition undashed :: "string \<Rightarrow> string option" where
  "undashed s =
     (if length s = 36 \<and> s ! 8 = CHR ''-'' \<and> s ! 13 = CHR ''-'' \<and> s ! 18 = CHR ''-'' \<and> s ! 23 = CHR ''-''
      then Some (take 8 s @ take 4 (drop 9 s) @ take 4 (drop 14 s) @ take 4 (drop 19 s) @ drop 24 s)
      else None)"

definition uuid_string :: "uuid \<Rightarrow> string" where
  "uuid_string u = dashed (hex_fixed 32 (unat u))"

definition rfc_parse :: "string \<Rightarrow> uuid option" where
  "rfc_parse s =
     (case undashed s of
        None \<Rightarrow> None
      | Some h \<Rightarrow> (case hex_num 0 h of None \<Rightarrow> None | Some v \<Rightarrow> Some (word_of_nat v)))"

lemma undashed_dashed: "length h = 32 \<Longrightarrow> undashed (dashed h) = Some h"
  by (auto simp: numeral_eq_Suc length_Suc_conv dashed_def undashed_def)

lemma dashed_undashed: "undashed s = Some h \<Longrightarrow> dashed h = s \<and> length h = 32"
  by (auto simp: numeral_eq_Suc length_Suc_conv dashed_def undashed_def split: if_splits)

lemma length_uuid_string [simp]: "length (uuid_string u) = 36"
  by (simp add: uuid_string_def dashed_def)

lemma uuid_string_not_Nil [simp]: "uuid_string u \<noteq> []"
  using length_uuid_string [of u] by (metis list.size(3) zero_neq_numeral)

text \<open>Printing and parsing are inverse, and what parses is the printed form up to letter case.\<close>

lemma rfc_parse_uuid_string [simp]: "rfc_parse (uuid_string u) = Some u"
proof -
  have "unat u < 2 ^ LENGTH(128)"
    by (rule unsigned_less)
  then have "unat u < 16 ^ 32"
    by simp
  then show ?thesis
    by (simp add: rfc_parse_def uuid_string_def undashed_dashed hex_num_hex_fixed)
qed

lemma rfc_parse_canonical:
  assumes "rfc_parse s = Some u"
  shows "uuid_string u = map to_lower s"
proof -
  obtain h v where h: "undashed s = Some h" "hex_num 0 h = Some v" "u = word_of_nat v"
    using assms by (auto simp: rfc_parse_def split: option.splits)
  have s: "dashed h = s" "length h = 32"
    using dashed_undashed [OF h(1)] by simp_all
  have "v < 16 ^ 32"
    using hex_num_lt [OF h(2)] s(2) by simp
  then have "unat u = v"
    using h(3) by (simp add: unat_of_nat)
  then have "uuid_string u = dashed (map to_lower h)"
    using hex_fixed_hex_num [OF h(2)] s(2) by (simp add: uuid_string_def)
  also have "\<dots> = map to_lower (dashed h)"
    by (simp add: dashed_def take_map drop_map to_lower_def)
  finally show ?thesis
    using s(1) by simp
qed

lemma uuid_string_inj: "uuid_string u = uuid_string v \<longleftrightarrow> u = v"
  by (metis option.inject rfc_parse_uuid_string)

lemma visible_hex_fixed: "visible (hex_fixed n x)"
  by (induction n arbitrary: x) (auto simp: visible_def hex_char_def)

lemma visible_uuid_string: "visible (uuid_string u)"
proof -
  let ?h = "hex_fixed 32 (unat u)"
  have "set (dashed ?h) \<subseteq> set (CHR ''-'' # ?h)"
    by (auto simp: dashed_def dest: in_set_takeD in_set_dropD)
  moreover have "visible (CHR ''-'' # ?h)"
    using visible_hex_fixed [of 32 "unat u"] by (simp add: visible_def)
  ultimately show ?thesis
    unfolding uuid_string_def visible_def by blast
qed

lemma TrimSpace_uuid_string [simp]: "TrimSpace (uuid_string u) = uuid_string u"
  by (rule TrimSpace_visible) (rule visible_uuid_string)

text \<open>What the program relies on of a UUID parser of a package or of the database.\<close>

definition reads_rfc :: "(string \<Rightarrow> uuid option) \<Rightarrow> bool" where
  "reads_rfc parse \<longleftrightarrow> (\<forall>s u. rfc_parse s = Some u \<longrightarrow> parse s = Some u)"

lemma reads_rfc_rfc_parse [simp]: "reads_rfc rfc_parse"
  by (simp add: reads_rfc_def)

lemma reads_rfc_string: "reads_rfc parse \<Longrightarrow> parse (uuid_string u) = Some u"
  by (simp add: reads_rfc_def)

end
