(* ===== verification/PlatformErrors.thy ===== *)
theory PlatformErrors
  imports GoText
begin

text \<open>
  The typed HTTP errors of \<open>platform/platform.go\<close>: the type \<open>HTTPError\<close>, its constructors, and the
  functions that classify an arbitrary Go \<open>error\<close> value.

  A Go \<open>error\<close> is a tree: a value with a text and the errors it wraps. \<open>go_error\<close> has one constructor
  for each type the program tells apart with a type assertion, \<open>errors.As\<close> or \<open>errors.Is\<close>, and
  \<open>Wrapped\<close> for every other error that wraps some (\<open>fmt.Errorf\<close> with \<open>%w\<close>, \<open>errors.Join\<close>) or none
  (\<open>errors.New\<close>). \<open>nil\<close> is \<open>None\<close>.
\<close>

section \<open>Errors\<close>

text \<open>What a statement that the database server refuses carries: \<open>pgconn.PgError\<close>.\<close>

record pg_error =
  pg_code :: string
  pg_constraint :: string
  pg_text :: string

datatype sentinel = Canceled | DeadlineExceeded | ServerClosed | NotExist

datatype go_error =
    HTTPErr http_error
  | PgErr pg_error
  | Sentinel sentinel
  | Wrapped string "go_error list"
and http_error =
    HTTPError (Status: int) (Code: string) (Message: string) (cause: "go_error option")

text \<open>\<open>errors.New\<close>: a text and nothing wrapped.\<close>

abbreviation errorf :: "string \<Rightarrow> go_error" where
  "errorf msg \<equiv> Wrapped msg []"

fun sentinel_text :: "sentinel \<Rightarrow> string" where
  "sentinel_text Canceled = ''context canceled''"
| "sentinel_text DeadlineExceeded = ''context deadline exceeded''"
| "sentinel_text ServerClosed = ''http: Server closed''"
| "sentinel_text NotExist = ''file does not exist''"

definition HTTPError_Error :: "http_error \<Rightarrow> string" where
  "HTTPError_Error e = Code e @ '': '' @ Message e"

definition HTTPError_Unwrap :: "http_error \<Rightarrow> go_error option" where
  "HTTPError_Unwrap e = cause e"

fun err_text :: "go_error \<Rightarrow> string" where
  "err_text (HTTPErr e) = HTTPError_Error e"
| "err_text (PgErr e) = pg_text e"
| "err_text (Sentinel s) = sentinel_text s"
| "err_text (Wrapped msg es) = msg"

text \<open>
  The tree of an error in the order \<open>errors.As\<close> and \<open>errors.Is\<close> visit it: the error itself, then what
  it unwraps to, depth first.
\<close>

fun err_tree :: "go_error \<Rightarrow> go_error list" where
  "err_tree (HTTPErr (HTTPError s c m None)) = [HTTPErr (HTTPError s c m None)]"
| "err_tree (HTTPErr (HTTPError s c m (Some e))) = HTTPErr (HTTPError s c m (Some e)) # err_tree e"
| "err_tree (PgErr e) = [PgErr e]"
| "err_tree (Sentinel s) = [Sentinel s]"
| "err_tree (Wrapped msg es) = Wrapped msg es # concat (map err_tree es)"

fun to_http :: "go_error \<Rightarrow> http_error option" where
  "to_http (HTTPErr e) = Some e"
| "to_http _ = None"

fun to_pg :: "go_error \<Rightarrow> pg_error option" where
  "to_pg (PgErr e) = Some e"
| "to_pg _ = None"

definition errors_As :: "(go_error \<Rightarrow> 'a option) \<Rightarrow> go_error \<Rightarrow> 'a option" where
  "errors_As p e = first_some p (err_tree e)"

definition errors_Is :: "go_error \<Rightarrow> sentinel \<Rightarrow> bool" where
  "errors_Is e s \<longleftrightarrow> Sentinel s \<in> set (err_tree e)"

lemma err_tree_head: "\<exists>es. err_tree e = e # es"
  by (cases e rule: err_tree.cases) simp_all

lemma errors_As_HTTPErr [err_simps, simp]: "errors_As to_http (HTTPErr e) = Some e"
  by (cases e; cases "cause e") (auto simp: errors_As_def)

lemma errors_As_PgErr [err_simps, simp]: "errors_As to_http (PgErr e) = None"
  "errors_As to_pg (PgErr e) = Some e"
  by (simp_all add: errors_As_def)

lemma errors_As_Sentinel [err_simps, simp]: "errors_As to_http (Sentinel s) = None"
  "errors_As to_pg (Sentinel s) = None"
  by (simp_all add: errors_As_def)

lemma first_some_concat_None:
  "first_some p (concat xss) = None \<longleftrightarrow> (\<forall>xs \<in> set xss. first_some p xs = None)"
  by (auto simp: first_some_None)

lemma errors_As_errorf [err_simps, simp]: "errors_As to_http (errorf m) = None"
  "errors_As to_pg (errorf m) = None"
  by (simp_all add: errors_As_def)

text \<open>Wrapping with \<open>%w\<close> hides nothing from \<open>errors.As\<close>.\<close>

lemma errors_As_wrapped [err_simps, simp]:
  "errors_As to_http (Wrapped m [e]) = errors_As to_http e"
  "errors_As to_pg (Wrapped m [e]) = errors_As to_pg e"
  by (simp_all add: errors_As_def)

section \<open>Constructors\<close>

definition NewError :: "int \<Rightarrow> string \<Rightarrow> string \<Rightarrow> http_error" where
  "NewError s c m = HTTPError s c m None"

definition WrapError :: "http_error \<Rightarrow> go_error \<Rightarrow> http_error" where
  "WrapError e c = HTTPError (Status e) (Code e) (Message e) (Some c)"

definition ErrorCause :: "http_error option \<Rightarrow> go_error option" where
  "ErrorCause e = (case e of None \<Rightarrow> None | Some e \<Rightarrow> cause e)"

definition ValidationError :: "string \<Rightarrow> string \<Rightarrow> http_error" where
  "ValidationError f r = NewError 400 ''VALIDATION_ERROR'' (''field '' @ Quote f @ '' '' @ r)"

definition InternalError :: http_error where
  "InternalError = NewError 500 ''INTERNAL_ERROR'' ''internal server error''"

lemmas constructor_defs = NewError_def WrapError_def ValidationError_def InternalError_def

lemma NewError_sel [err_simps, simp]:
  "Status (NewError s c m) = s" "Code (NewError s c m) = c" "Message (NewError s c m) = m"
  "cause (NewError s c m) = None"
  by (simp_all add: NewError_def)

lemma ValidationError_sel [err_simps, simp]:
  "Status (ValidationError f r) = 400" "Code (ValidationError f r) = ''VALIDATION_ERROR''"
  "cause (ValidationError f r) = None"
  by (simp_all add: ValidationError_def)

lemma InternalError_sel [err_simps, simp]:
  "Status InternalError = 500" "Code InternalError = ''INTERNAL_ERROR''"
  "Message InternalError = ''internal server error''" "cause InternalError = None"
  by (simp_all add: InternalError_def)

lemma WrapError_sel [err_simps, simp]:
  "Status (WrapError e c) = Status e" "Code (WrapError e c) = Code e"
  "Message (WrapError e c) = Message e" "cause (WrapError e c) = Some c"
  by (simp_all add: WrapError_def)

section \<open>Classification\<close>

definition IsClientError :: "go_error option \<Rightarrow> bool" where
  "IsClientError err =
     (case err of
        None \<Rightarrow> False
      | Some e \<Rightarrow>
          (case errors_As to_http e of
             None \<Rightarrow> False
           | Some h \<Rightarrow> 400 \<le> Status h \<and> Status h < 500))"

lemma IsClientError_typed:
  "IsClientError (Some e) \<longleftrightarrow> (\<exists>h. errors_As to_http e = Some h \<and> 400 \<le> Status h \<and> Status h < 500)"
  by (auto simp: IsClientError_def split: option.splits)

definition HasCode :: "go_error option \<Rightarrow> string \<Rightarrow> bool" where
  "HasCode err code =
     (case err of
        None \<Rightarrow> False
      | Some e \<Rightarrow>
          (case errors_As to_http e of
             Some h \<Rightarrow> Code h = code
           | None \<Rightarrow> HasPrefix (err_text e) (code @ '':'')))"

definition MapError :: "go_error option \<Rightarrow> http_error option" where
  "MapError err =
     (case err of
        None \<Rightarrow> None
      | Some e \<Rightarrow>
          (case errors_As to_http e of
             Some a \<Rightarrow> Some a
           | None \<Rightarrow> Some (WrapError InternalError e)))"

lemma IsClientError_simps [err_simps, simp]:
  "\<not> IsClientError None"
  "IsClientError (Some (HTTPErr h)) \<longleftrightarrow> 400 \<le> Status h \<and> Status h < 500"
  "\<not> IsClientError (Some (PgErr e))"
  "\<not> IsClientError (Some (errorf m))"
  by (simp_all add: IsClientError_def)

lemma MapError_simps [err_simps, simp]:
  "MapError None = None"
  "MapError (Some (HTTPErr h)) = Some h"
  "MapError (Some (PgErr e)) = Some (WrapError InternalError (PgErr e))"
  by (simp_all add: MapError_def)

text \<open>
  \<open>MapError\<close> always finds an answer for an error: the first typed error of its tree as it is, or an
  internal error with a fixed text that keeps the original as its cause.
\<close>

lemma MapError_cases:
  obtains (typed) h where "errors_As to_http e = Some h" "MapError (Some e) = Some h"
  | (internal) "errors_As to_http e = None" "MapError (Some e) = Some (WrapError InternalError e)"
  by (cases "errors_As to_http e") (auto simp: MapError_def)

lemma MapError_Some [simp]: "MapError (Some e) \<noteq> None"
  by (cases e rule: MapError_cases) simp_all

text \<open>
  A typed error that was flattened to its text (as a single-flight does with the error it shares)
  still answers \<open>HasCode\<close> for its own code.
\<close>

lemma HasCode_typed [err_simps, simp]: "HasCode (Some (HTTPErr h)) c \<longleftrightarrow> Code h = c"
  by (simp add: HasCode_def)

lemma HasCode_flattened: "HasCode (Some (errorf (err_text (HTTPErr h)))) (Code h)"
  by (simp add: HasCode_def HTTPError_Error_def HasPrefix_def starts_with_def)

lemma HasCode_None [err_simps, simp]: "\<not> HasCode None c"
  by (simp add: HasCode_def)

section \<open>The code of an error\<close>

lemma HasPrefix_code:
  assumes "CHR '':'' \<notin> set c" "CHR '':'' \<notin> set d"
  shows "HasPrefix (d @ '': '' @ m) (c @ '':'') \<longleftrightarrow> d = c"
  using assms
proof (induction d arbitrary: c)
  case Nil
  then show ?case by (cases c) (auto simp: HasPrefix_def starts_with_def)
next
  case (Cons x d)
  then show ?case by (cases c) (auto simp: HasPrefix_def starts_with_def)
qed

text \<open>C20: the code of a typed error is found behind any number of wrappings with \<open>%w\<close>, and also after the
  error was flattened to its text, where the code is one without a colon; no other code is found.\<close>

theorem code_survives_wrapping_and_flattening:
  assumes "CHR '':'' \<notin> set (Code h)" "CHR '':'' \<notin> set c"
  shows "(HasCode (Some (fold (\<lambda>m e. Wrapped m [e]) ms (HTTPErr h))) c \<longleftrightarrow> Code h = c)
    \<and> (HasCode (Some (errorf (err_text (HTTPErr h)))) c \<longleftrightarrow> Code h = c)
    \<and> (IsClientError (Some (fold (\<lambda>m e. Wrapped m [e]) ms (HTTPErr h))) \<longleftrightarrow> 400 \<le> Status h \<and> Status h < 500)"
proof -
  have w: "errors_As to_http (fold (\<lambda>m e. Wrapped m [e]) ms e) = errors_As to_http e" for e
    by (induction ms arbitrary: e) simp_all
  show ?thesis
    using HasPrefix_code [OF assms(2,1), of "Message h"]
    by (simp add: HasCode_def IsClientError_def w HTTPError_Error_def)
qed

theorem code_survives_wrapping_and_flattening_witness:
  "HasCode (Some (errorf ''ORDER_NOT_FOUND: order not found'')) ''ORDER_NOT_FOUND''
   \<and> \<not> HasCode (Some (errorf ''ORDER_NOT_FOUND: order not found'')) ''ORDER_NOT''
   \<and> IsClientError (Some (Wrapped ''get'' [HTTPErr (NewError 404 ''ORDER_NOT_FOUND'' ''order not found'')]))"
  using code_survives_wrapping_and_flattening [of "NewError 404 ''ORDER_NOT_FOUND'' ''order not found''"
      "''ORDER_NOT_FOUND''" "[''get'']"]
    code_survives_wrapping_and_flattening [of "NewError 404 ''ORDER_NOT_FOUND'' ''order not found''"
      "''ORDER_NOT''" "[]"]
  by (simp add: HTTPError_Error_def)

end
