(* ===== verification/Env.thy ===== *)
theory Env
  imports PlatformErrors
begin

text \<open>
  Package \<open>env\<close> (\<open>env/env.go\<close>): the process environment and its typed readers \<open>String\<close>, \<open>Int\<close> and
  \<open>Bool\<close>, and the loading of dotenv files; \<open>Duration\<close> is in theory \<open>Duration\<close>. \<open>godotenv.Load\<close> is a third-party function and a parameter:
  from a list of paths and the environment it gives an error or none and the environment it leaves.
\<close>

section \<open>The environment\<close>

type_synonym environ = "(string \<times> string) list"

text \<open>\<open>os.Getenv\<close>: the empty string for a variable that is not set.\<close>

definition Getenv :: "environ \<Rightarrow> string \<Rightarrow> string" where
  "Getenv env key = (case map_of env key of None \<Rightarrow> [] | Some v \<Rightarrow> v)"

lemma Getenv_Nil [simp]: "Getenv [] key = []"
  by (simp add: Getenv_def)

section \<open>Dotenv files\<close>

type_synonym dotenv = "string list \<Rightarrow> environ \<Rightarrow> go_error option \<times> environ"

definition load :: "dotenv \<Rightarrow> string list \<Rightarrow> environ \<Rightarrow> go_error option \<times> environ" where
  "load godotenv files env =
     (if files = [] then godotenv [] env
      else
        let paths = filter (\<lambda>v. v \<noteq> []) (map (Getenv env) files)
        in if paths = [] then godotenv [] env else godotenv paths env)"

definition Environment :: "dotenv \<Rightarrow> string list \<Rightarrow> environ \<Rightarrow> go_error option \<times> environ" where
  "Environment godotenv files env =
     (case load godotenv files env of
        (Some err, env') \<Rightarrow> (if \<not> errors_Is err NotExist then Some err else None, env')
      | (None, env') \<Rightarrow> (None, env'))"

section \<open>Typed readers\<close>

definition Env_String :: "environ \<Rightarrow> string \<Rightarrow> string \<Rightarrow> string" where
  "Env_String env key fallback = (let value = Getenv env key in if value \<noteq> [] then value else fallback)"

definition Env_Int :: "environ \<Rightarrow> string \<Rightarrow> int \<Rightarrow> int" where
  "Env_Int env key fallback =
     (case Atoi (Env_String env key (Itoa fallback)) of None \<Rightarrow> fallback | Some value \<Rightarrow> value)"

definition Env_Bool :: "environ \<Rightarrow> string \<Rightarrow> bool \<Rightarrow> bool" where
  "Env_Bool env key fallback =
     (case ParseBool (Env_String env key (FormatBool fallback)) of
        None \<Rightarrow> fallback | Some value \<Rightarrow> value)"

lemma Env_String_unset: "Getenv env key = [] \<Longrightarrow> Env_String env key d = d"
  by (simp add: Env_String_def)

lemma Env_String_set: "Getenv env key \<noteq> [] \<Longrightarrow> Env_String env key d = Getenv env key"
  by (simp add: Env_String_def)

lemma Env_Int_in_range: "in_int64 d \<Longrightarrow> in_int64 (Env_Int env key d)"
  by (auto simp: Env_Int_def dest: Atoi_range split: option.splits)

section \<open>Variables that are read as a type\<close>

text \<open>C35: an integer or boolean variable that holds what Go prints for a value is read as that value, one that is
  not set or holds anything that does not parse gives the default, and an integer is never out of range.\<close>

theorem typed_variables:
  assumes "in_int64 n" "in_int64 d"
  shows "(Getenv env key = Itoa n \<longrightarrow> Env_Int env key d = n)
    \<and> (Getenv env key = FormatBool b \<longrightarrow> Env_Bool env key e = b)
    \<and> (Getenv env key = [] \<or> Atoi (Getenv env key) = None \<longrightarrow> Env_Int env key d = d)
    \<and> (Getenv env key = [] \<or> ParseBool (Getenv env key) = None \<longrightarrow> Env_Bool env key e = e)
    \<and> in_int64 (Env_Int env key d)"
proof -
  have "Itoa n \<noteq> []" "FormatBool b \<noteq> []"
    using nat_str_digits by (auto simp: Itoa_def FormatBool_def)
  then show ?thesis
    using assms Env_Int_in_range [of d env key] by (auto simp: Env_Int_def Env_Bool_def Env_String_def Let_def)
qed

theorem typed_variables_witness:
  "Env_Int [(''BODY_LIMIT'', Itoa 5)] ''BODY_LIMIT'' 7 = 5 \<and> Env_Int [(''BODY_LIMIT'', ''5MB'')] ''BODY_LIMIT'' 7 = 7"
proof -
  have i: "in_int64 5" "in_int64 7" by (simp_all add: in_int64_def)
  have "Atoi ''5MB'' = None" by (simp add: Atoi_def split_sign_def is_digit_def)
  then show ?thesis
    using typed_variables [OF i, of "[(''BODY_LIMIT'', Itoa 5)]" "''BODY_LIMIT''"]
      typed_variables [OF i, of "[(''BODY_LIMIT'', ''5MB'')]" "''BODY_LIMIT''"] by (simp add: Getenv_def)
qed

end
