(* ===== verification/Json.thy ===== *)
theory Json
  imports GoText
begin

text \<open>
  The part of \<open>encoding/json\<close> the program uses, on JSON documents: a document is its parsed value, with
  the members of an object in textual order, duplicates included, and a number as its text. The
  lexical layer (blanks, escapes) is abstracted: a \<open>[]byte\<close> payload is \<open>Doc\<close> of its value where it
  is a JSON text, and its bytes where it is not.

  A Go map with string keys is an association list that \<open>put\<close> keeps sorted by key, which is the order
  in which \<open>json.Marshal\<close> writes it.
\<close>

section \<open>Documents and payloads\<close>

datatype json =
    JNull
  | JBool bool
  | JNum string
  | JStr string
  | JArr "json list"
  | JObj "(string \<times> json) list"

datatype payload = NilPayload | NotJSON string | Doc json

section \<open>Text: json.Marshal replaces bytes that are not UTF-8\<close>

definition cont :: "nat \<Rightarrow> bool" where
  "cont n \<longleftrightarrow> 0x80 \<le> n \<and> n \<le> 0xBF"

text \<open>The length of the UTF-8 encoded character at the head of the bytes, 0 if there is none.\<close>

fun rune_len :: "nat list \<Rightarrow> nat" where
  "rune_len [] = 0"
| "rune_len (a # r) =
     (if a < 0x80 then 1
      else if 0xC2 \<le> a \<and> a \<le> 0xDF then (case r of b # _ \<Rightarrow> if cont b then 2 else 0 | _ \<Rightarrow> 0)
      else if 0xE0 \<le> a \<and> a \<le> 0xEF then
        (case r of b # c # _ \<Rightarrow>
           if cont b \<and> cont c \<and> (a = 0xE0 \<longrightarrow> 0xA0 \<le> b) \<and> (a = 0xED \<longrightarrow> b \<le> 0x9F) then 3 else 0
         | _ \<Rightarrow> 0)
      else if 0xF0 \<le> a \<and> a \<le> 0xF4 then
        (case r of b # c # d # _ \<Rightarrow>
           if cont b \<and> cont c \<and> cont d \<and> (a = 0xF0 \<longrightarrow> 0x90 \<le> b) \<and> (a = 0xF4 \<longrightarrow> b \<le> 0x8F) then 4 else 0
         | _ \<Rightarrow> 0)
      else 0)"

text \<open>Copies characters, and writes U+FFFD for every byte that starts none.\<close>

function valid_text :: "string \<Rightarrow> string" where
  "valid_text [] = []"
| "valid_text (c # s) =
     (case rune_len (map code_of (c # s)) of
        0 \<Rightarrow> map char_of [0xEF, 0xBF, 0xBD :: nat] @ valid_text s
      | Suc n \<Rightarrow> c # take n s @ valid_text (drop n s))"
  by pat_completeness auto
termination
  by (relation "measure length") auto

definition ascii :: "string \<Rightarrow> bool" where
  "ascii s \<longleftrightarrow> (\<forall>c \<in> set s. code_of c < 128)"

lemma valid_text_ascii [simp]: "ascii s \<Longrightarrow> valid_text s = s"
  by (induction s rule: valid_text.induct) (auto simp: ascii_def)

definition json_string :: "string \<Rightarrow> json" where
  "json_string s = JStr (valid_text s)"

definition json_int :: "int \<Rightarrow> json" where
  "json_int n = JNum (Itoa n)"

section \<open>Maps with string keys\<close>

fun str_less :: "string \<Rightarrow> string \<Rightarrow> bool" where
  "str_less _ [] = False"
| "str_less [] (_ # _) = True"
| "str_less (a # s) (b # t) = (code_of a < code_of b \<or> a = b \<and> str_less s t)"

fun put :: "string \<Rightarrow> 'a \<Rightarrow> (string \<times> 'a) list \<Rightarrow> (string \<times> 'a) list" where
  "put k v [] = [(k, v)]"
| "put k v ((k', v') # m) =
     (if k = k' then (k, v) # m
      else if str_less k k' then (k, v) # (k', v') # m
      else (k', v') # put k v m)"

definition to_map :: "(string \<times> 'a) list \<Rightarrow> (string \<times> 'a) list" where
  "to_map ms = fold (\<lambda>(k, v). put k v) ms []"

lemma map_of_put [simp]: "map_of (put k v m) = (map_of m)(k \<mapsto> v)"
  by (induction k v m rule: put.induct) (auto simp: fun_eq_iff)

lemma put_not_Nil [simp]: "put k v m \<noteq> []"
  by (induction k v m rule: put.induct) auto

lemma map_of_fold_put: "map_of (fold (\<lambda>(k, v). put k v) ms m) = map_of m ++ map_of (rev ms)"
  by (induction ms arbitrary: m) (auto simp: fun_eq_iff map_add_def split: option.splits)

text \<open>Of the members with one name, the last counts.\<close>

lemma map_of_to_map: "map_of (to_map ms) = map_of (rev ms)"
  by (simp add: to_map_def map_of_fold_put)

text \<open>A map value as such a list: strictly sorted keys, so that equal maps are equal lists.\<close>

fun map_sorted :: "(string \<times> 'a) list \<Rightarrow> bool" where
  "map_sorted [] = True"
| "map_sorted [_] = True"
| "map_sorted ((k, _) # (k', v') # m) \<longleftrightarrow> str_less k k' \<and> map_sorted ((k', v') # m)"

lemma str_less_irrefl [simp]: "\<not> str_less s s"
  by (induction s) auto

lemma str_less_trans: "str_less r s \<Longrightarrow> str_less s t \<Longrightarrow> str_less r t"
proof (induction r s arbitrary: t rule: str_less.induct)
  case (2 b s)
  then show ?case by (cases t) auto
next
  case (3 a r b s)
  then show ?case by (cases t) auto
qed simp

lemma str_less_linear: "s = t \<or> str_less s t \<or> str_less t s"
proof (induction s t rule: str_less.induct)
  case (1 s)
  then show ?case by (cases s) auto
next
  case (3 a s b t)
  moreover have "code_of a = code_of b \<longleftrightarrow> a = b"
    by simp
  ultimately show ?case
    by (metis linorder_less_linear str_less.simps(3))
qed simp

lemma map_sorted_ConsD: "map_sorted ((k, v) # m) \<Longrightarrow> map_sorted m \<and> (\<forall>k' \<in> fst ` set m. str_less k k')"
proof (induction m arbitrary: k v)
  case (Cons p m)
  obtain k' v' where p: "p = (k', v')" by fastforce
  then have h: "str_less k k'" "map_sorted ((k', v') # m)"
    using Cons.prems by auto
  then show ?case
    using Cons.IH [OF h(2)] p str_less_trans by fastforce
qed simp

lemma map_sorted_ConsI:
  "map_sorted m \<Longrightarrow> (\<forall>k' \<in> fst ` set m. str_less k k') \<Longrightarrow> map_sorted ((k, v) # m)"
  by (cases m) auto

lemma set_put: "fst ` set (put k v m) = insert k (fst ` set m)"
  by (induction k v m rule: put.induct) auto

lemma map_sorted_put [intro]: "map_sorted m \<Longrightarrow> map_sorted (put k v m)"
proof (induction k v m rule: put.induct)
  case (2 k v k' v' m)
  note s = map_sorted_ConsD [OF "2.prems"]
  consider "k = k'" | "k \<noteq> k'" "str_less k k'" | "k \<noteq> k'" "\<not> str_less k k'" "str_less k' k"
    using str_less_linear by blast
  then show ?case
  proof cases
    case 1
    then show ?thesis using s by (auto intro!: map_sorted_ConsI)
  next
    case 2
    then show ?thesis using "2.prems" by auto
  next
    case 3
    then have "map_sorted (put k v m)"
      using "2.IH" s by simp
    moreover have "\<forall>k'' \<in> fst ` set (put k v m). str_less k' k''"
      using 3 s by (simp add: set_put)
    ultimately show ?thesis
      using 3 map_sorted_ConsI by simp
  qed
qed simp

lemma keys_to_map: "fst ` set (to_map ms) = fst ` set ms"
proof -
  have "fst ` set (fold (\<lambda>(k, v). put k v) ms m) = fst ` set m \<union> fst ` set ms"
    for m :: "(string \<times> 'a) list"
  proof (induction ms arbitrary: m)
    case (Cons p ms)
    then show ?case
      by (cases p) (simp add: set_put Un_left_commute)
  qed simp
  then show ?thesis by (simp add: to_map_def)
qed

lemma map_sorted_to_map: "map_sorted (to_map ms)"
proof -
  have "map_sorted m \<Longrightarrow> map_sorted (fold (\<lambda>(k, v). put k v) ms m)" for m :: "(string \<times> 'a) list"
    by (induction ms arbitrary: m) auto
  then show ?thesis by (simp add: to_map_def)
qed

text \<open>Putting keys in increasing order appends: a sorted list of members is the map it builds.\<close>

lemma put_last: "\<forall>k' \<in> fst ` set m. str_less k' k \<Longrightarrow> put k v m = m @ [(k, v)]"
proof (induction m)
  case (Cons p m)
  obtain k' v' where p: "p = (k', v')" by fastforce
  then have "str_less k' k" using Cons.prems by simp
  then have "k \<noteq> k'" "\<not> str_less k k'"
    using str_less_trans [of k k' k] by auto
  then show ?case using Cons p by simp
qed simp

lemma map_sorted_appendD:
  "map_sorted (m @ (k, v) # r) \<Longrightarrow> \<forall>k' \<in> fst ` set m. str_less k' k"
proof (induction m)
  case (Cons p m)
  obtain k' v' where p: "p = (k', v')" by fastforce
  then show ?case
    using Cons map_sorted_ConsD [of k' v' "m @ (k, v) # r"] by auto
qed simp

lemma to_map_sorted [simp]:
  assumes "map_sorted ms"
  shows "to_map ms = ms"
proof -
  have "map_sorted (m @ r) \<Longrightarrow> fold (\<lambda>(k, v). put k v) r m = m @ r" for m r :: "(string \<times> 'a) list"
  proof (induction r arbitrary: m)
    case (Cons p r)
    obtain k v where p: "p = (k, v)" by fastforce
    have "map_sorted (m @ (k, v) # r)"
      using Cons.prems p by simp
    then have "put k v m = m @ [(k, v)]"
      by (intro put_last map_sorted_appendD)
    moreover have "fold (\<lambda>(k, v). put k v) r (m @ [p]) = (m @ [p]) @ r"
      using Cons.prems by (intro Cons.IH) simp
    ultimately show ?case using p by simp
  qed simp
  from this [of "[]" ms] assms show ?thesis by (simp add: to_map_def)
qed

end
