(* ===== verification/Events.thy ===== *)
theory Events
  imports Env Json
begin

text \<open>
  Package \<open>events\<close> (\<open>events/events.go\<close>): the two order events with the JSON names of their fields and
  their topics; and \<open>platform/context.go\<close>: the trace context that travels in an event's payload.

  The W3C propagator of OpenTelemetry is third-party code: what \<open>Inject\<close> writes for a context is the
  carrier argument, a map with string keys, and \<open>Extract\<close> is an argument of \<open>ExtractTraceContext\<close>.
\<close>

section \<open>Events\<close>

record OrderRequested =
  or_EventID :: string
  or_EventVersion :: int
  or_OccurredAt :: int
  or_OrderID :: string
  or_RiderID :: string
  or_PickupLatitude :: float64
  or_PickupLongitude :: float64
  or_DestinationLatitude :: float64
  or_DestinationLongitude :: float64

record OrderAccepted =
  oa_EventID :: string
  oa_EventVersion :: int
  oa_OccurredAt :: int
  oa_OrderID :: string
  oa_DriverID :: string

definition OrderRequested_MessageType :: "environ \<Rightarrow> string" where
  "OrderRequested_MessageType env = Env_String env ''KAFKA_TOPIC_ORDER_REQUESTED'' []"

definition OrderAccepted_MessageType :: "environ \<Rightarrow> string" where
  "OrderAccepted_MessageType env = Env_String env ''KAFKA_TOPIC_ORDER_ACCEPTED'' []"

text \<open>
  \<open>json.Marshal\<close> of the events. \<open>ff\<close> writes a finite \<open>float64\<close> as the shortest decimal that reads
  back as it; an infinity or a NaN makes \<open>Marshal\<close> fail, with no bytes.
\<close>

definition Marshal_requested :: "(float64 \<Rightarrow> string) \<Rightarrow> OrderRequested \<Rightarrow> payload" where
  "Marshal_requested ff e =
     (if list_all float_finite
           [or_PickupLatitude e, or_PickupLongitude e, or_DestinationLatitude e, or_DestinationLongitude e]
      then Doc (JObj
        [(''eventId'', json_string (or_EventID e)),
         (''eventVersion'', json_int (or_EventVersion e)),
         (''occurredAt'', json_int (or_OccurredAt e)),
         (''orderId'', json_string (or_OrderID e)),
         (''riderId'', json_string (or_RiderID e)),
         (''pickupLatitude'', JNum (ff (or_PickupLatitude e))),
         (''pickupLongitude'', JNum (ff (or_PickupLongitude e))),
         (''destinationLatitude'', JNum (ff (or_DestinationLatitude e))),
         (''destinationLongitude'', JNum (ff (or_DestinationLongitude e)))])
      else NilPayload)"

definition Marshal_accepted :: "OrderAccepted \<Rightarrow> payload" where
  "Marshal_accepted e =
     Doc (JObj
       [(''eventId'', json_string (oa_EventID e)),
        (''eventVersion'', json_int (oa_EventVersion e)),
        (''occurredAt'', json_int (oa_OccurredAt e)),
        (''orderId'', json_string (oa_OrderID e)),
        (''driverId'', json_string (oa_DriverID e))])"

section \<open>The trace context in the payload\<close>

definition traceContextKey :: string where
  "traceContextKey = ''trace_context''"

text \<open>\<open>json.Marshal\<close> of the carrier, a \<open>map[string]string\<close>.\<close>

definition carrier_json :: "(string \<times> string) list \<Rightarrow> json" where
  "carrier_json carrier = JObj (map (\<lambda>(k, v). (valid_text k, json_string v)) carrier)"

definition InjectTraceContext :: "(string \<times> string) list \<Rightarrow> payload \<Rightarrow> payload" where
  "InjectTraceContext carrier payload =
     (if carrier = [] then payload
      else case payload of
        Doc (JObj ms) \<Rightarrow> Doc (JObj (put traceContextKey (carrier_json carrier) (to_map ms)))
      | _ \<Rightarrow> payload)"

text \<open>
  Decoding into a struct with one \<open>map[string]string\<close> field: a member matches the field by its exact
  name or up to letter case, a later one decodes into the same map, \<open>null\<close> clears it, an element that
  is \<open>null\<close> stays the empty string, and a value of another type is an error of the whole call.
\<close>

fun decode_element :: "json \<Rightarrow> string option" where
  "decode_element (JStr s) = Some s"
| "decode_element JNull = Some []"
| "decode_element _ = None"

fun decode_map :: "json \<Rightarrow> (string \<times> string) list \<Rightarrow> (string \<times> string) list option" where
  "decode_map JNull m = Some []"
| "decode_map (JObj ms) m =
     fold (\<lambda>(k, v) r. case r of None \<Rightarrow> None | Some m \<Rightarrow> map_option (\<lambda>s. put k s m) (decode_element v))
       ms (Some m)"
| "decode_map _ m = None"

definition decode_envelope :: "(string \<times> json) list \<Rightarrow> (string \<times> string) list option" where
  "decode_envelope ms =
     fold (\<lambda>(k, v) r. case r of None \<Rightarrow> None
             | Some m \<Rightarrow> if EqualFold k traceContextKey then decode_map v m else Some m)
       ms (Some [])"

definition ExtractTraceContext ::
    "('c \<Rightarrow> (string \<times> string) list \<Rightarrow> 'c) \<Rightarrow> 'c \<Rightarrow> payload \<Rightarrow> 'c" where
  "ExtractTraceContext extract ctx payload =
     (case payload of
        Doc (JObj ms) \<Rightarrow>
          (case decode_envelope ms of
             None \<Rightarrow> ctx
           | Some m \<Rightarrow> if m = [] then ctx else extract ctx m)
      | _ \<Rightarrow> ctx)"

section \<open>Injection and extraction\<close>

lemma InjectTraceContext_Nil [simp]: "InjectTraceContext [] p = p"
  by (simp add: InjectTraceContext_def)

lemma InjectTraceContext_NilPayload [simp]: "InjectTraceContext c NilPayload = NilPayload"
  by (simp add: InjectTraceContext_def)

text \<open>Any member but the reserved one is what it was, the reserved one is the carrier.\<close>

lemma InjectTraceContext_members:
  assumes "carrier \<noteq> []"
  shows "\<exists>ms'. InjectTraceContext carrier (Doc (JObj ms)) = Doc (JObj ms')
           \<and> map_of ms' = (map_of (rev ms))(traceContextKey \<mapsto> carrier_json carrier)
           \<and> map_sorted ms'"
  using assms by (auto simp: InjectTraceContext_def map_of_to_map map_sorted_to_map)

text \<open>Strings that \<open>encoding/json\<close> writes as they are: the carrier's are ASCII header values.\<close>

definition plain_carrier :: "(string \<times> string) list \<Rightarrow> bool" where
  "plain_carrier m \<longleftrightarrow> map_sorted m \<and> (\<forall>(k, v) \<in> set m. ascii k \<and> ascii v)"

lemma decode_map_carrier:
  assumes "plain_carrier m"
  shows "decode_map (carrier_json m) [] = Some m"
proof -
  have *: "\<forall>(k, v) \<in> set ps. ascii k \<and> ascii v \<Longrightarrow>
     fold (\<lambda>(k, v) r. case r of None \<Rightarrow> None | Some m \<Rightarrow> map_option (\<lambda>s. put k s m) (decode_element v))
       (map (\<lambda>(k, v). (valid_text k, json_string v)) ps) (Some acc)
     = Some (fold (\<lambda>(k, v). put k v) ps acc)" for ps acc
    by (induction ps arbitrary: acc) (auto simp: json_string_def)
  have "decode_map (carrier_json m) [] = Some (to_map m)"
    using assms by (simp add: carrier_json_def to_map_def * plain_carrier_def)
  then show ?thesis
    using assms by (simp add: plain_carrier_def)
qed

text \<open>Members whose name is not the reserved one up to letter case do not matter to extraction.\<close>

definition reserved :: "string \<Rightarrow> bool" where
  "reserved k \<longleftrightarrow> EqualFold k traceContextKey"

lemma reserved_key [simp]: "reserved traceContextKey"
  by (simp add: reserved_def EqualFold_def)

lemma decode_envelope_fold:
  "decode_envelope ms =
     fold (\<lambda>(k, v) r. case r of None \<Rightarrow> None | Some m \<Rightarrow> decode_map v m)
       (filter (\<lambda>(k, v). reserved k) ms) (Some [])"
proof -
  have "fold (\<lambda>(k, v) r. case r of None \<Rightarrow> None
             | Some m \<Rightarrow> if EqualFold k traceContextKey then decode_map v m else Some m) ms r0
     = fold (\<lambda>(k, v) r. case r of None \<Rightarrow> None | Some m \<Rightarrow> decode_map v m)
       (filter (\<lambda>(k, v). reserved k) ms) r0" for r0
    by (induction ms arbitrary: r0) (auto simp: reserved_def split: option.splits)
  then show ?thesis by (simp add: decode_envelope_def)
qed

lemma filter_reserved_put:
  "\<forall>k \<in> fst ` set m. \<not> reserved k \<Longrightarrow>
     filter (\<lambda>(k, v). reserved k) (put traceContextKey v m) = [(traceContextKey, v)]"
  by (induction traceContextKey v m rule: put.induct) (auto simp: filter_empty_conv)

lemma Extract_Inject:
  assumes "plain_carrier carrier" "carrier \<noteq> []" "\<forall>k \<in> fst ` set ms. \<not> reserved k"
  shows "ExtractTraceContext extract ctx (InjectTraceContext carrier (Doc (JObj ms)))
           = extract ctx carrier"
proof -
  have "decode_envelope (put traceContextKey (carrier_json carrier) (to_map ms)) = Some carrier"
    using assms by (simp add: decode_envelope_fold filter_reserved_put keys_to_map decode_map_carrier)
  then show ?thesis
    using assms(2) by (simp add: InjectTraceContext_def ExtractTraceContext_def)
qed

section \<open>What travels with an event\<close>

text \<open>C27: a trace context that was stored in a payload is what is read from it, for every event that does
  not itself use the reserved name, and every other member of the payload is what it was.\<close>

theorem trace_context_round_trip:
  assumes "plain_carrier carrier" "carrier \<noteq> []" "\<forall>k \<in> fst ` set ms. \<not> reserved k"
  shows "ExtractTraceContext extract ctx (InjectTraceContext carrier (Doc (JObj ms))) = extract ctx carrier
    \<and> (\<exists>ms'. InjectTraceContext carrier (Doc (JObj ms)) = Doc (JObj ms')
         \<and> (\<forall>k. k \<noteq> traceContextKey \<longrightarrow> map_of ms' k = map_of (rev ms) k))"
proof
  show "ExtractTraceContext extract ctx (InjectTraceContext carrier (Doc (JObj ms))) = extract ctx carrier"
    using assms by (rule Extract_Inject)
  obtain ms' where ms': "InjectTraceContext carrier (Doc (JObj ms)) = Doc (JObj ms')"
    "map_of ms' = (map_of (rev ms))(traceContextKey \<mapsto> carrier_json carrier)"
    using InjectTraceContext_members [OF assms(2)] by blast
  then have "\<forall>k. k \<noteq> traceContextKey \<longrightarrow> map_of ms' k = map_of (rev ms) k"
    by simp
  with ms'(1) show "\<exists>ms'. InjectTraceContext carrier (Doc (JObj ms)) = Doc (JObj ms')
         \<and> (\<forall>k. k \<noteq> traceContextKey \<longrightarrow> map_of ms' k = map_of (rev ms) k)"
    by blast
qed

definition sample_event :: OrderAccepted where
  "sample_event = \<lparr>oa_EventID = ''e'', oa_EventVersion = 1, oa_OccurredAt = 0, oa_OrderID = ''o'', oa_DriverID = ''d''\<rparr>"

theorem trace_context_round_trip_witness:
  "ExtractTraceContext (\<lambda>_ m. m) [] (InjectTraceContext [(''traceparent'', ''00-1'')] (Marshal_accepted sample_event))
     = [(''traceparent'', ''00-1'')]"
  unfolding Marshal_accepted_def sample_event_def OrderAccepted.simps
  by (rule trace_context_round_trip [THEN conjunct1])
    (simp_all add: plain_carrier_def ascii_def reserved_def EqualFold_def traceContextKey_def to_lower_def)

text \<open>Where there is nothing to store or nowhere to store it, the payload is left as it is, byte for byte, and
  reading it gives the context the reader came with.\<close>

theorem no_trace_context_no_change:
  assumes "carrier = [] \<or> (\<forall>ms. payload \<noteq> Doc (JObj ms))" "\<forall>ms. payload = Doc (JObj ms) \<longrightarrow> (\<forall>k \<in> fst ` set ms. \<not> reserved k)"
  shows "InjectTraceContext carrier payload = payload
    \<and> ExtractTraceContext extract ctx (InjectTraceContext carrier payload) = ctx"
proof
  show i: "InjectTraceContext carrier payload = payload"
    using assms(1) by (auto simp: InjectTraceContext_def split: payload.splits json.splits)
  have "decode_envelope ms = Some []" if "payload = Doc (JObj ms)" for ms
  proof -
    have "filter (\<lambda>(k, v). reserved k) ms = []"
      using assms(2) that by (force simp: filter_empty_conv)
    then show ?thesis by (simp add: decode_envelope_fold)
  qed
  then show "ExtractTraceContext extract ctx (InjectTraceContext carrier payload) = ctx"
    unfolding i by (auto simp: ExtractTraceContext_def split: payload.splits json.splits)
qed

theorem no_trace_context_no_change_witness:
  "ExtractTraceContext (\<lambda>_ m. m) [(''a'', ''b'')] (InjectTraceContext [] (Marshal_accepted sample_event)) = [(''a'', ''b'')]"
  unfolding Marshal_accepted_def sample_event_def OrderAccepted.simps
  by (rule no_trace_context_no_change [THEN conjunct2])
    (simp_all add: reserved_def EqualFold_def traceContextKey_def to_lower_def)

end
