(* ===== verification/Models.thy ===== *)
theory Models
  imports Uuid Events
begin

text \<open>
  The data of the program: the structs of \<open>internal/orders/models.go\<close> and
  \<open>internal/drivers/models.go\<close>, the request body of \<open>internal/orders/handler.go\<close>, and the rows of the
  four tables the SQL statements name. Struct fields carry a prefix, since several structs share
  field names: \<open>ord_\<close> for \<open>orders.Order\<close>, \<open>inp_\<close> for \<open>OrderRequestedInput\<close>, \<open>out_\<close> for
  \<open>orders.OrderOutput\<close>, \<open>view_\<close> for \<open>OrderView\<close>, \<open>req_\<close> for \<open>requestInput\<close>, \<open>acc_\<close> for
  \<open>AcceptedInput\<close>.
\<close>

section \<open>internal/orders/models.go\<close>

record Order =
  ord_ID :: string
  ord_RiderID :: string
  ord_PickupLatitude :: float64
  ord_PickupLongitude :: float64
  ord_DestinationLatitude :: float64
  ord_DestinationLongitude :: float64

record OrderRequestedInput =
  inp_ID :: string
  inp_RiderID :: string
  inp_PickupLatitude :: float64
  inp_PickupLongitude :: float64
  inp_DestinationLatitude :: float64
  inp_DestinationLongitude :: float64
  inp_StatusHistoryID :: string
  inp_OutboxID :: string
  inp_Payload :: payload
  inp_EventType :: string

record OrderOutput =
  out_ID :: string
  out_RiderID :: string
  out_PickupLatitude :: float64
  out_PickupLongitude :: float64
  out_DestinationLatitude :: float64
  out_DestinationLongitude :: float64

record OrderView =
  view_ID :: string
  view_RiderID :: string
  view_PickupLatitude :: float64
  view_PickupLongitude :: float64
  view_DestinationLatitude :: float64
  view_DestinationLongitude :: float64
  view_Status :: string
  view_CreatedAt :: int

text \<open>Zero values, and the conversion \<open>OrderOutput(order)\<close> between structs with the same fields.\<close>

definition zero_OrderOutput :: OrderOutput where
  "zero_OrderOutput = \<lparr>out_ID = [], out_RiderID = [], out_PickupLatitude = 0, out_PickupLongitude = 0,
     out_DestinationLatitude = 0, out_DestinationLongitude = 0\<rparr>"

definition zero_OrderView :: OrderView where
  "zero_OrderView = \<lparr>view_ID = [], view_RiderID = [], view_PickupLatitude = 0, view_PickupLongitude = 0,
     view_DestinationLatitude = 0, view_DestinationLongitude = 0, view_Status = [], view_CreatedAt = 0\<rparr>"

definition OrderOutput_of :: "Order \<Rightarrow> OrderOutput" where
  "OrderOutput_of o1 = \<lparr>out_ID = ord_ID o1, out_RiderID = ord_RiderID o1,
     out_PickupLatitude = ord_PickupLatitude o1, out_PickupLongitude = ord_PickupLongitude o1,
     out_DestinationLatitude = ord_DestinationLatitude o1,
     out_DestinationLongitude = ord_DestinationLongitude o1\<rparr>"

text \<open>The JSON names of the struct tags.\<close>

definition OrderOutput_json :: "(float64 \<Rightarrow> string) \<Rightarrow> OrderOutput \<Rightarrow> json" where
  "OrderOutput_json ff r = JObj
     [(''id'', json_string (out_ID r)),
      (''rider_id'', json_string (out_RiderID r)),
      (''pickup_latitude'', JNum (ff (out_PickupLatitude r))),
      (''pickup_longitude'', JNum (ff (out_PickupLongitude r))),
      (''destination_latitude'', JNum (ff (out_DestinationLatitude r))),
      (''destination_longitude'', JNum (ff (out_DestinationLongitude r)))]"

definition OrderView_json :: "(float64 \<Rightarrow> string) \<Rightarrow> (int \<Rightarrow> string) \<Rightarrow> OrderView \<Rightarrow> json" where
  "OrderView_json ff ft v = JObj
     [(''id'', json_string (view_ID v)),
      (''rider_id'', json_string (view_RiderID v)),
      (''pickup_latitude'', JNum (ff (view_PickupLatitude v))),
      (''pickup_longitude'', JNum (ff (view_PickupLongitude v))),
      (''destination_latitude'', JNum (ff (view_DestinationLatitude v))),
      (''destination_longitude'', JNum (ff (view_DestinationLongitude v))),
      (''status'', json_string (view_Status v)),
      (''created_at'', JStr (ft (view_CreatedAt v)))]"

section \<open>internal/orders/handler.go: the request body\<close>

record requestInput =
  req_ID :: string
  req_RiderID :: string
  req_PickupLatitude :: float64
  req_PickupLongitude :: float64
  req_DestinationLatitude :: float64
  req_DestinationLongitude :: float64

section \<open>internal/drivers/models.go\<close>

record AcceptedInput =
  acc_OrderID :: string
  acc_DriverID :: string
  acc_AcceptanceID :: string
  acc_StatusHistoryID :: string
  acc_OutboxID :: string
  acc_Payload :: payload
  acc_EventType :: string

text \<open>\<open>drivers.Order\<close> and \<open>drivers.OrderOutput\<close> have the one field \<open>ID\<close>.\<close>

record DriverOrder =
  drv_ID :: string

record DriverOrderOutput =
  dout_ID :: string

definition zero_DriverOrderOutput :: DriverOrderOutput where
  "zero_DriverOrderOutput = \<lparr>dout_ID = []\<rparr>"

definition DriverOrderOutput_of :: "DriverOrder \<Rightarrow> DriverOrderOutput" where
  "DriverOrderOutput_of o1 = \<lparr>dout_ID = drv_ID o1\<rparr>"

definition DriverOrderOutput_json :: "DriverOrderOutput \<Rightarrow> json" where
  "DriverOrderOutput_json r = JObj [(''id'', json_string (dout_ID r))]"

section \<open>The tables\<close>

text \<open>
  The columns the statements write or read. The tables are append-only: a table is the list of its
  rows in the order they were committed.
\<close>

record order_row =
  r_id :: uuid
  r_rider_id :: uuid
  r_pickup_latitude :: float64
  r_pickup_longitude :: float64
  r_destination_latitude :: float64
  r_destination_longitude :: float64
  r_created_at :: int

record status_row =
  h_id :: uuid
  h_order_id :: uuid
  h_sequence :: int
  h_status_id :: int

record acceptance_row =
  a_id :: uuid
  a_order_id :: uuid
  a_driver_id :: uuid

record outbox_row =
  x_id :: uuid
  x_aggregate_type :: string
  x_aggregate_id :: uuid
  x_event_type :: string
  x_event_version :: int
  x_payload :: "json option"

record tables =
  orders :: "order_row list"
  order_status_history :: "status_row list"
  order_acceptances :: "acceptance_row list"
  outbox_events :: "outbox_row list"

definition empty_tables :: tables where
  "empty_tables = \<lparr>orders = [], order_status_history = [], order_acceptances = [], outbox_events = []\<rparr>"

text \<open>The rows one statement inserts.\<close>

type_synonym delta = tables

definition insert_rows :: "delta \<Rightarrow> tables \<Rightarrow> tables" where
  "insert_rows d db = \<lparr>orders = orders db @ orders d,
     order_status_history = order_status_history db @ order_status_history d,
     order_acceptances = order_acceptances db @ order_acceptances d,
     outbox_events = outbox_events db @ outbox_events d\<rparr>"

lemma insert_rows_sel [simp]:
  "orders (insert_rows d db) = orders db @ orders d"
  "order_status_history (insert_rows d db) = order_status_history db @ order_status_history d"
  "order_acceptances (insert_rows d db) = order_acceptances db @ order_acceptances d"
  "outbox_events (insert_rows d db) = outbox_events db @ outbox_events d"
  by (simp_all add: insert_rows_def)

lemma empty_tables_sel [simp]:
  "orders empty_tables = []" "order_status_history empty_tables = []"
  "order_acceptances empty_tables = []" "outbox_events empty_tables = []"
  by (simp_all add: empty_tables_def)

lemma insert_rows_empty [simp]: "insert_rows empty_tables db = db"
  by (simp add: insert_rows_def)

end
