(* ===== verification/World.thy ===== *)
theory World
  imports Models
begin

text \<open>
  The state the program's operations run on and the parameters that stand for code outside the
  repository.

  \<^item> \<open>world\<close>: the committed tables, the entries of the order cache and when they expire, the UUIDs \<open>uuid.New\<close> will draw, the
    clock, the process environment, and what was sent to telemetry (counters, histograms and log lines).
  \<^item> \<open>runtime\<close>: functions of packages and of the database that are not under \<open>src/\<close>.
  \<^item> \<open>'a act\<close>: an operation that takes the world and returns an error or a value, and the world it
    leaves.
\<close>

section \<open>State\<close>

datatype level = Debug | Info | Warn | Error

datatype log_entry = Log (log_level: level) (log_msg: string) (log_fields: "(string \<times> string) list")

record world =
  db :: tables
  cached :: "(string \<times> OrderView) list"
  cached_until :: "string \<Rightarrow> int"
  rand :: "nat \<Rightarrow> uuid"
  drawn :: nat
  clock :: int
  environ :: "(string \<times> string) list"
  counters :: "(string \<times> string) list"
  logs :: "log_entry list"

type_synonym 'a act = "world \<Rightarrow> (go_error + 'a) \<times> world"

text \<open>\<open>uuid.New().String()\<close>: the next random UUID, as text. \<open>uuid.New\<close> has no error result.\<close>

definition new_uuid :: "world \<Rightarrow> string \<times> world" where
  "new_uuid w = (uuid_string (rand w (drawn w)), w\<lparr>drawn := Suc (drawn w)\<rparr>)"

definition add_counter :: "string \<Rightarrow> string \<Rightarrow> world \<Rightarrow> world" where
  "add_counter name status w = w\<lparr>counters := counters w @ [(name, status)]\<rparr>"

text \<open>A histogram sample is recorded with its status; the measured duration is not kept.\<close>

definition add_histogram :: "string \<Rightarrow> string \<Rightarrow> world \<Rightarrow> world" where
  "add_histogram name status w = w\<lparr>counters := counters w @ [(name, status)]\<rparr>"

definition add_log :: "log_entry \<Rightarrow> world \<Rightarrow> world" where
  "add_log e w = w\<lparr>logs := logs w @ [e]\<rparr>"

lemma new_uuid_frame [simp]:
  "db (snd (new_uuid w)) = db w" "cached (snd (new_uuid w)) = cached w"
  "clock (snd (new_uuid w)) = clock w" "environ (snd (new_uuid w)) = environ w"
  "fst (new_uuid w) = uuid_string (rand w (drawn w))" "rand (snd (new_uuid w)) = rand w"
  "drawn (snd (new_uuid w)) = Suc (drawn w)"
  "counters (snd (new_uuid w)) = counters w" "logs (snd (new_uuid w)) = logs w"
  by (simp_all add: new_uuid_def)

lemma add_counter_frame [simp]:
  "db (add_counter n s w) = db w" "cached (add_counter n s w) = cached w"
  "counters (add_counter n s w) = counters w @ [(n, s)]"
  by (simp_all add: add_counter_def)

lemma add_histogram_frame [simp]:
  "db (add_histogram n s w) = db w" "cached (add_histogram n s w) = cached w"
  "counters (add_histogram n s w) = counters w @ [(n, s)]"
  by (simp_all add: add_histogram_def)

lemma add_log_frame [simp]:
  "db (add_log e w) = db w" "cached (add_log e w) = cached w" "logs (add_log e w) = logs w @ [e]"
  "counters (add_log e w) = counters w"
  by (simp_all add: add_log_def)

section \<open>Parameters\<close>

text \<open>
  \<^item> \<open>uuid_Parse\<close>: \<open>uuid.Parse\<close>, with \<open>None\<close> for an error;
  \<^item> \<open>pg_uuid\<close>: what the driver and the server make of a text parameter cast to \<open>uuid\<close>;
  \<^item> \<open>status_code\<close>: the rows of the table \<open>order_statuses\<close>, id to code;
  \<^item> \<open>lift_pg\<close>: how \<open>hellnet-lib-database\<close> returns an error of the server;
  \<^item> \<open>reported\<close>: of the unique constraints a statement violates, the one the server reports;
  \<^item> \<open>refuse\<close>: what else can make the server refuse the rows (constraints of the schema that the
    repository does not hold, a lost connection);
  \<^item> \<open>lost_read\<close>: what can make the read of an order fail (a lost connection);
  \<^item> \<open>fmt_float\<close>, \<open>fmt_time\<close>: the JSON text of a finite \<open>float64\<close> and of a \<open>time.Time\<close>.
\<close>

record runtime =
  uuid_Parse :: "string \<Rightarrow> uuid option"
  pg_uuid :: "string \<Rightarrow> uuid option"
  status_code :: "int \<Rightarrow> string option"
  lift_pg :: "pg_error \<Rightarrow> go_error"
  reported :: "string list \<Rightarrow> string"
  refuse :: "tables \<Rightarrow> tables \<Rightarrow> pg_error option"
  lost_read :: "tables \<Rightarrow> uuid \<Rightarrow> pg_error option"
  fmt_float :: "float64 \<Rightarrow> string"
  fmt_time :: "int \<Rightarrow> string"

text \<open>
  What the program relies on: UUID texts in the RFC form are read, the status table has its rows for
  the two statuses this service writes, and the server reports a constraint that is violated.
\<close>

definition runtime_ok :: "runtime \<Rightarrow> bool" where
  "runtime_ok rt \<longleftrightarrow> reads_rfc (uuid_Parse rt) \<and> reads_rfc (pg_uuid rt)
     \<and> status_code rt 1 = Some ''requested'' \<and> status_code rt 3 = Some ''accepted''
     \<and> (\<forall>cs. cs \<noteq> [] \<longrightarrow> reported rt cs \<in> set cs)"

text \<open>A runtime that satisfies all of it: RFC parsers, errors as they are, the first violation.\<close>

definition plain_runtime :: runtime where
  "plain_runtime =
     \<lparr>uuid_Parse = rfc_parse, pg_uuid = rfc_parse,
      status_code = (\<lambda>n. if n = 1 then Some ''requested'' else if n = 3 then Some ''accepted'' else None),
      lift_pg = PgErr, reported = hd, refuse = (\<lambda>_ _. None), lost_read = (\<lambda>_ _. None),
      fmt_float = (\<lambda>_. ''0''), fmt_time = (\<lambda>_. ''1970-01-01T00:00:00Z'')\<rparr>"

lemma plain_runtime_ok [simp]: "runtime_ok plain_runtime"
  by (simp add: runtime_ok_def plain_runtime_def)

lemma plain_runtime_sel [simp]:
  "uuid_Parse plain_runtime = rfc_parse" "pg_uuid plain_runtime = rfc_parse"
  "lift_pg plain_runtime = PgErr" "reported plain_runtime = hd"
  "refuse plain_runtime = (\<lambda>_ _. None)" "lost_read plain_runtime = (\<lambda>_ _. None)"
  by (simp_all add: plain_runtime_def)

lemma runtime_okD:
  assumes "runtime_ok rt"
  shows "uuid_Parse rt (uuid_string u) = Some u" "pg_uuid rt (uuid_string u) = Some u"
    "status_code rt 1 = Some ''requested''" "status_code rt 3 = Some ''accepted''"
    "cs \<noteq> [] \<Longrightarrow> reported rt cs \<in> set cs"
  using assms by (auto simp: runtime_ok_def reads_rfc_string)

text \<open>A world with empty tables, for closed examples.\<close>

definition start_world :: "(nat \<Rightarrow> uuid) \<Rightarrow> world" where
  "start_world r = \<lparr>db = empty_tables, cached = [], cached_until = (\<lambda>_. 0), rand = r, drawn = 0, clock = 0, environ = [],
     counters = [], logs = []\<rparr>"

end
