(* ===== verification/Store.thy ===== *)
theory Store
  imports World
begin

text \<open>
  The three SQL statements of the repositories (\<open>internal/orders/repository.go\<close>,
  \<open>internal/drivers/repository.go\<close>) on the tables.

  A statement runs in two steps. Its \<^emph>\<open>plan\<close> evaluates the whole statement, all of its common table
  expressions, on one snapshot of the tables, and gives the rows it inserts. Its \<^emph>\<open>commit\<close> checks the
  unique constraints against the tables as they are by then, and appends the rows, all of them or
  none. \<open>pg_execute\<close> runs both without another statement in between; theory \<open>Interleaving\<close> lets
  others commit in between.

  The schema is not in the repository. The unique constraints are the three the Go code names:
  \<open>orders_pkey\<close>, \<open>order_status_history_order_id_sequence_key\<close> and \<open>uq_order_acceptances_order\<close>.
\<close>

section \<open>Statements and arguments\<close>

datatype sql = requestedSQL | acceptedSQL | viewSQL

datatype sql_arg = AText string | AFloat float64 | ABytes payload

definition invalid_text :: pg_error where
  "invalid_text = \<lparr>pg_code = ''22P02'', pg_constraint = [], pg_text = ''invalid input syntax''\<rparr>"

definition unique_violation :: "string \<Rightarrow> pg_error" where
  "unique_violation c = \<lparr>pg_code = ''23505'', pg_constraint = c,
     pg_text = ''duplicate key value violates unique constraint''\<rparr>"

definition bad_arguments :: pg_error where
  "bad_arguments = \<lparr>pg_code = ''08P01'', pg_constraint = [], pg_text = ''wrong number of parameters''\<rparr>"

text \<open>The cast \<open>$n::jsonb\<close>: no bytes are the value NULL.\<close>

fun pg_jsonb :: "payload \<Rightarrow> json option option" where
  "pg_jsonb NilPayload = Some None"
| "pg_jsonb (NotJSON s) = None"
| "pg_jsonb (Doc j) = Some (Some j)"

section \<open>Plans\<close>

text \<open>
  \<open>requestedSQL\<close>: the order with the column default for \<open>created_at\<close>, its first status (sequence 1,
  status 1) and the outbox event (version 1).
\<close>

definition requested_plan :: "runtime \<Rightarrow> int \<Rightarrow> sql_arg list \<Rightarrow> pg_error + delta" where
  "requested_plan rt now args =
     (case args of
        [AText a1, AText a2, AFloat a3, AFloat a4, AFloat a5, AFloat a6, AText a7, AText a8, ABytes a9,
         AText a10] \<Rightarrow>
          (case (pg_uuid rt a1, pg_uuid rt a2, pg_uuid rt a7, pg_uuid rt a8, pg_jsonb a9) of
             (Some u1, Some u2, Some u7, Some u8, Some j9) \<Rightarrow>
               Inr \<lparr>orders = [\<lparr>r_id = u1, r_rider_id = u2, r_pickup_latitude = a3,
                       r_pickup_longitude = a4, r_destination_latitude = a5,
                       r_destination_longitude = a6, r_created_at = now\<rparr>],
                     order_status_history =
                       [\<lparr>h_id = u7, h_order_id = u1, h_sequence = 1, h_status_id = 1\<rparr>],
                     order_acceptances = [],
                     outbox_events =
                       [\<lparr>x_id = u8, x_aggregate_type = ''order'', x_aggregate_id = u1,
                         x_event_type = a10, x_event_version = 1, x_payload = j9\<rparr>]\<rparr>
           | _ \<Rightarrow> Inl invalid_text)
      | _ \<Rightarrow> Inl bad_arguments)"

definition has_status :: "tables \<Rightarrow> uuid \<Rightarrow> int \<Rightarrow> bool" where
  "has_status t oid s \<longleftrightarrow> list_ex (\<lambda>h. h_order_id h = oid \<and> h_status_id h = s) (order_status_history t)"

text \<open>The common table expression \<open>guard\<close>: whether it has its one row.\<close>

definition guard :: "tables \<Rightarrow> uuid \<Rightarrow> bool" where
  "guard t oid \<longleftrightarrow> has_status t oid 1 \<and> \<not> has_status t oid 3"

text \<open>\<open>COALESCE((SELECT MAX(sequence) ...), 0) + 1\<close>.\<close>

definition next_sequence :: "tables \<Rightarrow> uuid \<Rightarrow> int" where
  "next_sequence t oid =
     (case map h_sequence (filter (\<lambda>h. h_order_id h = oid) (order_status_history t)) of
        [] \<Rightarrow> 0
      | s # ss \<Rightarrow> fold max ss s) + 1"

definition accepted_plan :: "runtime \<Rightarrow> sql_arg list \<Rightarrow> tables \<Rightarrow> pg_error + delta" where
  "accepted_plan rt args t =
     (case args of
        [AText a1, AText a2, AText a3, AText a4, AText a5, ABytes a6, AText a7] \<Rightarrow>
          (case (pg_uuid rt a1, pg_uuid rt a2, pg_uuid rt a3, pg_uuid rt a4, pg_uuid rt a5, pg_jsonb a6) of
             (Some u1, Some u2, Some u3, Some u4, Some u5, Some j6) \<Rightarrow>
               Inr (if guard t u2
                    then \<lparr>orders = [],
                          order_status_history =
                            [\<lparr>h_id = u4, h_order_id = u2, h_sequence = next_sequence t u2,
                              h_status_id = 3\<rparr>],
                          order_acceptances = [\<lparr>a_id = u1, a_order_id = u2, a_driver_id = u3\<rparr>],
                          outbox_events =
                            [\<lparr>x_id = u5, x_aggregate_type = ''order'', x_aggregate_id = u2,
                              x_event_type = a7, x_event_version = 1, x_payload = j6\<rparr>]\<rparr>
                    else empty_tables)
           | _ \<Rightarrow> Inl invalid_text)
      | _ \<Rightarrow> Inl bad_arguments)"

section \<open>Commit\<close>

abbreviation orders_pkey :: string where
  "orders_pkey \<equiv> ''orders_pkey''"

abbreviation history_key :: string where
  "history_key \<equiv> ''order_status_history_order_id_sequence_key''"

abbreviation acceptance_key :: string where
  "acceptance_key \<equiv> ''uq_order_acceptances_order''"

definition violations :: "delta \<Rightarrow> tables \<Rightarrow> string list" where
  "violations d t =
     (if list_ex (\<lambda>r. list_ex (\<lambda>r'. r_id r' = r_id r) (orders t)) (orders d) then [orders_pkey] else [])
     @ (if list_ex (\<lambda>h. list_ex (\<lambda>h'. h_order_id h' = h_order_id h \<and> h_sequence h' = h_sequence h)
              (order_status_history t)) (order_status_history d) then [history_key] else [])
     @ (if list_ex (\<lambda>a. list_ex (\<lambda>a'. a_order_id a' = a_order_id a) (order_acceptances t))
              (order_acceptances d) then [acceptance_key] else [])"

definition commit :: "runtime \<Rightarrow> delta \<Rightarrow> tables \<Rightarrow> pg_error + tables" where
  "commit rt d t =
     (case refuse rt t d of
        Some e \<Rightarrow> Inl e
      | None \<Rightarrow>
          if violations d t \<noteq> [] then Inl (unique_violation (reported rt (violations d t)))
          else Inr (insert_rows d t))"

section \<open>Execution\<close>

text \<open>
  \<open>database.DB.ExecuteContext\<close>: the affected rows are those of the last \<open>INSERT\<close>, the outbox events.
\<close>

definition plan :: "runtime \<Rightarrow> int \<Rightarrow> sql \<Rightarrow> sql_arg list \<Rightarrow> tables \<Rightarrow> pg_error + delta" where
  "plan rt now stmt args t =
     (case stmt of
        requestedSQL \<Rightarrow> requested_plan rt now args
      | acceptedSQL \<Rightarrow> accepted_plan rt args t
      | viewSQL \<Rightarrow> Inl bad_arguments)"

type_synonym execute = "sql \<Rightarrow> sql_arg list \<Rightarrow> int act"

definition pg_execute :: "runtime \<Rightarrow> execute" where
  "pg_execute rt stmt args w =
     (case plan rt (clock w) stmt args (db w) of
        Inl e \<Rightarrow> (Inl (lift_pg rt e), w)
      | Inr d \<Rightarrow>
          (case commit rt d (db w) of
             Inl e \<Rightarrow> (Inl (lift_pg rt e), w)
           | Inr t \<Rightarrow> (Inr (int (length (outbox_events d))), w\<lparr>db := t\<rparr>)))"

text \<open>
  \<open>viewSQL\<close>: the order, joined with its history row of highest sequence, joined with the code of
  that row's status. A row is missing where any of the three is.
\<close>

fun latest :: "status_row list \<Rightarrow> status_row option" where
  "latest [] = None"
| "latest (h # hs) =
     (case latest hs of
        None \<Rightarrow> Some h
      | Some h' \<Rightarrow> if h_sequence h < h_sequence h' then Some h' else Some h)"

definition select_view :: "runtime \<Rightarrow> tables \<Rightarrow> uuid \<Rightarrow> OrderView option" where
  "select_view rt t oid =
     (case find (\<lambda>r. r_id r = oid) (orders t) of
        None \<Rightarrow> None
      | Some r \<Rightarrow>
          (case latest (filter (\<lambda>h. h_order_id h = oid) (order_status_history t)) of
             None \<Rightarrow> None
           | Some h \<Rightarrow>
               (case status_code rt (h_status_id h) of
                  None \<Rightarrow> None
                | Some code \<Rightarrow>
                    Some \<lparr>view_ID = uuid_string (r_id r), view_RiderID = uuid_string (r_rider_id r),
                          view_PickupLatitude = r_pickup_latitude r,
                          view_PickupLongitude = r_pickup_longitude r,
                          view_DestinationLatitude = r_destination_latitude r,
                          view_DestinationLongitude = r_destination_longitude r,
                          view_Status = code, view_CreatedAt = r_created_at r\<rparr>)))"

type_synonym query_view = "sql \<Rightarrow> sql_arg list \<Rightarrow> (OrderView \<times> bool) act"

definition pg_query_view :: "runtime \<Rightarrow> query_view" where
  "pg_query_view rt stmt args w =
     (case (stmt, args) of
        (viewSQL, [AText a1]) \<Rightarrow>
          (case pg_uuid rt a1 of
             None \<Rightarrow> (Inl (lift_pg rt invalid_text), w)
           | Some oid \<Rightarrow>
               (case lost_read rt (db w) oid of
                  Some e \<Rightarrow> (Inl (lift_pg rt e), w)
                | None \<Rightarrow>
                    (case select_view rt (db w) oid of
                       None \<Rightarrow> (Inr (zero_OrderView, False), w)
                     | Some v \<Rightarrow> (Inr (v, True), w))))
      | _ \<Rightarrow> (Inl (lift_pg rt bad_arguments), w))"

text \<open>A \<open>database.DB\<close> as the repositories use it, and the one over PostgreSQL.\<close>

record database_DB =
  ExecuteContext :: execute
  QueryRowContext :: query_view

definition pg_DB :: "runtime \<Rightarrow> database_DB" where
  "pg_DB rt = \<lparr>ExecuteContext = pg_execute rt, QueryRowContext = pg_query_view rt\<rparr>"

end
