(* ===== verification/Lifecycle.thy ===== *)
theory Lifecycle
  imports Store
begin

text \<open>
  What the tables look like when only the two statements of this service write them, and what they
  stand for.

  \<^item> \<open>tables_ok\<close>: every order id is in one of three situations, none of it written, requested, or
    accepted, with exactly the rows of that situation in each of the four tables.
  \<^item> \<open>statement\<close>: the locale of a statement whose plans are well formed; its lemmas say that
    committing such a plan, also on tables that have grown since, keeps \<open>tables_ok\<close>. Both statements
    are interpretations.
  \<^item> \<open>abs_tables\<close>: the rides the tables stand for, and the refinement: executing a statement is the
    abstract operation on rides.
\<close>

section \<open>Well-formed tables\<close>

definition hist :: "tables \<Rightarrow> uuid \<Rightarrow> (int \<times> int) list" where
  "hist t oid = map (\<lambda>h. (h_sequence h, h_status_id h))
     (filter (\<lambda>h. h_order_id h = oid) (order_status_history t))"

definition n_orders :: "tables \<Rightarrow> uuid \<Rightarrow> nat" where
  "n_orders t oid = length (filter (\<lambda>r. r_id r = oid) (orders t))"

definition n_acceptances :: "tables \<Rightarrow> uuid \<Rightarrow> nat" where
  "n_acceptances t oid = length (filter (\<lambda>a. a_order_id a = oid) (order_acceptances t))"

definition n_events :: "tables \<Rightarrow> uuid \<Rightarrow> nat" where
  "n_events t oid = length (filter (\<lambda>x. x_aggregate_id x = oid) (outbox_events t))"

definition row_counts :: "tables \<Rightarrow> uuid \<Rightarrow> nat \<times> (int \<times> int) list \<times> nat \<times> nat" where
  "row_counts t oid = (n_orders t oid, hist t oid, n_acceptances t oid, n_events t oid)"

lemmas count_defs = n_orders_def n_acceptances_def n_events_def hist_def

definition order_ok :: "tables \<Rightarrow> uuid \<Rightarrow> bool" where
  "order_ok t oid \<longleftrightarrow>
     row_counts t oid = (0, [], 0, 0)
     \<or> row_counts t oid = (1, [(1, 1)], 0, 1)
     \<or> row_counts t oid = (1, [(1, 1), (2, 3)], 1, 2)"

definition tables_ok :: "tables \<Rightarrow> bool" where
  "tables_ok t \<longleftrightarrow> (\<forall>oid. order_ok t oid)"

lemma tables_ok_empty [simp]: "tables_ok empty_tables"
  by (simp add: tables_ok_def order_ok_def row_counts_def count_defs)

lemma order_ok_cases [consumes 1, case_names absent waiting taken]:
  assumes "tables_ok t"
  obtains (absent) "n_orders t oid = 0" "hist t oid = []" "n_acceptances t oid = 0" "n_events t oid = 0"
  | (waiting) "n_orders t oid = 1" "hist t oid = [(1, 1)]" "n_acceptances t oid = 0" "n_events t oid = 1"
  | (taken) "n_orders t oid = 1" "hist t oid = [(1, 1), (2, 3)]" "n_acceptances t oid = 1"
      "n_events t oid = 2"
proof -
  from assms have "order_ok t oid"
    by (simp add: tables_ok_def)
  then show thesis
    unfolding order_ok_def row_counts_def prod.inject by (elim disjE conjE) (fact absent waiting taken)+
qed

text \<open>Rows are only appended.\<close>

definition extends :: "tables \<Rightarrow> tables \<Rightarrow> bool" where
  "extends t t' \<longleftrightarrow> (\<exists>d. t' = insert_rows d t)"

lemma extends_refl [simp]: "extends t t"
  unfolding extends_def by (metis insert_rows_empty)

lemma extends_trans: "extends t t' \<Longrightarrow> extends t' t'' \<Longrightarrow> extends t t''"
  unfolding extends_def
proof (elim exE)
  fix d d'
  assume "t' = insert_rows d t" "t'' = insert_rows d' t'"
  then have "t'' = insert_rows (insert_rows d' d) t"
    by (simp add: insert_rows_def)
  then show "\<exists>d. t'' = insert_rows d t" by blast
qed

lemma extends_insert [simp]: "extends t (insert_rows d t)"
  by (auto simp: extends_def)

lemma hist_insert: "hist (insert_rows d t) oid = hist t oid @ hist d oid"
  by (simp add: hist_def)

lemma counts_insert:
  "n_orders (insert_rows d t) oid = n_orders t oid + n_orders d oid"
  "n_acceptances (insert_rows d t) oid = n_acceptances t oid + n_acceptances d oid"
  "n_events (insert_rows d t) oid = n_events t oid + n_events d oid"
  by (simp_all add: count_defs)

lemma hist_extends: "extends t t' \<Longrightarrow> hist t oid \<noteq> [] \<Longrightarrow> hist t' oid \<noteq> []"
  by (auto simp: extends_def hist_insert)

section \<open>The guard of acceptedSQL\<close>

lemma has_status_hist: "has_status t oid s \<longleftrightarrow> s \<in> snd ` set (hist t oid)"
  by (auto simp: has_status_def hist_def list_ex_iff image_image rev_image_eqI)

lemma guard_hist [db_simps]: "tables_ok t \<Longrightarrow> guard t oid \<longleftrightarrow> hist t oid = [(1, 1)]"
  by (cases rule: order_ok_cases [of t oid]) (simp_all add: guard_def has_status_hist)

lemma next_sequence_hist:
  "next_sequence t oid = (case map fst (hist t oid) of [] \<Rightarrow> 0 | s # ss \<Rightarrow> fold max ss s) + 1"
  by (simp add: next_sequence_def hist_def comp_def)

section \<open>The two kinds of plans\<close>

definition request_delta :: "uuid \<Rightarrow> delta \<Rightarrow> bool" where
  "request_delta oid d \<longleftrightarrow> map r_id (orders d) = [oid]
     \<and> map (\<lambda>h. (h_order_id h, h_sequence h, h_status_id h)) (order_status_history d) = [(oid, 1, 1)]
     \<and> order_acceptances d = [] \<and> map x_aggregate_id (outbox_events d) = [oid]"

definition accept_delta :: "uuid \<Rightarrow> delta \<Rightarrow> bool" where
  "accept_delta oid d \<longleftrightarrow> orders d = []
     \<and> map (\<lambda>h. (h_order_id h, h_sequence h, h_status_id h)) (order_status_history d) = [(oid, 2, 3)]
     \<and> map a_order_id (order_acceptances d) = [oid] \<and> map x_aggregate_id (outbox_events d) = [oid]"

definition wf_delta :: "tables \<Rightarrow> delta \<Rightarrow> bool" where
  "wf_delta t d \<longleftrightarrow> d = empty_tables \<or> (\<exists>oid. request_delta oid d)
     \<or> (\<exists>oid. accept_delta oid d \<and> hist t oid \<noteq> [])"

lemma wf_delta_extends: "wf_delta t d \<Longrightarrow> extends t t' \<Longrightarrow> wf_delta t' d"
  unfolding wf_delta_def using hist_extends by blast

lemma request_delta_counts:
  assumes "request_delta oid d"
  shows "row_counts d o1 = (if o1 = oid then (1, [(1, 1)], 0, 1) else (0, [], 0, 0))"
  using assms by (auto simp: request_delta_def row_counts_def count_defs map_eq_Cons_conv)

lemma accept_delta_counts:
  assumes "accept_delta oid d"
  shows "row_counts d o1 = (if o1 = oid then (0, [(2, 3)], 1, 1) else (0, [], 0, 0))"
  using assms by (auto simp: accept_delta_def row_counts_def count_defs map_eq_Cons_conv)

lemma row_counts_insert:
  assumes "row_counts t oid = (a, b, c, e)" "row_counts d oid = (a', b', c', e')"
  shows "row_counts (insert_rows d t) oid = (a + a', b @ b', c + c', e + e')"
  using assms by (simp add: row_counts_def hist_insert counts_insert)

lemma row_counts_same:
  "row_counts d oid = (0, [], 0, 0) \<Longrightarrow> row_counts (insert_rows d t) oid = row_counts t oid"
  by (simp add: row_counts_def hist_insert counts_insert)

lemma list_ex_orders: "list_ex (\<lambda>r. r_id r = oid) (orders t) \<longleftrightarrow> n_orders t oid \<noteq> 0"
  by (simp add: n_orders_def filter_empty_conv list_ex_iff)

lemma list_ex_acceptances:
  "list_ex (\<lambda>a. a_order_id a = oid) (order_acceptances t) \<longleftrightarrow> n_acceptances t oid \<noteq> 0"
  by (simp add: n_acceptances_def filter_empty_conv list_ex_iff)

lemma sequence_hist:
  "list_ex (\<lambda>h. h_order_id h = oid \<and> h_sequence h = n) (order_status_history t)
     \<longleftrightarrow> n \<in> fst ` set (hist t oid)"
  by (auto simp: hist_def list_ex_iff image_image rev_image_eqI)

text \<open>Which constraints a plan violates, from the situation its order is in at the commit.\<close>

lemma violations_request:
  assumes "request_delta oid d"
  shows "violations d t = (if n_orders t oid = 0 then [] else [orders_pkey])
           @ (if 1 \<in> fst ` set (hist t oid) then [history_key] else [])"
  using assms
  by (clarsimp simp: request_delta_def map_eq_Cons_conv) (simp add: violations_def list_ex_orders sequence_hist)

lemma violations_accept:
  assumes "accept_delta oid d"
  shows "violations d t = (if 2 \<in> fst ` set (hist t oid) then [history_key] else [])
           @ (if n_acceptances t oid = 0 then [] else [acceptance_key])"
  using assms
  by (clarsimp simp: accept_delta_def map_eq_Cons_conv)
    (simp add: violations_def list_ex_acceptances sequence_hist)

lemma violations_empty [simp]: "violations empty_tables t = []"
  by (simp add: violations_def)

lemma violations_request_ok [db_simps]:
  assumes "tables_ok t" "request_delta oid d"
  shows "violations d t = (if hist t oid = [] then [] else [orders_pkey, history_key])"
  using assms(1) by (cases rule: order_ok_cases [of t oid]) (simp_all add: violations_request [OF assms(2)])

lemma violations_accept_ok [db_simps]:
  assumes "tables_ok t" "accept_delta oid d"
  shows "violations d t = (if length (hist t oid) < 2 then [] else [history_key, acceptance_key])"
  using assms(1) by (cases rule: order_ok_cases [of t oid]) (simp_all add: violations_accept [OF assms(2)])

text \<open>A commit that succeeds appends the rows, and well-formed rows keep the tables well formed.\<close>

lemma commit_Inr: "commit rt d t = Inr t' \<Longrightarrow> t' = insert_rows d t \<and> violations d t = []"
  by (auto simp: commit_def split: option.splits if_splits)

lemma commit_tables_ok [step_intros]:
  assumes ok: "tables_ok t" and wf: "wf_delta t d" and c: "commit rt d t = Inr t'"
  shows "tables_ok t'"
proof -
  have t': "t' = insert_rows d t" and nv: "violations d t = []"
    using commit_Inr [OF c] by simp_all
  from wf consider "d = empty_tables" | oid where "request_delta oid d"
    | oid where "accept_delta oid d" "hist t oid \<noteq> []"
    by (auto simp: wf_delta_def)
  then show ?thesis
  proof cases
    case 1
    then show ?thesis using ok t' by simp
  next
    case (2 oid)
    then have h: "hist t oid = []"
      using ok nv violations_request_ok by (metis list.distinct(1))
    have "row_counts t oid = (0, [], 0, 0)"
      using ok h by (cases rule: order_ok_cases [of t oid]) (auto simp: row_counts_def)
    then have "order_ok t' o1" for o1
      using ok t' request_delta_counts [OF 2, of o1]
      by (cases "o1 = oid") (auto simp: tables_ok_def order_ok_def row_counts_insert row_counts_same)
    then show ?thesis by (simp add: tables_ok_def)
  next
    case (3 oid)
    then have h: "length (hist t oid) < 2"
      using ok nv violations_accept_ok by (metis list.distinct(1))
    have "row_counts t oid = (1, [(1, 1)], 0, 1)"
      using ok 3(2) h by (cases rule: order_ok_cases [of t oid]) (auto simp: row_counts_def)
    then have "order_ok t' o1" for o1
      using ok t' accept_delta_counts [OF 3(1), of o1]
      by (cases "o1 = oid") (auto simp: tables_ok_def order_ok_def row_counts_insert row_counts_same)
    then show ?thesis by (simp add: tables_ok_def)
  qed
qed

section \<open>Statements\<close>

text \<open>
  The contract of a statement of this service: on well-formed tables, and whatever its arguments,
  its plan is well formed.
\<close>

locale statement =
  fixes plan_of :: "runtime \<Rightarrow> int \<Rightarrow> sql_arg list \<Rightarrow> tables \<Rightarrow> pg_error + delta"
  assumes plan_wf: "tables_ok t \<Longrightarrow> plan_of rt now args t = Inr d \<Longrightarrow> wf_delta t d"
begin

text \<open>Committing a plan made earlier, on tables that have grown since, keeps them well formed.\<close>

lemma commit_later:
  assumes "tables_ok t" "plan_of rt now args t = Inr d" "extends t t1" "tables_ok t1"
    and "commit rt' d t1 = Inr t2"
  shows "tables_ok t2 \<and> extends t1 t2"
proof -
  have "wf_delta t1 d"
    using plan_wf [OF assms(1,2)] assms(3) by (rule wf_delta_extends)
  then show ?thesis
    using assms(4,5) commit_tables_ok commit_Inr extends_insert by metis
qed

lemma commit_now:
  assumes "tables_ok t" "plan_of rt now args t = Inr d" "commit rt' d t = Inr t'"
  shows "tables_ok t' \<and> extends t t'"
  using commit_later [OF assms(1,2) extends_refl assms(1,3)] .

end

lemma requested_plan_delta:
  assumes "requested_plan rt now args = Inr d"
  shows "\<exists>oid. request_delta oid d"
  using assms
  by (auto simp: requested_plan_def request_delta_def split: list.splits sql_arg.splits option.splits)

lemma accepted_plan_delta:
  assumes "tables_ok t" "accepted_plan rt args t = Inr d"
  shows "d = empty_tables \<or> (\<exists>oid. accept_delta oid d \<and> guard t oid)"
  using assms
  by (auto simp: accepted_plan_def accept_delta_def guard_hist next_sequence_hist
      split: list.splits sql_arg.splits option.splits if_splits)

interpretation requested: statement "\<lambda>rt now args t. requested_plan rt now args"
  by unfold_locales (auto simp: wf_delta_def dest: requested_plan_delta)

interpretation accepted: statement "\<lambda>rt now args t. accepted_plan rt args t"
proof
  fix t rt args d
  assume "tables_ok t" "accepted_plan rt args t = Inr d"
  then consider "d = empty_tables" | oid where "accept_delta oid d" "guard t oid"
    using accepted_plan_delta by blast
  then show "wf_delta t d"
    using \<open>tables_ok t\<close> by cases (auto simp: wf_delta_def guard_hist)
qed

lemma plan_wf: "tables_ok t \<Longrightarrow> plan rt now stmt args t = Inr d \<Longrightarrow> wf_delta t d"
  by (cases stmt) (auto simp: plan_def intro: requested.plan_wf accepted.plan_wf)

interpretation any: statement "\<lambda>rt now args t. plan rt now stmt args t" for stmt
  by unfold_locales (rule plan_wf)

text \<open>Executing a statement keeps the tables well formed and only appends.\<close>

lemma pg_execute_ok [step_intros]:
  assumes "tables_ok (db w)" "pg_execute rt stmt args w = (r, w')"
  shows "tables_ok (db w') \<and> extends (db w) (db w')"
  using assms any.commit_now [OF assms(1)]
  by (auto simp: pg_execute_def split: sum.splits)

end
