(* ===== verification/Rides.thy ===== *)
theory Rides
  imports Lifecycle "HOL-Library.Option_ord"
begin

text \<open>
  The abstract specification of the order tables: a map from order ids to rides, a ride waiting for a
  driver or taken by one. \<open>abs_tables\<close> reads it off the tables; the statements refine \<open>spec_request\<close>
  and \<open>spec_accept\<close>, and the view query reads the ride.
\<close>

section \<open>Rides\<close>

datatype ride = Waiting (rider: uuid) | Taken (rider: uuid) (driver: uuid)

type_synonym rides = "uuid \<rightharpoonup> ride"

fun ride_status :: "ride \<Rightarrow> string" where
  "ride_status (Waiting r) = ''requested''"
| "ride_status (Taken r d) = ''accepted''"

definition spec_request :: "uuid \<Rightarrow> uuid \<Rightarrow> rides \<Rightarrow> rides option" where
  "spec_request oid r m = (case m oid of None \<Rightarrow> Some (m(oid \<mapsto> Waiting r)) | Some _ \<Rightarrow> None)"

definition spec_accept :: "uuid \<Rightarrow> uuid \<Rightarrow> rides \<Rightarrow> rides option" where
  "spec_accept oid d m =
     (case m oid of Some (Waiting r) \<Rightarrow> Some (m(oid \<mapsto> Taken r d)) | _ \<Rightarrow> None)"

text \<open>
  Rides only advance: a ride that waits may be taken, and nothing else changes of it. On options and maps
  the library lifts the order: an absent ride is below every ride, and a map is below another where
  each of its rides is.
\<close>

instantiation ride :: order
begin

fun less_eq_ride :: "ride \<Rightarrow> ride \<Rightarrow> bool" where
  "less_eq_ride (Waiting r) rd = (rider rd = r)"
| "less_eq_ride (Taken r d) rd = (rd = Taken r d)"

definition less_ride :: "ride \<Rightarrow> ride \<Rightarrow> bool" where
  "less_ride rd rd' \<longleftrightarrow> rd \<le> rd' \<and> \<not> rd' \<le> rd"

instance
proof
  fix x y z :: ride
  show "x < y \<longleftrightarrow> x \<le> y \<and> \<not> y \<le> x" by (rule less_ride_def)
  show "x \<le> x" by (cases x) simp_all
  show "x \<le> y \<Longrightarrow> y \<le> z \<Longrightarrow> x \<le> z" by (cases x; cases y) auto
  show "x \<le> y \<Longrightarrow> y \<le> x \<Longrightarrow> x = y" by (cases x; cases y) auto
qed

end

lemma ride_le_iff: "rd \<le> rd' \<longleftrightarrow> rider rd' = rider rd \<and> (\<forall>r d. rd = Taken r d \<longrightarrow> rd' = rd)"
  by (cases rd) auto

lemma rides_le_iff:
  "(m :: rides) \<le> m' \<longleftrightarrow> (\<forall>oid rd. m oid = Some rd \<longrightarrow> (\<exists>rd'. m' oid = Some rd' \<and> rd \<le> rd'))"
proof
  show "\<forall>oid rd. m oid = Some rd \<longrightarrow> (\<exists>rd'. m' oid = Some rd' \<and> rd \<le> rd')" if "m \<le> m'"
  proof (intro allI impI)
    fix oid rd
    assume "m oid = Some rd"
    then show "\<exists>rd'. m' oid = Some rd' \<and> rd \<le> rd'"
      using le_funD [OF that, of oid] by (cases "m' oid") auto
  qed
  show "m \<le> m'" if "\<forall>oid rd. m oid = Some rd \<longrightarrow> (\<exists>rd'. m' oid = Some rd' \<and> rd \<le> rd')"
  proof (rule le_funI)
    fix oid
    show "m oid \<le> m' oid" using that by (cases "m oid") fastforce+
  qed
qed

lemma spec_grows:
  "spec_request oid r m = Some m' \<Longrightarrow> m \<le> m'"
  "spec_accept oid d m = Some m' \<Longrightarrow> m \<le> m'"
  by (auto simp: rides_le_iff ride_le_iff spec_request_def spec_accept_def split: option.splits ride.splits)

lemma spec_accept_once: "spec_accept oid d m = Some m' \<Longrightarrow> spec_accept oid d' m' = None"
  by (auto simp: spec_accept_def split: option.splits ride.splits)

definition abs_tables :: "tables \<Rightarrow> rides" where
  "abs_tables t oid =
     (case find (\<lambda>r. r_id r = oid) (orders t) of
        None \<Rightarrow> None
      | Some r \<Rightarrow>
          (case find (\<lambda>a. a_order_id a = oid) (order_acceptances t) of
             None \<Rightarrow> Some (Waiting (r_rider_id r))
           | Some a \<Rightarrow> Some (Taken (r_rider_id r) (a_driver_id a))))"

lemma find_append:
  "find P (xs @ ys) = (case find P xs of None \<Rightarrow> find P ys | Some x \<Rightarrow> Some x)"
  by (induction xs) auto

lemma find_orders_None: "find (\<lambda>r. r_id r = oid) (orders t) = None \<longleftrightarrow> n_orders t oid = 0"
  by (auto simp: find_None_iff n_orders_def filter_empty_conv)

lemma find_acceptances_None:
  "find (\<lambda>a. a_order_id a = oid) (order_acceptances t) = None \<longleftrightarrow> n_acceptances t oid = 0"
  by (auto simp: find_None_iff n_acceptances_def filter_empty_conv)

lemmas find_None_counts = find_orders_None find_acceptances_None

lemma abs_tables_None: "abs_tables t oid = None \<longleftrightarrow> n_orders t oid = 0"
  by (auto simp: abs_tables_def simp flip: find_orders_None split: option.splits)

text \<open>In well-formed tables the history and the ride of an order say the same.\<close>

lemma abs_tables_hist:
  assumes "tables_ok t"
  shows "abs_tables t oid = None \<longleftrightarrow> hist t oid = []"
    and "(\<exists>r. abs_tables t oid = Some (Waiting r)) \<longleftrightarrow> hist t oid = [(1, 1)]"
    and "(\<exists>r d. abs_tables t oid = Some (Taken r d)) \<longleftrightarrow> hist t oid = [(1, 1), (2, 3)]"
proof -
  have *: "n_orders t oid \<noteq> 0 \<Longrightarrow> n_acceptances t oid = 0 \<Longrightarrow> \<exists>r. abs_tables t oid = Some (Waiting r)"
    "n_orders t oid \<noteq> 0 \<Longrightarrow> n_acceptances t oid \<noteq> 0 \<Longrightarrow> \<exists>r d. abs_tables t oid = Some (Taken r d)"
    unfolding find_None_counts [symmetric] by (auto simp: abs_tables_def)
  show "abs_tables t oid = None \<longleftrightarrow> hist t oid = []"
    and "(\<exists>r. abs_tables t oid = Some (Waiting r)) \<longleftrightarrow> hist t oid = [(1, 1)]"
    and "(\<exists>r d. abs_tables t oid = Some (Taken r d)) \<longleftrightarrow> hist t oid = [(1, 1), (2, 3)]"
    using assms abs_tables_None [of t oid] *
    by (cases rule: order_ok_cases [of t oid]; force)+
qed

lemma guard_abs [db_simps]:
  "tables_ok t \<Longrightarrow> guard t oid \<longleftrightarrow> (\<exists>r. abs_tables t oid = Some (Waiting r))"
  by (simp add: guard_hist abs_tables_hist(2))

section \<open>The statements refine the specification\<close>

lemma abs_tables_insert_other:
  assumes "n_orders d oid = 0" "n_acceptances d oid = 0"
  shows "abs_tables (insert_rows d t) oid = abs_tables t oid"
  using assms unfolding find_None_counts [symmetric]
  by (simp add: abs_tables_def find_append split: option.splits)

lemma request_delta_other:
  "request_delta oid d \<Longrightarrow> o1 \<noteq> oid \<Longrightarrow> n_orders d o1 = 0 \<and> n_acceptances d o1 = 0"
  using request_delta_counts [of oid d o1] by (simp add: row_counts_def)

lemma accept_delta_other:
  "accept_delta oid d \<Longrightarrow> o1 \<noteq> oid \<Longrightarrow> n_orders d o1 = 0 \<and> n_acceptances d o1 = 0"
  using accept_delta_counts [of oid d o1] by (simp add: row_counts_def)

definition delta_rider :: "delta \<Rightarrow> uuid" where
  "delta_rider d = (case orders d of [] \<Rightarrow> 0 | r # _ \<Rightarrow> r_rider_id r)"

definition delta_driver :: "delta \<Rightarrow> uuid" where
  "delta_driver d = (case order_acceptances d of [] \<Rightarrow> 0 | a # _ \<Rightarrow> a_driver_id a)"

lemma abs_tables_request:
  assumes "tables_ok t" "request_delta oid d" "abs_tables t oid = None"
  shows "abs_tables (insert_rows d t) = (abs_tables t)(oid \<mapsto> Waiting (delta_rider d))"
proof
  fix o1
  show "abs_tables (insert_rows d t) o1 = ((abs_tables t)(oid \<mapsto> Waiting (delta_rider d))) o1"
  proof (cases "o1 = oid")
    case True
    have n: "n_orders t oid = 0"
      using assms(3) by (simp add: abs_tables_None)
    have "n_acceptances t oid = 0"
      using assms(1) n by (cases rule: order_ok_cases [of t oid]) auto
    with n True assms(2) show ?thesis
      unfolding find_None_counts [symmetric]
      by (auto simp: abs_tables_def find_append request_delta_def delta_rider_def map_eq_Cons_conv)
  next
    case False
    then show ?thesis
      using request_delta_other [OF assms(2)] by (simp add: abs_tables_insert_other)
  qed
qed

lemma abs_tables_accept:
  assumes "tables_ok t" "accept_delta oid d" "abs_tables t oid = Some (Waiting r)"
  shows "abs_tables (insert_rows d t) = (abs_tables t)(oid \<mapsto> Taken r (delta_driver d))"
proof
  fix o1
  show "abs_tables (insert_rows d t) o1 = ((abs_tables t)(oid \<mapsto> Taken r (delta_driver d))) o1"
  proof (cases "o1 = oid")
    case True
    with assms(2,3) show ?thesis
      by (auto simp: abs_tables_def find_append accept_delta_def delta_driver_def map_eq_Cons_conv
          split: option.splits)
  next
    case False
    then show ?thesis
      using accept_delta_other [OF assms(2)] by (simp add: abs_tables_insert_other)
  qed
qed

lemma hist_of_abs:
  assumes "tables_ok t"
  shows "abs_tables t oid = Some (Waiting r) \<Longrightarrow> hist t oid = [(1, 1)]"
    and "abs_tables t oid = Some (Taken r d) \<Longrightarrow> hist t oid = [(1, 1), (2, 3)]"
    and "abs_tables t oid = None \<Longrightarrow> hist t oid = []"
  using abs_tables_hist [OF assms, of oid] by blast+

text \<open>Committing a request succeeds exactly where the specification allows it, with its result.\<close>

lemma commit_request_refines:
  assumes "tables_ok t" "refuse rt t d = None" "request_delta oid d"
  shows "(case commit rt d t of Inl _ \<Rightarrow> None | Inr t' \<Rightarrow> Some (abs_tables t'))
           = spec_request oid (delta_rider d) (abs_tables t)"
proof (cases "abs_tables t oid")
  case None
  then show ?thesis
    using assms hist_of_abs(3) [OF assms(1) None]
    by (simp add: commit_def violations_request_ok spec_request_def abs_tables_request)
next
  case (Some rd)
  then have "hist t oid \<noteq> []"
    using abs_tables_hist(1) [OF assms(1), of oid] by simp
  then show ?thesis
    using assms Some by (simp add: commit_def violations_request_ok spec_request_def)
qed

text \<open>
  An acceptance planned and committed without another statement in between always commits: what the
  specification does, or nothing, and the affected rows say which.
\<close>

definition parsed_accept :: "runtime \<Rightarrow> sql_arg list \<Rightarrow> (uuid \<times> uuid) option" where
  "parsed_accept rt args =
     (case args of
        [AText a1, AText a2, AText a3, AText a4, AText a5, ABytes a6, AText a7] \<Rightarrow>
          (case (pg_uuid rt a1, pg_uuid rt a2, pg_uuid rt a3, pg_uuid rt a4, pg_uuid rt a5, pg_jsonb a6) of
             (Some u1, Some u2, Some u3, Some u4, Some u5, Some j6) \<Rightarrow> Some (u2, u3)
           | _ \<Rightarrow> None)
      | _ \<Rightarrow> None)"

lemma parsed_acceptE:
  assumes "parsed_accept rt args = Some (oid, drv)"
  obtains a1 a2 a3 a4 a5 a6 a7 u1 u4 u5 j6 where
    "args = [AText a1, AText a2, AText a3, AText a4, AText a5, ABytes a6, AText a7]"
    "pg_uuid rt a1 = Some u1" "pg_uuid rt a2 = Some oid" "pg_uuid rt a3 = Some drv"
    "pg_uuid rt a4 = Some u4" "pg_uuid rt a5 = Some u5" "pg_jsonb a6 = Some j6"
  using assms by (auto simp: parsed_accept_def split: list.splits sql_arg.splits option.splits)

lemma accepted_plan_parsed:
  assumes "tables_ok t" "parsed_accept rt args = Some (oid, drv)"
  obtains d where "accepted_plan rt args t = Inr d"
    "guard t oid \<Longrightarrow> accept_delta oid d \<and> delta_driver d = drv" "\<not> guard t oid \<Longrightarrow> d = empty_tables"
  using assms(2)
proof (cases rule: parsed_acceptE)
  case (1 a1 a2 a3 a4 a5 a6 a7 u1 u4 u5 j6)
  show thesis
  proof (cases "guard t oid")
    case True
    then have "next_sequence t oid = 2"
      using assms(1) by (simp add: guard_hist next_sequence_hist)
    with 1 True show thesis
      by (intro that [of "projr (accepted_plan rt args t)"])
        (simp_all add: accepted_plan_def accept_delta_def delta_driver_def)
  next
    case False
    with 1 show thesis
      by (intro that [of empty_tables]) (simp_all add: accepted_plan_def)
  qed
qed

lemma accept_refines:
  assumes ok: "tables_ok t" and rf: "\<And>d. refuse rt t d = None"
    and p: "parsed_accept rt args = Some (oid, drv)"
  obtains d t' where "accepted_plan rt args t = Inr d" "commit rt d t = Inr t'"
    "abs_tables t' = (case spec_accept oid drv (abs_tables t) of None \<Rightarrow> abs_tables t | Some m \<Rightarrow> m)"
    "length (outbox_events d) = (if spec_accept oid drv (abs_tables t) = None then 0 else 1)"
    "guard t oid \<Longrightarrow> accept_delta oid d" "\<not> guard t oid \<Longrightarrow> t' = t"
proof -
  obtain d where d: "accepted_plan rt args t = Inr d"
    "guard t oid \<Longrightarrow> accept_delta oid d \<and> delta_driver d = drv" "\<not> guard t oid \<Longrightarrow> d = empty_tables"
    using accepted_plan_parsed [OF ok p] by blast
  show thesis
  proof (cases "guard t oid")
    case True
    then obtain r where r: "abs_tables t oid = Some (Waiting r)"
      using guard_abs [OF ok] by blast
    have a: "accept_delta oid d" "delta_driver d = drv"
      using d(2) [OF True] by simp_all
    have "violations d t = []"
      using violations_accept_ok [OF ok a(1)] hist_of_abs(1) [OF ok r] by simp
    then have "commit rt d t = Inr (insert_rows d t)"
      by (simp add: commit_def rf)
    moreover have "length (outbox_events d) = 1"
      using a(1) by (auto simp: accept_delta_def map_eq_Cons_conv)
    ultimately show thesis
      using that [OF d(1)] a r True abs_tables_accept [OF ok a(1) r] by (simp add: spec_accept_def)
  next
    case False
    then have "spec_accept oid drv (abs_tables t) = None"
      using guard_abs [OF ok] by (auto simp: spec_accept_def split: option.splits ride.splits)
    moreover have "commit rt d t = Inr t"
      using d(3) [OF False] by (simp add: commit_def rf)
    ultimately show thesis
      using that [OF d(1)] d(3) [OF False] False by simp
  qed
qed

section \<open>The view reads the ride\<close>

lemma select_view_None:
  assumes "tables_ok t" "runtime_ok rt"
  shows "select_view rt t oid = None \<longleftrightarrow> abs_tables t oid = None"
  using assms(1)
proof (cases rule: order_ok_cases [of t oid])
  case absent
  then have "find (\<lambda>r. r_id r = oid) (orders t) = None"
    by (simp add: find_orders_None)
  with absent show ?thesis
    by (simp add: select_view_def abs_tables_None)
next
  case waiting
  then show ?thesis
    unfolding abs_tables_None using runtime_okD(3) [OF assms(2)]
    by (auto simp: select_view_def hist_def map_eq_Cons_conv find_orders_None split: option.splits)
next
  case taken
  then show ?thesis
    unfolding abs_tables_None using runtime_okD(4) [OF assms(2)]
    by (auto simp: select_view_def hist_def map_eq_Cons_conv find_orders_None split: option.splits)
qed

lemma select_view_ride:
  assumes ok: "tables_ok t" and rt: "runtime_ok rt" and v: "select_view rt t oid = Some v"
  obtains rd where "abs_tables t oid = Some rd" "view_ID v = uuid_string oid"
    "view_RiderID v = uuid_string (rider rd)" "view_Status v = ride_status rd"
proof -
  obtain r h where r: "find (\<lambda>r. r_id r = oid) (orders t) = Some r"
    and h: "latest (filter (\<lambda>h. h_order_id h = oid) (order_status_history t)) = Some h"
    and s: "status_code rt (h_status_id h) = Some (view_Status v)"
    and f: "view_ID v = uuid_string (r_id r)" "view_RiderID v = uuid_string (r_rider_id r)"
    using v by (auto simp: select_view_def split: option.splits)
  have id: "r_id r = oid"
    using r by (auto simp: find_Some_iff)
  from ok show thesis
  proof (cases rule: order_ok_cases [of t oid])
    case absent
    then show ?thesis using r by (simp flip: find_orders_None)
  next
    case waiting
    then have "h_status_id h = 1"
      using h by (auto simp: hist_def map_eq_Cons_conv)
    moreover have "find (\<lambda>a. a_order_id a = oid) (order_acceptances t) = None"
      using waiting by (simp add: find_acceptances_None)
    ultimately show ?thesis
      using that [of "Waiting (r_rider_id r)"] r f id s runtime_okD(3) [OF rt]
      by (simp add: abs_tables_def)
  next
    case taken
    then have "h_status_id h = 3"
      using h by (auto simp: hist_def map_eq_Cons_conv)
    moreover obtain a where "find (\<lambda>a. a_order_id a = oid) (order_acceptances t) = Some a"
      using taken find_acceptances_None [of oid t] by fastforce
    ultimately show ?thesis
      using that [of "Taken (r_rider_id r) (a_driver_id a)"] r f id s runtime_okD(4) [OF rt]
      by (simp add: abs_tables_def)
  qed
qed

section \<open>The statements, executed\<close>

text \<open>What a statement does to the tables, by its arguments, as long as the server refuses nothing of its own.\<close>

lemma requested_executes:
  fixes a10 :: string and a3 a4 a5 a6 :: float64
  assumes rt: "runtime_ok rt" "\<And>d. refuse rt (db w) d = None" and ok: "tables_ok (db w)"
    and p: "pg_uuid rt a1 = Some oid" "pg_uuid rt a2 = Some r" "pg_uuid rt a7 = Some h" "pg_uuid rt a8 = Some x"
      "pg_jsonb a9 = Some j"
  defines "row \<equiv> \<lparr>x_id = x, x_aggregate_type = ''order'', x_aggregate_id = oid, x_event_type = a10,
      x_event_version = 1, x_payload = j\<rparr>"
    and "args \<equiv> [AText a1, AText a2, AFloat a3, AFloat a4, AFloat a5, AFloat a6, AText a7, AText a8, ABytes a9, AText a10]"
  shows "abs_tables (db w) oid = None \<Longrightarrow>
      \<exists>t. pg_execute rt requestedSQL args w = (Inr 1, w\<lparr>db := t\<rparr>) \<and> tables_ok t
        \<and> spec_request oid r (abs_tables (db w)) = Some (abs_tables t)
        \<and> outbox_events t = outbox_events (db w) @ [row]
        \<and> select_view rt t oid = Some \<lparr>view_ID = uuid_string oid, view_RiderID = uuid_string r,
            view_PickupLatitude = a3, view_PickupLongitude = a4, view_DestinationLatitude = a5,
            view_DestinationLongitude = a6, view_Status = ''requested'', view_CreatedAt = clock w\<rparr>"
    and "abs_tables (db w) oid \<noteq> None \<Longrightarrow>
      \<exists>c \<in> {orders_pkey, history_key}. pg_execute rt requestedSQL args w = (Inl (lift_pg rt (unique_violation c)), w)
        \<and> spec_request oid r (abs_tables (db w)) = None"
proof -
  define d where "d = projr (requested_plan rt (clock w) args)"
  have d: "requested_plan rt (clock w) args = Inr d" "outbox_events d = [row]" "request_delta oid d" "delta_rider d = r"
    using p by (simp_all add: d_def args_def row_def requested_plan_def request_delta_def delta_rider_def)
  show "\<exists>t. pg_execute rt requestedSQL args w = (Inr 1, w\<lparr>db := t\<rparr>) \<and> tables_ok t
        \<and> spec_request oid r (abs_tables (db w)) = Some (abs_tables t)
        \<and> outbox_events t = outbox_events (db w) @ [row]
        \<and> select_view rt t oid = Some \<lparr>view_ID = uuid_string oid, view_RiderID = uuid_string r,
            view_PickupLatitude = a3, view_PickupLongitude = a4, view_DestinationLatitude = a5,
            view_DestinationLongitude = a6, view_Status = ''requested'', view_CreatedAt = clock w\<rparr>"
    if n: "abs_tables (db w) oid = None"
  proof (intro exI [of _ "insert_rows d (db w)"] conjI)
    have h: "hist (db w) oid = []" using hist_of_abs(3) [OF ok n] .
    have c: "commit rt d (db w) = Inr (insert_rows d (db w))"
      using h ok d(3) by (simp add: commit_def rt(2) violations_request_ok)
    show "pg_execute rt requestedSQL args w = (Inr 1, w\<lparr>db := insert_rows d (db w)\<rparr>)"
      using d(1,2) c by (simp add: pg_execute_def plan_def)
    show "tables_ok (insert_rows d (db w))"
      using commit_tables_ok [OF ok _ c] d(3) by (auto simp: wf_delta_def)
    show "spec_request oid r (abs_tables (db w)) = Some (abs_tables (insert_rows d (db w)))"
      using abs_tables_request [OF ok d(3) n] d(4) n by (simp add: spec_request_def)
    show "outbox_events (insert_rows d (db w)) = outbox_events (db w) @ [row]"
      using d(2) by simp
    have "find (\<lambda>r. r_id r = oid) (orders (db w)) = None"
      using n by (simp add: find_orders_None abs_tables_None)
    moreover have "filter (\<lambda>h. h_order_id h = oid) (order_status_history (db w)) = []"
      using h by (simp add: hist_def)
    ultimately show "select_view rt (insert_rows d (db w)) oid = Some \<lparr>view_ID = uuid_string oid, view_RiderID = uuid_string r,
            view_PickupLatitude = a3, view_PickupLongitude = a4, view_DestinationLatitude = a5,
            view_DestinationLongitude = a6, view_Status = ''requested'', view_CreatedAt = clock w\<rparr>"
      using p runtime_okD(3) [OF rt(1)]
      by (simp add: select_view_def find_append d_def args_def requested_plan_def)
  qed
  assume o: "abs_tables (db w) oid \<noteq> None"
  then have v: "violations d (db w) = [orders_pkey, history_key]"
    using violations_request_ok [OF ok d(3)] abs_tables_hist(1) [OF ok] by simp
  then show "\<exists>c \<in> {orders_pkey, history_key}. pg_execute rt requestedSQL args w = (Inl (lift_pg rt (unique_violation c)), w)
        \<and> spec_request oid r (abs_tables (db w)) = None"
    using d(1) o runtime_okD(5) [OF rt(1), of "[orders_pkey, history_key]"]
    by (intro bexI [of _ "reported rt [orders_pkey, history_key]"])
      (auto simp: pg_execute_def plan_def commit_def rt(2) spec_request_def)
qed

lemma accepted_executes:
  fixes a7 :: string
  assumes rt: "runtime_ok rt" "\<And>d. refuse rt (db w) d = None" and ok: "tables_ok (db w)"
    and p: "pg_uuid rt a1 = Some a" "pg_uuid rt a2 = Some oid" "pg_uuid rt a3 = Some drv" "pg_uuid rt a4 = Some h"
      "pg_uuid rt a5 = Some x" "pg_jsonb a6 = Some j"
  defines "row \<equiv> \<lparr>x_id = x, x_aggregate_type = ''order'', x_aggregate_id = oid, x_event_type = a7,
      x_event_version = 1, x_payload = j\<rparr>"
    and "args \<equiv> [AText a1, AText a2, AText a3, AText a4, AText a5, ABytes a6, AText a7]"
  shows "abs_tables (db w) oid = Some (Waiting r) \<Longrightarrow>
      \<exists>t v. pg_execute rt acceptedSQL args w = (Inr 1, w\<lparr>db := t\<rparr>) \<and> tables_ok t
        \<and> spec_accept oid drv (abs_tables (db w)) = Some (abs_tables t)
        \<and> outbox_events t = outbox_events (db w) @ [row]
        \<and> select_view rt (db w) oid = Some v \<and> select_view rt t oid = Some (v\<lparr>view_Status := ''accepted''\<rparr>)"
    and "\<forall>r. abs_tables (db w) oid \<noteq> Some (Waiting r) \<Longrightarrow>
      pg_execute rt acceptedSQL args w = (Inr 0, w) \<and> spec_accept oid drv (abs_tables (db w)) = None"
proof -
  have pa: "parsed_accept rt args = Some (oid, drv)"
    using p by (simp add: parsed_accept_def args_def)
  obtain d t where d: "accepted_plan rt args (db w) = Inr d" "commit rt d (db w) = Inr t"
    "abs_tables t = (case spec_accept oid drv (abs_tables (db w)) of None \<Rightarrow> abs_tables (db w) | Some m \<Rightarrow> m)"
    "guard (db w) oid \<Longrightarrow> accept_delta oid d" "\<not> guard (db w) oid \<Longrightarrow> t = db w"
    by (rule accept_refines [OF ok rt(2) pa]) (rule that, assumption+)
  have g: "guard (db w) oid \<longleftrightarrow> (\<exists>r. abs_tables (db w) oid = Some (Waiting r))"
    by (rule guard_abs [OF ok])
  show "pg_execute rt acceptedSQL args w = (Inr 0, w) \<and> spec_accept oid drv (abs_tables (db w)) = None"
    if n: "\<forall>r. abs_tables (db w) oid \<noteq> Some (Waiting r)"
  proof -
    have "d = empty_tables" "t = db w"
      using d(1,5) g n p by (auto simp: accepted_plan_def args_def)
    then show ?thesis
      using d(1,2) n by (auto simp: pg_execute_def plan_def spec_accept_def empty_tables_def split: option.split ride.split)
  qed
  assume r: "abs_tables (db w) oid = Some (Waiting r)"
  have h: "hist (db w) oid = [(1, 1)]" using hist_of_abs(1) [OF ok r] .
  have gd: "guard (db w) oid" using g r by blast
  have de: "d = \<lparr>orders = [], order_status_history = [\<lparr>h_id = h, h_order_id = oid, h_sequence = 2, h_status_id = 3\<rparr>],
      order_acceptances = [\<lparr>a_id = a, a_order_id = oid, a_driver_id = drv\<rparr>], outbox_events = [row]\<rparr>"
    using d(1) gd p next_sequence_hist [of "db w" oid] h by (simp add: accepted_plan_def args_def row_def)
  have t: "t = insert_rows d (db w)" using commit_Inr [OF d(2)] by simp
  obtain v where v: "select_view rt (db w) oid = Some v"
    using select_view_None [OF ok rt(1), of oid] r by auto
  obtain q where q: "find (\<lambda>r. r_id r = oid) (orders (db w)) = Some q"
    using r by (auto simp: abs_tables_def split: option.splits)
  obtain s where s: "filter (\<lambda>h. h_order_id h = oid) (order_status_history (db w)) = [s]" "h_sequence s = 1" "h_status_id s = 1"
    using h by (auto simp: hist_def map_eq_Cons_conv)
  have "select_view rt t oid = Some (v\<lparr>view_Status := ''accepted''\<rparr>)"
    using v q s runtime_okD(3,4) [OF rt(1)] by (auto simp: t de select_view_def find_append)
  moreover have "tables_ok t"
    using commit_tables_ok [OF ok _ d(2)] d(4) [OF gd] h unfolding wf_delta_def by (metis list.distinct(1))
  moreover have "spec_accept oid drv (abs_tables (db w)) = Some (abs_tables t)"
    using d(3) r by (simp add: spec_accept_def)
  ultimately show "\<exists>t v. pg_execute rt acceptedSQL args w = (Inr 1, w\<lparr>db := t\<rparr>) \<and> tables_ok t
        \<and> spec_accept oid drv (abs_tables (db w)) = Some (abs_tables t)
        \<and> outbox_events t = outbox_events (db w) @ [row]
        \<and> select_view rt (db w) oid = Some v \<and> select_view rt t oid = Some (v\<lparr>view_Status := ''accepted''\<rparr>)"
    using d(1,2) v by (intro exI [of _ t] exI [of _ v]) (simp add: pg_execute_def plan_def t de)
qed

end
