(* ===== verification/Cache.thy ===== *)
theory Cache
  imports Rides
begin

text \<open>
  The read-through cache of order views (\<open>viewCache\<close> of \<open>internal/orders/service.go\<close>) as an interface,
  and two implementations of it: the \<open>memoryCache\<close> of \<open>internal/orders/service_test.go\<close>, which keeps its entries,
  and \<open>expiring_cache\<close>, which gives them the time to live they were stored with.

  The production cache, \<open>cache.HybridCache\<close>, is third-party code. What the service relies on of any
  cache is the locale \<open>view_cache\<close>: a hit answers without running the factory, a miss runs it and may
  store what it returned, an error is returned with its text and stores nothing. The error itself
  may be lost (a single-flight hands on the text). \<open>keeps_ttl\<close> is what it promises of the time to live.
\<close>

type_synonym view_cache = "string \<Rightarrow> OrderView act \<Rightarrow> int \<Rightarrow> OrderView act"

definition memory_cache :: view_cache where
  "memory_cache key factory ttl w =
     (case map_of (cached w) key of
        Some v \<Rightarrow> (Inr v, w)
      | None \<Rightarrow>
          (case factory w of
             (Inl err, w') \<Rightarrow> (Inl (errorf (err_text err)), w')
           | (Inr v, w') \<Rightarrow> (Inr v, w'\<lparr>cached := (key, v) # cached w'\<rparr>)))"

text \<open>
  What a call of \<open>GetOrSetContext\<close> can do. It finds an entry, or it runs the factory once and stores what
  it returned. Entries may be dropped at any time (they expire, memory is short), and what was loaded may
  fail to be stored.
\<close>

definition cache_hit :: "string \<Rightarrow> world \<Rightarrow> go_error + OrderView \<Rightarrow> world \<Rightarrow> bool" where
  "cache_hit key w r w2 \<longleftrightarrow>
     (\<exists>e v. map_of e \<subseteq>\<^sub>m map_of (cached w) \<and> map_of e key = Some v \<and> r = Inr v \<and> w2 = w\<lparr>cached := e\<rparr>)"

definition cache_load ::
    "string \<Rightarrow> OrderView act \<Rightarrow> (world \<Rightarrow> string \<Rightarrow> int) \<Rightarrow> world \<Rightarrow> go_error + OrderView \<Rightarrow> world \<Rightarrow> bool" where
  "cache_load key factory until w r w2 \<longleftrightarrow>
     (\<exists>e r1 w1. map_of e \<subseteq>\<^sub>m map_of (cached w) \<and> factory (w\<lparr>cached := e\<rparr>) = (r1, w1) \<and>
        (case r1 of
           Inr v \<Rightarrow> r = Inr v \<and> (\<exists>e'. w2 = w1\<lparr>cached := e', cached_until := until w1\<rparr>
             \<and> map_of e' \<subseteq>\<^sub>m (map_of (cached w1))(key \<mapsto> v))
         | Inl err \<Rightarrow> (r = Inl err \<or> r = Inl (errorf (err_text err)))
             \<and> (\<exists>e'. w2 = w1\<lparr>cached := e'\<rparr> \<and> map_of e' \<subseteq>\<^sub>m map_of (cached w1))))"

lemma map_le_Some: "m \<subseteq>\<^sub>m m' \<Longrightarrow> m k = Some v \<Longrightarrow> m' k = Some v"
  unfolding map_le_def by (metis domI)

text \<open>What a load gives, for a factory that only reads and does not look at the cache.\<close>

lemma load_cases:
  assumes "cache_load key factory until w r w2"
    and reads: "\<And>e. factory (w\<lparr>cached := e\<rparr>) = (fst (factory w), w\<lparr>cached := e\<rparr>)"
  obtains (filled) v e e0 where "fst (factory w) = Inr v" "r = Inr v"
      "w2 = w\<lparr>cached := e, cached_until := until (w\<lparr>cached := e0\<rparr>)\<rparr>"
      "map_of e \<subseteq>\<^sub>m (map_of (cached w))(key \<mapsto> v)"
  | (failed) err err' e where "fst (factory w) = Inl err" "r = Inl err'" "w2 = w\<lparr>cached := e\<rparr>"
      "err' = err \<or> err' = errorf (err_text err)" "map_of e \<subseteq>\<^sub>m map_of (cached w)"
proof -
  have trans: "m \<subseteq>\<^sub>m m2(key \<mapsto> v)" if "m \<subseteq>\<^sub>m m1(key \<mapsto> v)" "m1 \<subseteq>\<^sub>m m2" for m m1 m2 :: "string \<Rightarrow> OrderView option" and v
    by (rule map_le_trans [OF that(1) map_le_upd [OF that(2)]])
  obtain e r1 w1 where l: "map_of e \<subseteq>\<^sub>m map_of (cached w)" "r1 = fst (factory w)" "w1 = w\<lparr>cached := e\<rparr>"
    "case r1 of
         Inr v \<Rightarrow> r = Inr v \<and> (\<exists>e'. w2 = w1\<lparr>cached := e', cached_until := until w1\<rparr>
           \<and> map_of e' \<subseteq>\<^sub>m (map_of (cached w1))(key \<mapsto> v))
       | Inl err \<Rightarrow> (r = Inl err \<or> r = Inl (errorf (err_text err)))
           \<and> (\<exists>e'. w2 = w1\<lparr>cached := e'\<rparr> \<and> map_of e' \<subseteq>\<^sub>m map_of (cached w1))"
    using assms(1) by (auto simp: cache_load_def reads)
  show ?thesis
  proof (cases r1)
    case (Inl err)
    then obtain e' where "r = Inl err \<or> r = Inl (errorf (err_text err))" "w2 = w\<lparr>cached := e'\<rparr>" "map_of e' \<subseteq>\<^sub>m map_of e"
      using l(3,4) by auto
    then show ?thesis using that(2) l(1,2) Inl map_le_trans by metis
  next
    case (Inr v)
    then obtain e' where "r = Inr v" "w2 = w\<lparr>cached := e', cached_until := until w1\<rparr>" "map_of e' \<subseteq>\<^sub>m (map_of e)(key \<mapsto> v)"
      using l(3,4) by auto
    then show ?thesis using that(1) l(1,2,3) Inr trans by metis
  qed
qed

locale view_cache =
  fixes get_or_set :: "string \<Rightarrow> OrderView act \<Rightarrow> int \<Rightarrow> OrderView act"
  assumes answers: "get_or_set key factory ttl w = (r, w2) \<Longrightarrow>
      cache_hit key w r w2 \<or> (\<exists>until. cache_load key factory until w r w2)"
begin

text \<open>What a read returns, for such a factory.\<close>

lemma read_cases:
  assumes "get_or_set key factory ttl w = (r, w2)"
    and reads: "\<And>e. factory (w\<lparr>cached := e\<rparr>) = (fst (factory w), w\<lparr>cached := e\<rparr>)"
  obtains (found) v e where "map_of (cached w) key = Some v" "r = Inr v" "w2 = w\<lparr>cached := e\<rparr>"
      "map_of e \<subseteq>\<^sub>m map_of (cached w)"
  | (filled) v e until where "fst (factory w) = Inr v" "r = Inr v" "w2 = w\<lparr>cached := e, cached_until := until\<rparr>"
      "map_of e \<subseteq>\<^sub>m (map_of (cached w))(key \<mapsto> v)"
  | (failed) err err' e where "fst (factory w) = Inl err" "r = Inl err'" "w2 = w\<lparr>cached := e\<rparr>"
      "err' = err \<or> err' = errorf (err_text err)" "map_of e \<subseteq>\<^sub>m map_of (cached w)"
  using answers [OF assms(1)]
proof
  assume "cache_hit key w r w2"
  then show ?thesis using that(1) by (force simp: cache_hit_def map_le_def)
next
  assume "\<exists>until. cache_load key factory until w r w2"
  then obtain until where "cache_load key factory until w r w2" by blast
  from this reads show ?thesis
  proof (cases rule: load_cases)
    case filled
    then show ?thesis using that(2) by blast
  next
    case failed
    then show ?thesis using that(3) by blast
  qed
qed

end

interpretation memory: view_cache memory_cache
proof
  fix w w2 :: world and factory :: "OrderView act" and key ttl r
  assume m: "memory_cache key factory ttl w = (r, w2)"
  have self: "w\<lparr>cached := cached w\<rparr> = w" by simp
  show "cache_hit key w r w2 \<or> (\<exists>until. cache_load key factory until w r w2)"
  proof (cases "map_of (cached w) key")
    case (Some v)
    then have "cache_hit key w r w2"
      using m unfolding cache_hit_def by (intro exI [of _ "cached w"] exI [of _ v]) (simp add: memory_cache_def)
    then show ?thesis by blast
  next
    case None
    obtain r1 w1 where f: "factory w = (r1, w1)" by fastforce
    have "cache_load key factory cached_until w r w2"
      unfolding cache_load_def
      by (intro exI [of _ "cached w"] exI [of _ r1] exI [of _ w1])
        (use m None f in \<open>auto simp: memory_cache_def split: sum.splits intro: exI [of _ "cached w1"]\<close>)
    then show ?thesis by blast
  qed
qed

text \<open>
  A cache that keeps to the time to live it is given: an entry answers only before it expires, and one that
  is stored expires \<open>ttl\<close> after the load.
\<close>

definition keeps_ttl :: "view_cache \<Rightarrow> bool" where
  "keeps_ttl c \<longleftrightarrow> (\<forall>key factory ttl w r w2. c key factory ttl w = (r, w2) \<longrightarrow>
     clock w < cached_until w key \<and> cache_hit key w r w2
     \<or> cache_load key factory (\<lambda>w1. (cached_until w1)(key := clock w1 + ttl)) w r w2)"

lemma keeps_ttl_view_cache: "keeps_ttl c \<Longrightarrow> view_cache c"
  unfolding keeps_ttl_def view_cache_def by blast

lemma keeps_ttl_cases:
  assumes "keeps_ttl c" "c key factory ttl w = (r, w2)"
    and reads: "\<And>e. factory (w\<lparr>cached := e\<rparr>) = (fst (factory w), w\<lparr>cached := e\<rparr>)"
  obtains (found) v e where "clock w < cached_until w key" "map_of (cached w) key = Some v" "r = Inr v"
      "w2 = w\<lparr>cached := e\<rparr>" "map_of e \<subseteq>\<^sub>m map_of (cached w)"
  | (filled) v e where "fst (factory w) = Inr v" "r = Inr v"
      "w2 = w\<lparr>cached := e, cached_until := (cached_until w)(key := clock w + ttl)\<rparr>"
      "map_of e \<subseteq>\<^sub>m (map_of (cached w))(key \<mapsto> v)"
  | (failed) err err' e where "fst (factory w) = Inl err" "r = Inl err'" "w2 = w\<lparr>cached := e\<rparr>"
      "err' = err \<or> err' = errorf (err_text err)" "map_of e \<subseteq>\<^sub>m map_of (cached w)"
proof -
  from assms(1,2) consider "clock w < cached_until w key" "cache_hit key w r w2"
    | "cache_load key factory (\<lambda>w1. (cached_until w1)(key := clock w1 + ttl)) w r w2"
    unfolding keeps_ttl_def by blast
  then show ?thesis
  proof cases
    case 1
    then show ?thesis using that(1) by (force simp: cache_hit_def map_le_def)
  next
    case 2
    from 2 reads show ?thesis
    proof (cases rule: load_cases)
      case filled
      then show ?thesis using that(2) by simp
    next
      case failed
      then show ?thesis using that(3) by blast
    qed
  qed
qed

text \<open>An implementation: entries with a time, that answer until then.\<close>

definition expiring_cache :: view_cache where
  "expiring_cache key factory ttl w =
     (case (if clock w < cached_until w key then map_of (cached w) key else None) of
        Some v \<Rightarrow> (Inr v, w)
      | None \<Rightarrow>
          (case factory w of
             (Inl err, w') \<Rightarrow> (Inl err, w')
           | (Inr v, w') \<Rightarrow> (Inr v, w'\<lparr>cached := (key, v) # cached w',
                              cached_until := (cached_until w')(key := clock w' + ttl)\<rparr>)))"

lemma keeps_ttl_expiring [simp]: "keeps_ttl expiring_cache"
  unfolding keeps_ttl_def
proof (intro allI impI)
  fix key factory ttl w r and w2 :: world
  assume m: "expiring_cache key factory ttl w = (r, w2)"
  have self: "w\<lparr>cached := cached w\<rparr> = w" by simp
  show "clock w < cached_until w key \<and> cache_hit key w r w2
     \<or> cache_load key factory (\<lambda>w1. (cached_until w1)(key := clock w1 + ttl)) w r w2"
  proof (cases "if clock w < cached_until w key then map_of (cached w) key else None")
    case (Some v)
    then have "clock w < cached_until w key \<and> cache_hit key w r w2"
      using m unfolding cache_hit_def
      by (intro conjI exI [of _ "cached w"] exI [of _ v]) (auto simp: expiring_cache_def split: if_splits)
    then show ?thesis by blast
  next
    case None
    obtain r1 w1 where f: "factory w = (r1, w1)" by fastforce
    have "cache_load key factory (\<lambda>w1. (cached_until w1)(key := clock w1 + ttl)) w r w2"
      unfolding cache_load_def
      by (intro exI [of _ "cached w"] exI [of _ r1] exI [of _ w1])
        (use m None f in \<open>auto simp: expiring_cache_def split: sum.splits intro: exI [of _ "cached w1"]\<close>)
    then show ?thesis by blast
  qed
qed

interpretation expiring: view_cache expiring_cache
  by (rule keeps_ttl_view_cache) simp

text \<open>The caches the facts of this library are about: none, or one that keeps the contract.\<close>

definition known_cache :: "view_cache option \<Rightarrow> bool" where
  "known_cache c \<longleftrightarrow> (case c of None \<Rightarrow> True | Some g \<Rightarrow> view_cache g)"

lemma known_cache_simps [simp]:
  "known_cache None" "view_cache memory_cache" "view_cache expiring_cache" "known_cache (Some g) \<longleftrightarrow> view_cache g"
  by (simp_all add: known_cache_def memory.view_cache_axioms expiring.view_cache_axioms)

text \<open>
  Every entry a lawful cache of this service can hold was once the view of its order: \<open>past_view\<close>.
  Since rows are only appended, such a view can only be stale in one way.
\<close>

definition past_view :: "runtime \<Rightarrow> tables \<Rightarrow> uuid \<Rightarrow> OrderView \<Rightarrow> bool" where
  "past_view rt t oid v \<longleftrightarrow>
     (\<exists>t0. tables_ok t0 \<and> extends t0 t \<and> select_view rt t0 oid = Some v)"

lemma past_view_now: "tables_ok t \<Longrightarrow> select_view rt t oid = Some v \<Longrightarrow> past_view rt t oid v"
  unfolding past_view_def using extends_refl by blast

lemma past_view_extends: "past_view rt t oid v \<Longrightarrow> extends t t' \<Longrightarrow> past_view rt t' oid v"
  unfolding past_view_def using extends_trans by blast

lemma hist_extends_prefix: "extends t t' \<Longrightarrow> \<exists>r. hist t' oid = hist t oid @ r"
  by (auto simp: extends_def hist_insert)

lemma find_orders_extends:
  "extends t t' \<Longrightarrow> find (\<lambda>r. r_id r = oid) (orders t) = Some r \<Longrightarrow>
     find (\<lambda>r. r_id r = oid) (orders t') = Some r"
  by (auto simp: extends_def find_append)

lemma find_acceptances_extends:
  "extends t t' \<Longrightarrow> find (\<lambda>a. a_order_id a = oid) (order_acceptances t) = Some a \<Longrightarrow>
     find (\<lambda>a. a_order_id a = oid) (order_acceptances t') = Some a"
  by (auto simp: extends_def find_append)

text \<open>A taken ride stays as it is, and a ride keeps its rider.\<close>

lemma abs_tables_extends:
  assumes "extends t t'" "abs_tables t oid = Some rd"
  shows "\<exists>rd'. abs_tables t' oid = Some rd' \<and> rider rd' = rider rd
           \<and> (\<forall>r d. rd = Taken r d \<longrightarrow> rd' = rd)"
  using assms find_orders_extends [OF assms(1), of oid] find_acceptances_extends [OF assms(1), of oid]
  by (auto simp: abs_tables_def split: option.splits)

lemma abs_tables_mono: "extends t t' \<Longrightarrow> abs_tables t \<le> abs_tables t'"
  using abs_tables_extends by (fastforce simp: rides_le_iff ride_le_iff)

text \<open>So an old view that is not \<open>requested\<close> says that the guard of the SQL statement fails now.\<close>

lemma past_view_not_requested:
  assumes "runtime_ok rt" "tables_ok t" "past_view rt t oid v" "view_Status v \<noteq> ''requested''"
  shows "\<not> guard t oid" and "view_Status v = ''accepted''"
    and "\<exists>r d. abs_tables t oid = Some (Taken r d) \<and> view_RiderID v = uuid_string r"
proof -
  obtain t0 where t0: "tables_ok t0" "extends t0 t" "select_view rt t0 oid = Some v"
    using assms(3) by (auto simp: past_view_def)
  then obtain rd where rd: "abs_tables t0 oid = Some rd" "view_Status v = ride_status rd"
    "view_RiderID v = uuid_string (rider rd)"
    using select_view_ride [OF t0(1) assms(1) t0(3)] by metis
  then obtain r d where "rd = Taken r d"
    using assms(4) by (cases rd) auto
  then have "abs_tables t oid = Some (Taken r d)"
    using abs_tables_extends [OF t0(2) rd(1)] by auto
  then show "\<not> guard t oid" "view_Status v = ''accepted''"
    "\<exists>r d. abs_tables t oid = Some (Taken r d) \<and> view_RiderID v = uuid_string r"
    using rd \<open>rd = Taken r d\<close> guard_abs [OF assms(2)] by auto
qed

end
