(* ===== verification/Telemetry.thy ===== *)
theory Telemetry
  imports World
begin

text \<open>
  The call both services make through \<open>Telemetry.WorkerContext\<close> of \<open>hellnet-lib-telemetry\<close>: the
  wrapped job stores its result in captured variables and swallows a client error, so that a 4xx
  answer is not counted as a failed job.

  The worker is third-party code. It runs the job under a context of its own, that of the job's span:
  \<open>wk_carrier\<close> is what the propagator writes for that context, by the job's name and the caller's carrier.
  \<open>wk_run\<close> takes the job's name, the job and the state, which is the captured variables \<open>'r\<close> beside the
  world, and gives its own error and the state it leaves. \<open>worker_ok\<close> is what the code relies on: the job
  runs once, and the worker reports whether it failed.
\<close>

type_synonym carrier = "(string \<times> string) list"

record 'r worker =
  wk_carrier :: "string \<Rightarrow> carrier \<Rightarrow> world \<Rightarrow> carrier"
  wk_run :: "string \<Rightarrow> ('r \<times> world \<Rightarrow> go_error option \<times> ('r \<times> world)) \<Rightarrow> 'r \<times> world
     \<Rightarrow> go_error option \<times> ('r \<times> world)"

definition worker_ok :: "'r worker \<Rightarrow> bool" where
  "worker_ok worker \<longleftrightarrow>
     (\<forall>name job st. snd (wk_run worker name job st) = snd (job st)
        \<and> (fst (wk_run worker name job st) = None \<longleftrightarrow> fst (job st) = None))"

text \<open>A Go result pair, and the sum it stands for: the value counts where the error is \<open>nil\<close>.\<close>

definition to_pair :: "'a \<Rightarrow> go_error + 'a \<Rightarrow> 'a \<times> go_error option" where
  "to_pair zero r = (case r of Inl e \<Rightarrow> (zero, Some e) | Inr x \<Rightarrow> (x, None))"

definition of_pair :: "'a \<times> go_error option \<Rightarrow> go_error + 'a" where
  "of_pair p = (case p of (x, None) \<Rightarrow> Inr x | (_, Some e) \<Rightarrow> Inl e)"

lemma of_pair_to_pair [simp]: "of_pair (to_pair zero r) = r"
  by (cases r) (simp_all add: to_pair_def of_pair_def)

text \<open>
  The branch \<open>s.tel != nil\<close> of \<open>orders.Service.Requested\<close> and of \<open>drivers.Service.Accepted\<close>, which is
  the same code in both: \<open>call\<close> is \<open>doRequested\<close> or \<open>doAccepted\<close>, and gets the context of the job.
\<close>

definition run_job ::
    "('a \<times> go_error option) worker \<Rightarrow> string \<Rightarrow> 'a \<Rightarrow> (carrier \<Rightarrow> 'a act) \<Rightarrow> carrier \<Rightarrow> 'a act" where
  "run_job worker name zero call carrier w =
     (let ctx = wk_carrier worker name carrier w;
          work = (\<lambda>(_, w).
            case call ctx w of
              (r, w') \<Rightarrow>
                (let (result, err) = to_pair zero r
                 in (if IsClientError err then None else err, ((result, err), w'))));
          (workErr, ((result, err), w')) = wk_run worker name work ((zero, None), w)
      in (of_pair (result, if err = None then workErr else err), w'))"

text \<open>The wrapper changes neither the result nor the world: it is the call in the context of the job.\<close>

lemma run_job_transparent:
  assumes "worker_ok worker"
  shows "run_job worker name zero call carrier w = call (wk_carrier worker name carrier w) w"
proof -
  let ?ctx = "wk_carrier worker name carrier w"
  obtain r w' where c: "call ?ctx w = (r, w')" by fastforce
  define work where "work = (\<lambda>(_ :: 'a \<times> go_error option, w).
            case call ?ctx w of
              (r, w') \<Rightarrow>
                (let (result, err) = to_pair zero r
                 in (if IsClientError err then None else err, ((result, err), w'))))"
  obtain e st where wk: "wk_run worker name work ((zero, None), w) = (e, st)"
    by (cases "wk_run worker name work ((zero, None), w)")
  have law: "snd (wk_run worker name work ((zero, None), w)) = snd (work ((zero, None), w))"
    "fst (wk_run worker name work ((zero, None), w)) = None \<longleftrightarrow> fst (work ((zero, None), w)) = None"
    using assms unfolding worker_ok_def by blast+
  have st: "st = (to_pair zero r, w')"
    using law(1) wk by (cases r) (simp_all add: work_def c to_pair_def)
  have e: "e = None \<longleftrightarrow> fst (work ((zero, None), w)) = None"
    using law(2) wk by simp
  have "run_job worker name zero call carrier w
          = (of_pair (fst (to_pair zero r),
               if snd (to_pair zero r) = None then e else snd (to_pair zero r)), w')"
    using wk st by (cases r) (simp_all add: run_job_def work_def Let_def to_pair_def)
  also have "\<dots> = (r, w')"
    using e by (cases r) (auto simp: to_pair_def of_pair_def work_def c)
  finally show ?thesis by (simp add: c)
qed

text \<open>The telemetry client of a service: none, or one whose worker keeps its contract.\<close>

definition tel_ok :: "'r worker option \<Rightarrow> bool" where
  "tel_ok t \<longleftrightarrow> (case t of None \<Rightarrow> True | Some worker \<Rightarrow> worker_ok worker)"

text \<open>The context in which a service call runs: that of its job, or the caller's where there is no telemetry.\<close>

definition job_carrier :: "'r worker option \<Rightarrow> string \<Rightarrow> carrier \<Rightarrow> world \<Rightarrow> carrier" where
  "job_carrier t name carrier w =
     (case t of None \<Rightarrow> carrier | Some worker \<Rightarrow> wk_carrier worker name carrier w)"

lemma job_carrier_simps [simp]:
  "job_carrier None name k w = k" "job_carrier (Some worker) name k w = wk_carrier worker name k w"
  by (simp_all add: job_carrier_def)

text \<open>A worker that opens a span, runs the job and hands its error on satisfies the contract.\<close>

definition plain_worker :: "'r worker" where
  "plain_worker = \<lparr>wk_carrier = (\<lambda>name k w. (''traceparent'', name) # k), wk_run = (\<lambda>name job st. job st)\<rparr>"

lemma worker_ok_plain [simp]: "worker_ok plain_worker"
  by (simp add: worker_ok_def plain_worker_def)

text \<open>A worker that counts how its jobs end.\<close>

definition counting_worker :: "'r worker" where
  "counting_worker =
     \<lparr>wk_carrier = (\<lambda>name k w. k),
      wk_run = (\<lambda>name job st. case job st of
        (e, (r, w)) \<Rightarrow> (e, (r, add_counter name (if e = None then ''ok'' else ''error'') w)))\<rparr>"

text \<open>It counts a call as failed exactly where its error is not the client's.\<close>

lemma run_job_counting:
  assumes "call carrier w = (r, w')"
  shows "run_job counting_worker name zero call carrier w =
    (r, add_counter name
          (case r of Inr _ \<Rightarrow> ''ok'' | Inl e \<Rightarrow> if IsClientError (Some e) then ''ok'' else ''error'') w')"
  using assms
  by (cases r) (auto simp: run_job_def counting_worker_def to_pair_def of_pair_def Let_def)

end
