(* ===== verification/Http.thy ===== *)
theory Http
  imports World
begin

text \<open>
  The HTTP side of a handler: the request as gin hands it over, the JSON response, and
  \<open>AbortError\<close> of \<open>platform/platform.go\<close> with the helpers it uses from \<open>platform/middleware.go\<close>.

  \<open>has_telemetry\<close> says whether the context holds a telemetry client under the key \<open>telemetry\<close>, which
  is what \<open>telemetryFromContext\<close> looks for; \<open>carrier\<close> is what the trace propagator writes for the
  request's context.
\<close>

section \<open>Requests and responses\<close>

record request =
  rq_method :: string
  rq_path :: string
  rq_pattern :: string
  rq_headers :: "(string \<times> string) list"
  rq_params :: "(string \<times> string) list"
  rq_body :: string
  rq_carrier :: "(string \<times> string) list"
  rq_has_telemetry :: bool

record response =
  rs_status :: int
  rs_body :: json

type_synonym handler = "request \<Rightarrow> world \<Rightarrow> response \<times> world"

text \<open>Header names do not depend on letter case; an absent header or parameter is the empty string.\<close>

definition GetHeader :: "request \<Rightarrow> string \<Rightarrow> string" where
  "GetHeader req name =
     (case map_of (map (\<lambda>(k, v). (map to_lower k, v)) (rq_headers req)) (map to_lower name) of
        None \<Rightarrow> [] | Some v \<Rightarrow> v)"

definition Param :: "request \<Rightarrow> string \<Rightarrow> string" where
  "Param req name = (case map_of (rq_params req) name of None \<Rightarrow> [] | Some v \<Rightarrow> v)"

section \<open>Log hygiene\<close>

definition sanitizeForLog :: "string \<Rightarrow> string" where
  "sanitizeForLog value = RemoveAll (RemoveAll value (CHR 0x0A)) (CHR 0x0D)"

lemma sanitizeForLog_clean:
  "CHR 0x0A \<notin> set (sanitizeForLog s)" "CHR 0x0D \<notin> set (sanitizeForLog s)"
  by (simp_all add: sanitizeForLog_def RemoveAll_def)

section \<open>The error envelope\<close>

definition error_envelope :: "string \<Rightarrow> string \<Rightarrow> json" where
  "error_envelope code message =
     JObj [(''error'', JObj [(''code'', json_string code), (''message'', json_string message)])]"

definition AbortError :: "request \<Rightarrow> go_error option \<Rightarrow> world \<Rightarrow> response \<times> world" where
  "AbortError req err w =
     (let mapped = (case MapError err of None \<Rightarrow> InternalError | Some m \<Rightarrow> m);
          path = sanitizeForLog (rq_path req);
          common = [(''method'', rq_method req), (''path'', path), (''status'', Itoa (Status mapped)),
                    (''code'', Code mapped)];
          w' = (case ErrorCause (Some mapped) of
                  Some c \<Rightarrow>
                    if \<not> errors_Is c Canceled \<and> rq_has_telemetry req
                    then add_log (Log Error ''request failed'' (common @ [(''error'', err_text c)])) w
                    else if rq_has_telemetry req
                    then add_log (Log Warn ''request rejected'' (common @ [(''message'', Message mapped)])) w
                    else w
                | None \<Rightarrow>
                    if rq_has_telemetry req
                    then add_log (Log Warn ''request rejected'' (common @ [(''message'', Message mapped)])) w
                    else w)
      in (\<lparr>rs_status = Status mapped, rs_body = error_envelope (Code mapped) (Message mapped)\<rparr>, w'))"

lemma AbortError_response:
  "fst (AbortError req err w) =
     (let mapped = (case MapError err of None \<Rightarrow> InternalError | Some m \<Rightarrow> m)
      in \<lparr>rs_status = Status mapped, rs_body = error_envelope (Code mapped) (Message mapped)\<rparr>)"
  by (simp add: AbortError_def Let_def)

lemma AbortError_typed [err_simps]:
  "fst (AbortError req (Some (HTTPErr h)) w)
     = \<lparr>rs_status = Status h, rs_body = error_envelope (Code h) (Message h)\<rparr>"
  by (simp add: AbortError_response)

lemma AbortError_frame [simp]:
  "db (snd (AbortError req err w)) = db w" "cached (snd (AbortError req err w)) = cached w"
  by (simp_all add: AbortError_def Let_def split: option.splits)

text \<open>At most one line is logged, and its path field has no line break.\<close>

lemma AbortError_log:
  "\<exists>es. logs (snd (AbortError req err w)) = logs w @ es \<and> length es \<le> 1
     \<and> (\<forall>e \<in> set es. map_of (log_fields e) ''path'' = Some (sanitizeForLog (rq_path req)))"
  by (auto simp: AbortError_def Let_def split: option.splits)

section \<open>What the client sees and what is logged\<close>

text \<open>C18: an error that carries no typed HTTP error is a 500 with a fixed body: two such errors, whatever
  they say and wrap, are the same to the client.\<close>

theorem internal_errors_do_not_leak:
  assumes "errors_As to_http e1 = None" "errors_As to_http e2 = None"
  shows "fst (AbortError req (Some e1) w) = fst (AbortError req2 (Some e2) w2)
    \<and> fst (AbortError req (Some e1) w)
        = \<lparr>rs_status = 500, rs_body = error_envelope ''INTERNAL_ERROR'' ''internal server error''\<rparr>"
  using assms by (simp add: AbortError_response MapError_def)

definition sample_request :: request where
  "sample_request = \<lparr>rq_method = ''GET'', rq_path = ''/a'' @ [CHR 0x0A] @ ''b'', rq_pattern = [], rq_headers = [], rq_params = [],
     rq_body = [], rq_carrier = [], rq_has_telemetry = True\<rparr>"

theorem internal_errors_do_not_leak_witness:
  "fst (AbortError sample_request (Some (errorf ''password=x'')) (start_world (\<lambda>_. 0)))
     = \<lparr>rs_status = 500, rs_body = error_envelope ''INTERNAL_ERROR'' ''internal server error''\<rparr>"
  using internal_errors_do_not_leak [of "errorf ''password=x''" "errorf ''other''"] by simp

text \<open>C19: rejecting a request writes one log line where there is telemetry and none otherwise, and the path
  in it has no line break, whatever path was asked for. The cause of an internal error is in that line,
  except for a cancelled request.\<close>

theorem rejections_are_logged_on_one_line:
  "\<exists>es. logs (snd (AbortError req (Some e) w)) = logs w @ es
     \<and> length es = (if rq_has_telemetry req then 1 else 0)
     \<and> list_all (\<lambda>l. \<exists>p. map_of (log_fields l) ''path'' = Some p \<and> CHR 0x0A \<notin> set p \<and> CHR 0x0D \<notin> set p) es
     \<and> (errors_As to_http e = None \<longrightarrow>
          list_all (\<lambda>l. map_of (log_fields l) ''error'' = (if errors_Is e Canceled then None else Some (err_text e))) es)"
proof (cases e rule: MapError_cases)
  case (typed h)
  then show ?thesis
    by (cases "cause h") (auto simp: AbortError_def Let_def ErrorCause_def sanitizeForLog_clean)
next
  case internal
  then show ?thesis
    by (auto simp: AbortError_def Let_def ErrorCause_def sanitizeForLog_clean)
qed

theorem rejections_are_logged_on_one_line_witness:
  "\<exists>es. logs (snd (AbortError sample_request (Some (errorf ''x'')) (start_world (\<lambda>_. 0)))) = es \<and> length es = 1"
  using rejections_are_logged_on_one_line [of sample_request "errorf ''x''" "start_world (\<lambda>_. 0)"]
  by (auto simp: sample_request_def start_world_def)

end
