(* ===== verification/Orders.thy ===== *)
theory Orders
  imports Cache Telemetry Http
begin

text \<open>
  Package \<open>internal/orders\<close>: the repository, the service with its cached reads, and the two HTTP
  handlers.

  The interfaces of the Go code are arguments: the database, the repository and the cache of the service
  (fields of the record \<open>orders_service\<close>), the telemetry worker, gin's JSON binding.
\<close>

section \<open>internal/orders/repository.go\<close>

text \<open>
  \<open>execute\<close> and \<open>queryView\<close> are package variables, which the tests replace: the methods of \<open>Database\<close> take
  what is left of them once \<open>r.db\<close> is given.
\<close>

record orders_Database =
  orders_db :: database_DB

definition orders_execute :: "database_DB \<Rightarrow> execute" where
  "orders_execute pool sql args = ExecuteContext pool sql args"

definition queryView :: "database_DB \<Rightarrow> query_view" where
  "queryView pool sql args = QueryRowContext pool sql args"

definition orders_NewRepository :: "database_DB \<Rightarrow> orders_Database" where
  "orders_NewRepository pool = \<lparr>orders_db = pool\<rparr>"

definition Database_Requested :: "execute \<Rightarrow> OrderRequestedInput \<Rightarrow> Order act" where
  "Database_Requested execute input w =
     (case execute requestedSQL
         [AText (inp_ID input),
          AText (inp_RiderID input),
          AFloat (inp_PickupLatitude input),
          AFloat (inp_PickupLongitude input),
          AFloat (inp_DestinationLatitude input),
          AFloat (inp_DestinationLongitude input),
          AText (inp_StatusHistoryID input),
          AText (inp_OutboxID input),
          ABytes (inp_Payload input),
          AText (inp_EventType input)] w of
        (Inl err, w') \<Rightarrow> (Inl err, w')
      | (Inr _, w') \<Rightarrow>
          (Inr \<lparr>ord_ID = inp_ID input, ord_RiderID = inp_RiderID input,
                ord_PickupLatitude = inp_PickupLatitude input,
                ord_PickupLongitude = inp_PickupLongitude input,
                ord_DestinationLatitude = inp_DestinationLatitude input,
                ord_DestinationLongitude = inp_DestinationLongitude input\<rparr>, w'))"

definition Database_Get :: "query_view \<Rightarrow> string \<Rightarrow> (OrderView \<times> bool) act" where
  "Database_Get query ident w = query viewSQL [AText ident] w"

section \<open>internal/orders/service.go\<close>

record orders_Repository =
  repo_Requested :: "OrderRequestedInput \<Rightarrow> Order act"
  repo_Get :: "string \<Rightarrow> (OrderView \<times> bool) act"

text \<open>A \<open>Database\<close> where the service expects a \<open>Repository\<close>.\<close>

definition as_Repository :: "orders_Database \<Rightarrow> orders_Repository" where
  "as_Repository r =
     \<lparr>repo_Requested = Database_Requested (orders_execute (orders_db r)),
      repo_Get = Database_Get (queryView (orders_db r))\<rparr>"

record orders_service =
  tel :: "(OrderOutput \<times> go_error option) worker option"
  orders_repo :: orders_Repository
  cache :: "view_cache option"

definition NewService ::
    "(OrderOutput \<times> go_error option) worker option \<Rightarrow> orders_Repository \<Rightarrow> view_cache option
      \<Rightarrow> orders_service" where
  "NewService t r c = \<lparr>tel = t, orders_repo = r, cache = c\<rparr>"

definition viewTTL :: int where
  "viewTTL = 10 * 1000000000"

definition order_not_found :: http_error where
  "order_not_found = NewError 404 ''ORDER_NOT_FOUND'' ''order not found''"

definition view_key :: "string \<Rightarrow> string" where
  "view_key ident = ''orders:view:'' @ ident"

text \<open>The closure \<open>load\<close> of \<open>Get\<close>.\<close>

definition load_view :: "orders_service \<Rightarrow> string \<Rightarrow> OrderView act" where
  "load_view s ident w =
     (case repo_Get (orders_repo s) ident w of
        (Inl err, w') \<Rightarrow> (Inl err, w')
      | (Inr (view, found), w') \<Rightarrow>
          if \<not> found then (Inl (HTTPErr order_not_found), w') else (Inr view, w'))"

definition Service_Get :: "runtime \<Rightarrow> orders_service \<Rightarrow> string \<Rightarrow> OrderView act" where
  "Service_Get rt s ident w =
     (case uuid_Parse rt ident of
        None \<Rightarrow> (Inl (HTTPErr (ValidationError ''order_id'' ''must be a UUID'')), w)
      | Some _ \<Rightarrow>
          (case cache s of
             None \<Rightarrow> load_view s ident w
           | Some c \<Rightarrow>
               (case c (view_key ident) (load_view s ident) viewTTL w of
                  (Inl err, w') \<Rightarrow>
                    if HasCode (Some err) ''ORDER_NOT_FOUND''
                    then (Inl (HTTPErr order_not_found), w')
                    else (Inl err, w')
                | (Inr out, w') \<Rightarrow> (Inr out, w'))))"

definition isDuplicateOrder :: "pg_error \<Rightarrow> bool" where
  "isDuplicateOrder e \<longleftrightarrow>
     (if pg_code e \<noteq> ''23505'' then False
      else pg_constraint e = ''orders_pkey''
        \<or> pg_constraint e = ''order_status_history_order_id_sequence_key'')"

text \<open>
  The body of \<open>doRequested\<close>, with the value of its variable \<open>status\<close> that the deferred function
  reports; and \<open>doRequested\<close> with the deferred counter.
\<close>

definition requested_body ::
    "runtime \<Rightarrow> orders_service \<Rightarrow> (string \<times> string) list \<Rightarrow> OrderRequestedInput \<Rightarrow> world
      \<Rightarrow> (string \<times> (go_error + OrderOutput)) \<times> world" where
  "requested_body rt s carrier input w =
     (if TrimSpace (inp_ID input) = [] \<or> TrimSpace (inp_RiderID input) = []
      then ((''validation_error'',
             Inl (HTTPErr (ValidationError ''ride'' ''id and rider_id are required''))), w)
      else
        let (shid, w1) = (if inp_StatusHistoryID input = [] then new_uuid w
                          else (inp_StatusHistoryID input, w));
            (xid, w2) = (if inp_OutboxID input = [] then new_uuid w1 else (inp_OutboxID input, w1));
            event = \<lparr>or_EventID = xid, or_EventVersion = 1, or_OccurredAt = clock w2,
                     or_OrderID = inp_ID input, or_RiderID = inp_RiderID input,
                     or_PickupLatitude = inp_PickupLatitude input,
                     or_PickupLongitude = inp_PickupLongitude input,
                     or_DestinationLatitude = inp_DestinationLatitude input,
                     or_DestinationLongitude = inp_DestinationLongitude input\<rparr>;
            payload = InjectTraceContext carrier (Marshal_requested (fmt_float rt) event);
            input' = input\<lparr>inp_StatusHistoryID := shid, inp_OutboxID := xid, inp_Payload := payload,
                       inp_EventType := OrderRequested_MessageType (environ w2)\<rparr>
        in (case repo_Requested (orders_repo s) input' w2 of
              (Inl err, w3) \<Rightarrow>
                (case errors_As to_pg err of
                   Some pgErr \<Rightarrow>
                     if isDuplicateOrder pgErr
                     then ((''conflict'',
                            Inl (HTTPErr (NewError 409 ''ORDER_ALREADY_EXISTS''
                              ''an order with this id already exists''))), w3)
                     else ((''error'', Inl err), w3)
                 | None \<Rightarrow> ((''error'', Inl err), w3))
            | (Inr order, w3) \<Rightarrow>
                ((''success'', Inr (OrderOutput_of order)),
                 if tel s \<noteq> None
                 then add_log (Log Info ''order requested''
                   [(''order_id'', inp_ID input), (''rider_id'', inp_RiderID input)]) w3
                 else w3)))"

definition doRequested ::
    "runtime \<Rightarrow> orders_service \<Rightarrow> (string \<times> string) list \<Rightarrow> OrderRequestedInput \<Rightarrow> OrderOutput act" where
  "doRequested rt s carrier input w =
     (case requested_body rt s carrier input w of
        ((status, r), w') \<Rightarrow>
          (r, if tel s \<noteq> None
              then add_histogram ''orders.requested.duration_seconds'' status
                (add_counter ''orders.requested.total'' status w')
              else w'))"

definition Service_Requested ::
    "runtime \<Rightarrow> orders_service \<Rightarrow> (string \<times> string) list \<Rightarrow> OrderRequestedInput \<Rightarrow> OrderOutput act" where
  "Service_Requested rt s carrier input w =
     (case tel s of
        None \<Rightarrow> doRequested rt s carrier input w
      | Some worker \<Rightarrow>
          run_job worker ''orders.requested'' zero_OrderOutput (\<lambda>ctx. doRequested rt s ctx input) carrier w)"

section \<open>internal/orders/handler.go\<close>

text \<open>
  \<open>bind\<close> is gin's \<open>ShouldBindJSON\<close>: the text of an error, or the decoded body. The service is the two
  functions of the handler's interface; the request's context is the carrier.
\<close>

type_synonym requested_port = "(string \<times> string) list \<Rightarrow> OrderRequestedInput \<Rightarrow> OrderOutput act"
type_synonym get_port = "string \<Rightarrow> OrderView act"

record orders_handler =
  service_Requested :: requested_port
  service_Get :: get_port

definition NewOrdersHandler :: "requested_port \<Rightarrow> get_port \<Rightarrow> orders_handler" where
  "NewOrdersHandler requested get = \<lparr>service_Requested = requested, service_Get = get\<rparr>"

definition Handler_request ::
    "runtime \<Rightarrow> (string \<Rightarrow> string + requestInput) \<Rightarrow> requested_port \<Rightarrow> handler" where
  "Handler_request rt bind requested req w =
     (case bind (rq_body req) of
        Inl msg \<Rightarrow> AbortError req (Some (HTTPErr (ValidationError ''body'' msg))) w
      | Inr inb \<Rightarrow>
          (let (ident, w1) = (if req_ID inb = [] then new_uuid w else (req_ID inb, w));
               rider0 = GetHeader req ''rider_id'';
               rider1 = (if rider0 = [] then req_RiderID inb else rider0);
               (riderID, w2) = (if rider1 = [] then new_uuid w1 else (rider1, w1))
           in if uuid_Parse rt ident = None
              then AbortError req (Some (HTTPErr (ValidationError ''id'' ''must be a UUID''))) w2
              else if uuid_Parse rt riderID = None
              then AbortError req (Some (HTTPErr (ValidationError ''rider_id'' ''must be a UUID''))) w2
              else
                let input = \<lparr>inp_ID = ident, inp_RiderID = riderID,
                      inp_PickupLatitude = req_PickupLatitude inb,
                      inp_PickupLongitude = req_PickupLongitude inb,
                      inp_DestinationLatitude = req_DestinationLatitude inb,
                      inp_DestinationLongitude = req_DestinationLongitude inb,
                      inp_StatusHistoryID = [], inp_OutboxID = [], inp_Payload = NilPayload,
                      inp_EventType = []\<rparr>
                in (case requested (rq_carrier req) input w2 of
                      (Inl err, w3) \<Rightarrow> AbortError req (Some err) w3
                    | (Inr order, w3) \<Rightarrow>
                        (\<lparr>rs_status = 201, rs_body = OrderOutput_json (fmt_float rt) order\<rparr>, w3))))"

definition Handler_get :: "runtime \<Rightarrow> get_port \<Rightarrow> handler" where
  "Handler_get rt get req w =
     (let orderID = Param req ''orderId'';
          riderID = GetHeader req ''rider_id''
      in if uuid_Parse rt riderID = None
         then AbortError req (Some (HTTPErr (ValidationError ''rider_id'' ''must be a UUID''))) w
         else
           (case get orderID w of
              (Inl err, w') \<Rightarrow> AbortError req (Some err) w'
            | (Inr view, w') \<Rightarrow>
                if view_RiderID view \<noteq> riderID
                then AbortError req (Some (HTTPErr order_not_found)) w'
                else (\<lparr>rs_status = 200,
                       rs_body = OrderView_json (fmt_float rt) (fmt_time rt) view\<rparr>, w')))"

end
