(* ===== verification/Drivers.thy ===== *)
theory Drivers
  imports Orders
begin

text \<open>
  Package \<open>internal/drivers\<close>: the repository, the service with its early check, and the HTTP handler.
  The repository and the order reader are the interfaces of the Go \<open>Service\<close>; in the API the reader is
  \<open>orders.Service\<close>, and it may be \<open>nil\<close>.
\<close>

section \<open>internal/drivers/repository.go\<close>

record drivers_Database =
  drivers_db :: database_DB

definition drivers_execute :: "database_DB \<Rightarrow> execute" where
  "drivers_execute pool sql args = ExecuteContext pool sql args"

definition drivers_NewRepository :: "database_DB \<Rightarrow> drivers_Database" where
  "drivers_NewRepository pool = \<lparr>drivers_db = pool\<rparr>"

definition Database_Accepted :: "execute \<Rightarrow> AcceptedInput \<Rightarrow> DriverOrder act" where
  "Database_Accepted execute input w =
     (case execute acceptedSQL
         [AText (acc_AcceptanceID input), AText (acc_OrderID input), AText (acc_DriverID input),
          AText (acc_StatusHistoryID input), AText (acc_OutboxID input), ABytes (acc_Payload input),
          AText (acc_EventType input)] w of
        (Inl err, w') \<Rightarrow> (Inl err, w')
      | (Inr rows, w') \<Rightarrow>
          if rows = 0
          then (Inl (HTTPErr (NewError 409 ''ORDER_NOT_ACCEPTABLE''
                  ''order is not in the requested state'')), w')
          else (Inr \<lparr>drv_ID = acc_OrderID input\<rparr>, w'))"

section \<open>internal/drivers/service.go\<close>

record drivers_service =
  dtel :: "(DriverOrderOutput \<times> go_error option) worker option"
  repo_Accepted :: "AcceptedInput \<Rightarrow> DriverOrder act"
  reader :: "get_port option"

definition NewDriverService ::
    "(DriverOrderOutput \<times> go_error option) worker option \<Rightarrow> (AcceptedInput \<Rightarrow> DriverOrder act)
      \<Rightarrow> get_port option \<Rightarrow> drivers_service" where
  "NewDriverService t repo rd = \<lparr>dtel = t, repo_Accepted = repo, reader = rd\<rparr>"

definition order_not_acceptable :: http_error where
  "order_not_acceptable =
     NewError 409 ''ORDER_NOT_ACCEPTABLE'' ''order is not in the requested state''"

definition order_already_accepted :: http_error where
  "order_already_accepted = NewError 409 ''ORDER_ALREADY_ACCEPTED'' ''order has already been accepted''"

text \<open>What \<open>doAccepted\<close> makes of an error of the repository: two type assertions, no unwrapping.\<close>

definition accepted_error :: "go_error \<Rightarrow> go_error" where
  "accepted_error err =
     (case to_http err of
        Some e \<Rightarrow>
          if Code e = ''ORDER_NOT_ACCEPTABLE'' then HTTPErr order_not_acceptable else err
      | None \<Rightarrow>
          (case to_pg err of
             Some pgErr \<Rightarrow>
               if pg_code pgErr = ''23505'' \<and> pg_constraint pgErr = ''uq_order_acceptances_order''
               then HTTPErr order_already_accepted
               else err
           | None \<Rightarrow> err))"

text \<open>The early check: whether it rejects, and the world the read leaves.\<close>

definition early_check :: "drivers_service \<Rightarrow> string \<Rightarrow> world \<Rightarrow> bool \<times> world" where
  "early_check s oid w =
     (case reader s of
        None \<Rightarrow> (False, w)
      | Some get \<Rightarrow>
          (case get oid w of
             (Inr view, w') \<Rightarrow> (view_Status view \<noteq> ''requested'', w')
           | (Inl _, w') \<Rightarrow> (False, w')))"

definition accepted_body ::
    "runtime \<Rightarrow> drivers_service \<Rightarrow> (string \<times> string) list \<Rightarrow> AcceptedInput \<Rightarrow> world
      \<Rightarrow> (string \<times> (go_error + DriverOrderOutput)) \<times> world" where
  "accepted_body rt s carrier input w =
     (if uuid_Parse rt (acc_OrderID input) = None
      then ((''validation_error'',
             Inl (HTTPErr (ValidationError ''order_id'' ''must be a UUID''))), w)
      else if uuid_Parse rt (acc_DriverID input) = None
      then ((''validation_error'',
             Inl (HTTPErr (ValidationError ''driver_id'' ''must be a UUID''))), w)
      else
        (case early_check s (acc_OrderID input) w of
           (True, w1) \<Rightarrow> ((''conflict'', Inl (HTTPErr order_not_acceptable)), w1)
         | (False, w1) \<Rightarrow>
             (let event = \<lparr>oa_EventID = acc_OutboxID input, oa_EventVersion = 1,
                    oa_OccurredAt = clock w1, oa_OrderID = acc_OrderID input,
                    oa_DriverID = acc_DriverID input\<rparr>;
                  payload = InjectTraceContext carrier (Marshal_accepted event);
                  input' = input\<lparr>acc_Payload := payload,
                             acc_EventType := OrderAccepted_MessageType (environ w1)\<rparr>
              in (case repo_Accepted s input' w1 of
                    (Inl err, w2) \<Rightarrow> ((''error'', Inl (accepted_error err)), w2)
                  | (Inr order, w2) \<Rightarrow>
                      ((''success'', Inr (DriverOrderOutput_of order)),
                       if dtel s \<noteq> None
                       then add_log (Log Info ''order accepted''
                         [(''order_id'', acc_OrderID input), (''driver_id'', acc_DriverID input)]) w2
                       else w2)))))"

definition doAccepted ::
    "runtime \<Rightarrow> drivers_service \<Rightarrow> (string \<times> string) list \<Rightarrow> AcceptedInput \<Rightarrow> DriverOrderOutput act" where
  "doAccepted rt s carrier input w =
     (case accepted_body rt s carrier input w of
        ((status, r), w') \<Rightarrow>
          (r, if dtel s \<noteq> None
              then add_histogram ''drivers.accepted.duration_seconds'' status
                (add_counter ''drivers.accepted.total'' status w')
              else w'))"

definition Service_Accepted ::
    "runtime \<Rightarrow> drivers_service \<Rightarrow> (string \<times> string) list \<Rightarrow> AcceptedInput \<Rightarrow> DriverOrderOutput act" where
  "Service_Accepted rt s carrier input w =
     (case dtel s of
        None \<Rightarrow> doAccepted rt s carrier input w
      | Some worker \<Rightarrow>
          run_job worker ''drivers.accepted'' zero_DriverOrderOutput (\<lambda>ctx. doAccepted rt s ctx input) carrier w)"

section \<open>internal/drivers/handler.go\<close>

type_synonym accepted_port = "(string \<times> string) list \<Rightarrow> AcceptedInput \<Rightarrow> DriverOrderOutput act"

record drivers_handler =
  service_Accepted :: accepted_port

definition NewDriversHandler :: "accepted_port \<Rightarrow> drivers_handler" where
  "NewDriversHandler accepted = \<lparr>service_Accepted = accepted\<rparr>"

definition Handler_accept :: "runtime \<Rightarrow> accepted_port \<Rightarrow> handler" where
  "Handler_accept rt accepted req w =
     (let driverID = GetHeader req ''driver_id''
      in if uuid_Parse rt driverID = None
         then AbortError req (Some (HTTPErr (ValidationError ''driver_id'' ''must be a UUID''))) w
         else
           (let (acceptanceID, w1) = new_uuid w;
                (statusHistoryID, w2) = new_uuid w1;
                (outboxID, w3) = new_uuid w2
            in (case accepted (rq_carrier req)
                  \<lparr>acc_OrderID = Param req ''orderId'', acc_DriverID = driverID,
                   acc_AcceptanceID = acceptanceID, acc_StatusHistoryID = statusHistoryID,
                   acc_OutboxID = outboxID, acc_Payload = NilPayload, acc_EventType = []\<rparr> w3 of
                  (Inl err, w4) \<Rightarrow> AbortError req (Some err) w4
                | (Inr order, w4) \<Rightarrow>
                    (\<lparr>rs_status = 201, rs_body = DriverOrderOutput_json order\<rparr>, w4))))"

end
