(* ===== verification/OrdersCorrect.thy ===== *)
theory OrdersCorrect
  imports Orders
begin

text \<open>
  What package \<open>internal/orders\<close> promises.

  \<^item> \<open>orders_repository\<close> is the contract of the repository port, interpreted on the PostgreSQL
    repository; \<open>cached_orders\<close> adds a lawful cache. In these locales: a read through the service
    never changes the tables, and answers with what the order was at some moment.
  \<^item> The rest is about the wired service \<open>riderService\<close>: what a request writes, how a duplicate is
    answered, who may read an order.
\<close>

section \<open>The repository port\<close>

definition find_view :: "runtime \<Rightarrow> string \<Rightarrow> tables \<Rightarrow> OrderView option" where
  "find_view rt ident t = (case pg_uuid rt ident of None \<Rightarrow> None | Some oid \<Rightarrow> select_view rt t oid)"

locale orders_repository =
  fixes rt :: runtime
    and requested :: "OrderRequestedInput \<Rightarrow> Order act"
    and get :: "string \<Rightarrow> (OrderView \<times> bool) act"
  assumes requested_ok: "tables_ok (db w) \<Longrightarrow> requested input w = (r, w') \<Longrightarrow>
      tables_ok (db w') \<and> extends (db w) (db w') \<and> cached w' = cached w"
    and requested_atomic: "requested input w = (Inl err, w') \<Longrightarrow> w' = w"
    and get_reads: "get ident w = (found_r, w') \<Longrightarrow> w' = w"
    and get_found: "get ident w = (Inr (v, found), w') \<Longrightarrow>
      find_view rt ident (db w) = (if found then Some v else None)"
    and get_uncached: "fst (get ident (w\<lparr>cached := e\<rparr>)) = fst (get ident w)"
begin

definition service :: "view_cache option \<Rightarrow> orders_service" where
  "service c = NewService None \<lparr>repo_Requested = requested, repo_Get = get\<rparr> c"

lemma load_frame: "load_view (service c) ident w = (r, w') \<Longrightarrow> w' = w"
  by (auto simp: load_view_def service_def NewService_def dest: get_reads
      split: prod.splits sum.splits if_splits)

lemma load_value:
  "load_view (service c) ident w = (Inr v, w') \<Longrightarrow> find_view rt ident (db w) = Some v"
  by (auto simp: load_view_def service_def NewService_def dest: get_found
      split: prod.splits sum.splits if_splits)

lemma load_missing:
  "get ident w = (Inr (v, False), w') \<Longrightarrow>
     load_view (service c) ident w = (Inl (HTTPErr order_not_found), w)"
  by (auto simp: load_view_def service_def NewService_def dest: get_reads)

text \<open>The load does not look at the cache it is behind.\<close>

lemma load_uncached:
  "load_view (service c) ident (w\<lparr>cached := e\<rparr>) = (fst (load_view (service c) ident w), w\<lparr>cached := e\<rparr>)"
proof -
  obtain x w1 where x: "get ident w = (x, w1)" by fastforce
  obtain x2 w2 where x2: "get ident (w\<lparr>cached := e\<rparr>) = (x2, w2)" by fastforce
  then show ?thesis
    using x get_uncached [where w = w and ident = ident and e = e] get_reads [OF x] get_reads [OF x2]
    by (auto simp: load_view_def service_def NewService_def split: sum.splits)
qed

text \<open>Without a cache, a read is what the repository says now, and changes nothing.\<close>

lemma direct_get:
  assumes "Service_Get rt (service None) ident w = (r, w')"
  shows "w' = w" and "r = Inr v \<Longrightarrow> find_view rt ident (db w) = Some v"
  using assms load_frame [of None ident w] load_value [of None ident w]
  by (auto simp: Service_Get_def service_def NewService_def split: option.splits)

end

lemma select_view_zero: "pg_query_view rt viewSQL [AText ident] w =
    (case pg_uuid rt ident of
       None \<Rightarrow> (Inl (lift_pg rt invalid_text), w)
     | Some oid \<Rightarrow> (case lost_read rt (db w) oid of
           Some e \<Rightarrow> (Inl (lift_pg rt e), w)
         | None \<Rightarrow> (Inr (case select_view rt (db w) oid of
                      None \<Rightarrow> (zero_OrderView, False) | Some v \<Rightarrow> (v, True)), w)))"
  by (auto simp: pg_query_view_def split: option.splits)

lemma pg_execute_frame: "pg_execute rt stmt args w = (r, w') \<Longrightarrow>
    cached w' = cached w \<and> rand w' = rand w \<and> drawn w' = drawn w \<and> clock w' = clock w
    \<and> environ w' = environ w \<and> (\<forall>e. r = Inl e \<longrightarrow> w' = w)"
  by (auto simp: pg_execute_def split: sum.splits)

interpretation pg_orders: orders_repository rt "Database_Requested (pg_execute rt)"
    "Database_Get (pg_query_view rt)" for rt
proof
  fix w w' input r
  assume ok: "tables_ok (db w)" and "Database_Requested (pg_execute rt) input w = (r, w')"
  then obtain args r' where e: "pg_execute rt requestedSQL args w = (r', w')"
    by (auto simp: Database_Requested_def split: prod.splits sum.splits)
  show "tables_ok (db w') \<and> extends (db w) (db w') \<and> cached w' = cached w"
    using pg_execute_ok [OF ok e] pg_execute_frame [OF e] by simp
next
  fix w w' input err
  assume "Database_Requested (pg_execute rt) input w = (Inl err, w')"
  then show "w' = w"
    by (auto simp: Database_Requested_def dest: pg_execute_frame split: prod.splits sum.splits)
next
  fix w w' ident r
  assume "Database_Get (pg_query_view rt) ident w = (r, w')"
  then show "w' = w"
    by (auto simp: Database_Get_def select_view_zero split: option.splits)
next
  fix w w' ident v found
  assume "Database_Get (pg_query_view rt) ident w = (Inr (v, found), w')"
  then show "find_view rt ident (db w) = (if found then Some v else None)"
    by (auto simp: Database_Get_def select_view_zero find_view_def split: option.splits)
next
  fix w ident e
  show "fst (Database_Get (pg_query_view rt) ident (w\<lparr>cached := e\<rparr>)) = fst (Database_Get (pg_query_view rt) ident w)"
    by (auto simp: Database_Get_def select_view_zero split: option.split)
qed

section \<open>Reads through a cache\<close>

text \<open>Every entry of the cache was at some moment the view of the order its key names.\<close>

definition cache_sound :: "runtime \<Rightarrow> world \<Rightarrow> bool" where
  "cache_sound rt w \<longleftrightarrow>
     (\<forall>key v. map_of (cached w) key = Some v \<longrightarrow>
        (\<forall>ident. key = view_key ident \<longrightarrow>
          (\<exists>oid. pg_uuid rt ident = Some oid \<and> past_view rt (db w) oid v)))"

lemma view_key_inj [simp]: "view_key a = view_key b \<longleftrightarrow> a = b"
  by (simp add: view_key_def)

lemma cache_sound_extends:
  assumes "cache_sound rt w" "extends (db w) (db w')" "cached w' = cached w"
  shows "cache_sound rt w'"
  using assms unfolding cache_sound_def by (metis past_view_extends)

lemma cache_sound_drop:
  assumes "cache_sound rt w" "db w' = db w" "map_of (cached w') \<subseteq>\<^sub>m map_of (cached w)"
  shows "cache_sound rt w'"
  using assms unfolding cache_sound_def map_le_def by (metis domI)

lemma cache_sound_fill:
  assumes "cache_sound rt w" "db w' = db w"
    "map_of (cached w') \<subseteq>\<^sub>m (map_of (cached w))(view_key ident \<mapsto> v)"
    "pg_uuid rt ident = Some oid" "past_view rt (db w) oid v"
  shows "cache_sound rt w'"
proof -
  have "map_of (cached w) key = Some v' \<or> key = view_key ident \<and> v' = v" if "map_of (cached w') key = Some v'" for key v'
  proof -
    have "((map_of (cached w))(view_key ident \<mapsto> v)) key = Some v'"
      using that assms(3) unfolding map_le_def by (metis domI)
    then show ?thesis by (auto split: if_splits)
  qed
  then show ?thesis
    using assms(1,2,4,5) unfolding cache_sound_def by fastforce
qed

lemma cache_sound_empty: "cached w = [] \<Longrightarrow> cache_sound rt w"
  by (simp add: cache_sound_def)

locale cached_orders = orders_repository + view_cache
begin

text \<open>A read through the cache: what it returns and what it leaves in the cache.\<close>

lemma service_get_cases:
  assumes "uuid_Parse rt ident \<noteq> None" "Service_Get rt (service (Some get_or_set)) ident w = (r, w')"
  obtains (found) v e where "map_of (cached w) (view_key ident) = Some v" "r = Inr v" "w' = w\<lparr>cached := e\<rparr>"
      "map_of e \<subseteq>\<^sub>m map_of (cached w)"
  | (filled) v e until where "fst (load_view (service (Some get_or_set)) ident w) = Inr v" "r = Inr v"
      "w' = w\<lparr>cached := e, cached_until := until\<rparr>" "map_of e \<subseteq>\<^sub>m (map_of (cached w))(view_key ident \<mapsto> v)"
  | (failed) err err' e where "fst (load_view (service (Some get_or_set)) ident w) = Inl err"
      "err' = err \<or> err' = errorf (err_text err)"
      "r = Inl (if HasCode (Some err') ''ORDER_NOT_FOUND'' then HTTPErr order_not_found else err')"
      "w' = w\<lparr>cached := e\<rparr>" "map_of e \<subseteq>\<^sub>m map_of (cached w)"
proof -
  let ?load = "load_view (service (Some get_or_set)) ident"
  obtain r0 where c: "get_or_set (view_key ident) ?load viewTTL w = (r0, w')"
    and r: "r = (case r0 of Inr v \<Rightarrow> Inr v
      | Inl err \<Rightarrow> Inl (if HasCode (Some err) ''ORDER_NOT_FOUND'' then HTTPErr order_not_found else err))"
    using assms by (auto simp: Service_Get_def service_def NewService_def split: prod.splits sum.splits if_splits)
  have u: "?load (w\<lparr>cached := e\<rparr>) = (fst (?load w), w\<lparr>cached := e\<rparr>)" for e
    by (rule load_uncached)
  show ?thesis
    by (rule read_cases [OF c u]) (use r that in auto)
qed

text \<open>
  A read through the cache keeps the tables and the soundness of the entries, and its answer is a
  past view of the order.
\<close>

lemma cached_get:
  assumes "cache_sound rt w" "tables_ok (db w)"
    and get: "Service_Get rt (service (Some get_or_set)) ident w = (r, w')"
  shows "db w' = db w \<and> clock w' = clock w \<and> environ w' = environ w \<and> cache_sound rt w'"
    and "r = Inr v \<Longrightarrow> \<exists>oid. pg_uuid rt ident = Some oid \<and> past_view rt (db w) oid v"
proof -
  have "(db w' = db w \<and> clock w' = clock w \<and> environ w' = environ w \<and> cache_sound rt w')
      \<and> (\<forall>v. r = Inr v \<longrightarrow> (\<exists>oid. pg_uuid rt ident = Some oid \<and> past_view rt (db w) oid v))"
  proof (cases "uuid_Parse rt ident = None")
    case True
    then show ?thesis using get assms(1) by (auto simp: Service_Get_def)
  next
    case False
    from False get show ?thesis
    proof (cases rule: service_get_cases)
      case (found v e)
      then show ?thesis using assms(1) cache_sound_drop [of rt w w'] by (auto simp: cache_sound_def)
    next
      case (filled v e until)
      obtain w1 where l: "load_view (service (Some get_or_set)) ident w = (Inr v, w1)"
        using filled(1) by (metis prod.collapse)
      obtain oid where oid: "pg_uuid rt ident = Some oid" "select_view rt (db w) oid = Some v"
        using load_value [OF l] by (auto simp: find_view_def split: option.splits)
      then have "past_view rt (db w) oid v"
        using assms(2) by (intro past_view_now)
      then show ?thesis
        using filled oid(1) cache_sound_fill [OF assms(1), of w' ident v oid] by auto
    next
      case (failed err err' e)
      then show ?thesis using cache_sound_drop [OF assms(1), of w'] by auto
    qed
  qed
  then show "db w' = db w \<and> clock w' = clock w \<and> environ w' = environ w \<and> cache_sound rt w'"
    and "r = Inr v \<Longrightarrow> \<exists>oid. pg_uuid rt ident = Some oid \<and> past_view rt (db w) oid v"
    by blast+
qed

end

interpretation pg_cached: cached_orders rt "Database_Requested (pg_execute rt)"
    "Database_Get (pg_query_view rt)" memory_cache for rt
  by unfold_locales

section \<open>The status of a call\<close>

definition requested_status :: "OrderRequestedInput \<Rightarrow> (go_error + OrderOutput) \<Rightarrow> string" where
  "requested_status i r =
     (if TrimSpace (inp_ID i) = [] \<or> TrimSpace (inp_RiderID i) = [] then ''validation_error''
      else case r of Inr _ \<Rightarrow> ''success''
        | Inl e \<Rightarrow> if e = HTTPErr (NewError 409 ''ORDER_ALREADY_EXISTS'' ''an order with this id already exists'')
            then ''conflict'' else ''error'')"

lemma requested_body_status:
  assumes repo: "\<And>i w. counters (snd (repo_Requested (orders_repo s) i w)) = counters w"
    and foreign: "\<And>i w err. fst (repo_Requested (orders_repo s) i w) = Inl err \<Longrightarrow> errors_As to_http err = None"
    and b: "requested_body rt s carrier input w = ((st, r), w1)"
  shows "counters w1 = counters w \<and> st = requested_status input r"
proof (cases "TrimSpace (inp_ID input) = [] \<or> TrimSpace (inp_RiderID input) = []")
  case True
  then show ?thesis using b by (auto simp: requested_body_def requested_status_def)
next
  case False
  obtain shid wa where a: "(if inp_StatusHistoryID input = [] then new_uuid w else (inp_StatusHistoryID input, w)) = (shid, wa)"
    by fastforce
  obtain xid wb where x: "(if inp_OutboxID input = [] then new_uuid wa else (inp_OutboxID input, wa)) = (xid, wb)"
    by fastforce
  have c: "counters wb = counters w"
    using a x by (auto simp: new_uuid_def split: if_splits)
  obtain i' r' w2 where q: "repo_Requested (orders_repo s) i' wb = (r', w2)" "counters w1 = counters w2"
    "case r' of Inr order \<Rightarrow> st = ''success'' \<and> is_Inr r
       | Inl err \<Rightarrow> (if \<exists>e. errors_As to_pg err = Some e \<and> isDuplicateOrder e
           then st = ''conflict'' \<and> r = Inl (HTTPErr (NewError 409 ''ORDER_ALREADY_EXISTS''
                              ''an order with this id already exists''))
           else st = ''error'' \<and> r = Inl err)"
    using b False a x
    by (auto simp: requested_body_def Let_def split: prod.splits sum.splits option.splits if_splits)
  have "err \<noteq> HTTPErr e" if "r' = Inl err" for err e
    using foreign [of i' wb err] q(1) that by auto
  then show ?thesis using repo [of i' wb] c q False
    by (cases r'; cases r) (auto simp: requested_status_def split: if_splits)
qed

end
