(* ===== verification/RiderService.thy ===== *)
theory RiderService
  imports OrdersCorrect
begin

text \<open>
  The rider side of the API as \<open>cmd/platform/main.go\<close> wires it: the orders service over the
  PostgreSQL repository, with telemetry and cache present or not.
\<close>

section \<open>Wiring\<close>

definition riderService ::
    "runtime \<Rightarrow> (OrderOutput \<times> go_error option) worker option \<Rightarrow> view_cache option \<Rightarrow> orders_service" where
  "riderService rt t c =
     NewService t (as_Repository (orders_NewRepository (pg_DB rt))) c"

lemma orders_database [simp]:
  "as_Repository (orders_NewRepository (pg_DB rt)) =
     \<lparr>repo_Requested = Database_Requested (pg_execute rt), repo_Get = Database_Get (pg_query_view rt)\<rparr>"
proof -
  have "orders_execute (pg_DB rt) = pg_execute rt" "queryView (pg_DB rt) = pg_query_view rt"
    by (intro ext; simp add: orders_execute_def queryView_def pg_DB_def)+
  then show ?thesis by (simp add: as_Repository_def orders_NewRepository_def)
qed

lemma riderService_eq:
  "riderService rt t c = NewService t
     \<lparr>repo_Requested = Database_Requested (pg_execute rt), repo_Get = Database_Get (pg_query_view rt)\<rparr> c"
  by (simp add: riderService_def)

lemma riderService_sel [simp]:
  "tel (riderService rt t c) = t" "cache (riderService rt t c) = c"
  "repo_Requested (orders_repo (riderService rt t c)) = Database_Requested (pg_execute rt)"
  "repo_Get (orders_repo (riderService rt t c)) = Database_Get (pg_query_view rt)"
  by (simp_all add: riderService_def NewService_def)

lemma rider_load_tel: "load_view (riderService rt t c) = load_view (pg_orders.service rt c)"
  by (intro ext) (simp add: load_view_def riderService_def pg_orders.service_def NewService_def)

lemma service_cache: "cache (pg_orders.service rt c) = c"
  by (simp add: pg_orders.service_def NewService_def)

lemma rider_get_tel: "Service_Get rt (riderService rt t c) = Service_Get rt (pg_orders.service rt c)"
  by (intro ext) (simp add: Service_Get_def rider_load_tel service_cache split: option.split)

text \<open>With telemetry or without, a request is \<open>doRequested\<close>, in the context of the job.\<close>

lemma Service_Requested_eq:
  assumes "tel_ok (tel s)"
  shows "Service_Requested rt s carrier input w =
    doRequested rt s (job_carrier (tel s) ''orders.requested'' carrier w) input w"
  using assms by (cases "tel s") (simp_all add: Service_Requested_def tel_ok_def run_job_transparent)

section \<open>Reading an order\<close>

lemma pg_behind: "view_cache g \<Longrightarrow> cached_orders rt (Database_Requested (pg_execute rt)) (Database_Get (pg_query_view rt)) g"
  by (intro cached_orders.intro pg_orders.orders_repository_axioms)

lemma rider_get_frame:
  assumes "known_cache c" "cache_sound rt w" "tables_ok (db w)"
    and "Service_Get rt (riderService rt t c) ident w = (r, w')"
  shows "db w' = db w" and "cache_sound rt w'" and "clock w' = clock w" and "environ w' = environ w"
    and "r = Inr v \<Longrightarrow> \<exists>oid. pg_uuid rt ident = Some oid \<and> past_view rt (db w) oid v"
proof -
  have g: "Service_Get rt (pg_orders.service rt c) ident w = (r, w')"
    using assms(4) by (simp add: rider_get_tel)
  have "db w' = db w \<and> clock w' = clock w \<and> environ w' = environ w \<and> cache_sound rt w'
    \<and> (\<forall>v. r = Inr v \<longrightarrow> (\<exists>oid. pg_uuid rt ident = Some oid \<and> past_view rt (db w) oid v))"
  proof (cases c)
    case None
    then have "w' = w"
      using pg_orders.direct_get(1) g by blast
    moreover have "find_view rt ident (db w) = Some v" if "r = Inr v" for v
      using pg_orders.direct_get(2) g None that by blast
    ultimately show ?thesis
      using assms(2,3) by (auto simp: find_view_def intro: past_view_now split: option.splits)
  next
    case (Some h)
    then have "view_cache h" using assms(1) by simp
    from cached_orders.cached_get [OF pg_behind [OF this] assms(2,3) g [unfolded Some]]
    show ?thesis by blast
  qed
  then show "db w' = db w" "cache_sound rt w'" "clock w' = clock w" "environ w' = environ w"
    "r = Inr v \<Longrightarrow> \<exists>oid. pg_uuid rt ident = Some oid \<and> past_view rt (db w) oid v"
    by blast+
qed

lemma load_pg:
  assumes "pg_uuid rt ident = Some oid"
  shows "load_view (riderService rt t c) ident w =
    ((case lost_read rt (db w) oid of
        Some e \<Rightarrow> Inl (lift_pg rt e)
      | None \<Rightarrow> (case select_view rt (db w) oid of None \<Rightarrow> Inl (HTTPErr order_not_found) | Some v \<Rightarrow> Inr v)), w)"
  using assms by (simp add: load_view_def Database_Get_def select_view_zero split: option.splits)

text \<open>The error a failed load becomes: the service looks for its own 404 in it, the cache may have lost its type.\<close>

definition read_error :: "go_error \<Rightarrow> go_error \<Rightarrow> bool" where
  "read_error err x \<longleftrightarrow> (\<exists>err'. (err' = err \<or> err' = errorf (err_text err))
     \<and> x \<in> {err', if HasCode (Some err') ''ORDER_NOT_FOUND'' then HTTPErr order_not_found else err'})"

lemma read_error_not_found:
  "HasCode (Some (HTTPErr order_not_found)) ''ORDER_NOT_FOUND''"
  "HasCode (Some (errorf (err_text (HTTPErr order_not_found)))) ''ORDER_NOT_FOUND''"
  using HasCode_flattened [of order_not_found] by (simp_all add: order_not_found_def)

text \<open>What a read gives, whatever the cache: an entry, or what the database says now.\<close>

lemma rider_get_cases:
  assumes "known_cache c" "uuid_Parse rt ident \<noteq> None" "pg_uuid rt ident = Some oid"
    and "Service_Get rt (riderService rt t c) ident w = (r, w')"
  obtains (found) v where "map_of (cached w) (view_key ident) = Some v" "r = Inr v"
  | (loaded) v where "lost_read rt (db w) oid = None" "select_view rt (db w) oid = Some v" "r = Inr v"
  | (missing) "lost_read rt (db w) oid = None" "select_view rt (db w) oid = None" "r = Inl (HTTPErr order_not_found)"
      "w' = w\<lparr>cached := cached w'\<rparr>" "map_of (cached w') \<subseteq>\<^sub>m map_of (cached w)"
  | (lost) e x where "lost_read rt (db w) oid = Some e" "r = Inl x" "read_error (lift_pg rt e) x"
proof (cases c)
  case None
  then have g: "load_view (riderService rt t c) ident w = (r, w')"
    using assms(2,4) by (auto simp: Service_Get_def)
  show ?thesis
    using g that by (auto simp: load_pg [OF assms(3)] read_error_def split: option.splits)
next
  case (Some h)
  have h: "view_cache h" using assms(1) Some by simp
  have g: "Service_Get rt (pg_orders.service rt (Some h)) ident w = (r, w')"
    using assms(4) Some by (simp add: rider_get_tel)
  have l: "fst (load_view (pg_orders.service rt (Some h)) ident w) =
      (case lost_read rt (db w) oid of
        Some e \<Rightarrow> Inl (lift_pg rt e)
      | None \<Rightarrow> (case select_view rt (db w) oid of None \<Rightarrow> Inl (HTTPErr order_not_found) | Some v \<Rightarrow> Inr v))"
    using load_pg [OF assms(3), of t "Some h" w] by (simp add: rider_load_tel)
  show ?thesis
  proof (rule cached_orders.service_get_cases [OF pg_behind [OF h] assms(2) g], goal_cases)
    case (1 v e)
    then show ?thesis using that(1) by simp
  next
    case (2 v e until)
    then show ?thesis using l that(2) by (auto split: option.splits)
  next
    case failed: (3 err err' e)
    then have w': "w' = w\<lparr>cached := cached w'\<rparr>" "map_of (cached w') \<subseteq>\<^sub>m map_of (cached w)" by simp_all
    show ?thesis
    proof (cases "lost_read rt (db w) oid")
      case None
      then have "err = HTTPErr order_not_found" "select_view rt (db w) oid = None"
        using failed(1) l by (auto split: option.splits)
      then show ?thesis
        using that(3) None failed(2,3) read_error_not_found w' by auto
    next
      case (Some e)
      then have "err = lift_pg rt e" using failed(1) l by simp
      then show ?thesis
        using that(4) Some failed(2,3) unfolding read_error_def by blast
    qed
  qed
qed

text \<open>An order that exists is found and one that does not is a 404, unless the read fails.\<close>

lemma rider_get_present:
  assumes "runtime_ok rt" "known_cache c" "tables_ok (db w)" "lost_read rt (db w) oid = None"
    and "uuid_Parse rt ident \<noteq> None" "pg_uuid rt ident = Some oid" "abs_tables (db w) oid \<noteq> None"
  shows "\<exists>v w'. Service_Get rt (riderService rt t c) ident w = (Inr v, w')"
proof -
  obtain r w' where g: "Service_Get rt (riderService rt t c) ident w = (r, w')" by fastforce
  from assms(2,5,6) g show ?thesis
    by (cases rule: rider_get_cases) (use g select_view_None [OF assms(3,1), of oid] assms(4,7) in auto)
qed

lemma no_entry:
  assumes "runtime_ok rt" "tables_ok (db w)" "cache_sound rt w"
    and "pg_uuid rt ident = Some oid" "abs_tables (db w) oid = None"
  shows "map_of (cached w) (view_key ident) = None"
proof (rule ccontr)
  assume "\<not> ?thesis"
  then obtain v where "past_view rt (db w) oid v"
    using assms(3,4) unfolding cache_sound_def by fastforce
  then obtain t0 where t0: "tables_ok t0" "extends t0 (db w)" "select_view rt t0 oid = Some v"
    by (auto simp: past_view_def)
  then have "abs_tables t0 oid \<noteq> None"
    using select_view_None [OF t0(1) assms(1)] by (metis option.distinct(1))
  then show False
    using abs_tables_extends [OF t0(2)] assms(5) by fastforce
qed

lemma rider_get_absent:
  assumes "runtime_ok rt" "known_cache c" "tables_ok (db w)" "cache_sound rt w" "lost_read rt (db w) oid = None"
    and "uuid_Parse rt ident \<noteq> None" "pg_uuid rt ident = Some oid" "abs_tables (db w) oid = None"
  shows "\<exists>w'. Service_Get rt (riderService rt t c) ident w = (Inl (HTTPErr order_not_found), w')
    \<and> w' = w\<lparr>cached := cached w'\<rparr> \<and> map_of (cached w') \<subseteq>\<^sub>m map_of (cached w)"
proof -
  obtain r w' where g: "Service_Get rt (riderService rt t c) ident w = (r, w')" by fastforce
  have "select_view rt (db w) oid = None"
    using select_view_None [OF assms(3,1)] assms(8) by simp
  moreover have "map_of (cached w) (view_key ident) = None"
    using no_entry [OF assms(1,3,4,7,8)] .
  ultimately show ?thesis
    by (cases rule: rider_get_cases [OF assms(2,6,7) g]) (use g assms(5) in auto)
qed

lemma past_view_rider:
  assumes "runtime_ok rt" "past_view rt t oid v"
  shows "\<exists>rd. abs_tables t oid = Some rd \<and> view_RiderID v = uuid_string (rider rd)
           \<and> view_ID v = uuid_string oid"
proof -
  obtain t0 where t0: "tables_ok t0" "extends t0 t" "select_view rt t0 oid = Some v"
    using assms(2) by (auto simp: past_view_def)
  obtain rd where rd: "abs_tables t0 oid = Some rd" "view_RiderID v = uuid_string (rider rd)"
    "view_ID v = uuid_string oid"
    using select_view_ride [OF t0(1) assms(1) t0(3)] by metis
  then show ?thesis
    using abs_tables_extends [OF t0(2) rd(1)] by auto
qed

text \<open>
  The whole answer of the GET handler, for an order id the database can read: the view for the rider
  who made the order, the same 404 for everybody else and for an order that does not exist, or the error
  of a failed read.
\<close>

lemma get_status:
  assumes rt: "runtime_ok rt" and c: "known_cache c" and ok: "tables_ok (db w)" "cache_sound rt w"
    and id: "uuid_Parse rt (Param req ''orderId'') \<noteq> None"
      "pg_uuid rt (Param req ''orderId'') = Some oid"
    and hdr: "uuid_Parse rt (GetHeader req ''rider_id'') \<noteq> None"
  shows "fst (Handler_get rt (Service_Get rt (riderService rt t c)) req w) =
           \<lparr>rs_status = 404, rs_body = error_envelope ''ORDER_NOT_FOUND'' ''order not found''\<rparr>
         \<and> (abs_tables (db w) oid = None
            \<or> (\<exists>rd. abs_tables (db w) oid = Some rd
                 \<and> uuid_string (rider rd) \<noteq> GetHeader req ''rider_id''))
       \<or> (\<exists>v rd. fst (Handler_get rt (Service_Get rt (riderService rt t c)) req w) =
             \<lparr>rs_status = 200, rs_body = OrderView_json (fmt_float rt) (fmt_time rt) v\<rparr>
           \<and> past_view rt (db w) oid v \<and> abs_tables (db w) oid = Some rd
           \<and> view_RiderID v = uuid_string (rider rd)
           \<and> uuid_string (rider rd) = GetHeader req ''rider_id'')
       \<or> (\<exists>e x. lost_read rt (db w) oid = Some e \<and> read_error (lift_pg rt e) x
           \<and> fst (Handler_get rt (Service_Get rt (riderService rt t c)) req w) = fst (AbortError req (Some x) w))"
proof -
  obtain r w' where g: "Service_Get rt (riderService rt t c) (Param req ''orderId'') w = (r, w')" by fastforce
  have gets: "Handler_get rt (Service_Get rt (riderService rt t c)) req w =
      (case r of Inl err \<Rightarrow> AbortError req (Some err) w'
       | Inr view \<Rightarrow> if view_RiderID view \<noteq> GetHeader req ''rider_id'' then AbortError req (Some (HTTPErr order_not_found)) w'
           else (\<lparr>rs_status = 200, rs_body = OrderView_json (fmt_float rt) (fmt_time rt) view\<rparr>, w'))"
    using hdr g by (auto simp: Handler_get_def Let_def split: sum.split)
  have nf: "fst (AbortError req (Some (HTTPErr order_not_found)) w') =
      \<lparr>rs_status = 404, rs_body = error_envelope ''ORDER_NOT_FOUND'' ''order not found''\<rparr>"
    by (simp add: AbortError_typed order_not_found_def)
  have shown: ?thesis if v: "r = Inr v" for v
  proof -
    have p: "past_view rt (db w) oid v"
      using rider_get_frame(5) [OF c ok(2,1) g v] id(2) by auto
    obtain rd where "abs_tables (db w) oid = Some rd" "view_RiderID v = uuid_string (rider rd)"
      using past_view_rider [OF rt p] by blast
    then show ?thesis
      using v p nf unfolding gets by auto
  qed
  from c id g show ?thesis
  proof (cases rule: rider_get_cases)
    case missing
    then show ?thesis
      using select_view_None [OF ok(1) rt, of oid] nf unfolding gets by simp
  next
    case (lost e x)
    have "AbortError req (Some x) w' = (fst (AbortError req (Some x) w'), snd (AbortError req (Some x) w'))" by simp
    then show ?thesis using lost AbortError_response unfolding gets by auto
  qed (use shown in blast)+
qed

end
