(* ===== verification/RiderRequests.thy ===== *)
theory RiderRequests
  imports RiderService
begin

text \<open>
  What a ride request writes: the repository call, the service over it, and the POST handler.
\<close>

section \<open>The repository call\<close>

lemma pg_jsonb_event [simp]:
  "pg_jsonb (InjectTraceContext c (Marshal_requested ff e)) \<noteq> None"
  by (auto simp: InjectTraceContext_def Marshal_requested_def split: payload.splits json.splits)

lemma Database_Requested_pg:
  assumes "pg_uuid rt (inp_ID i) = Some oid" "pg_uuid rt (inp_RiderID i) = Some r"
    "pg_uuid rt (inp_StatusHistoryID i) = Some h" "pg_uuid rt (inp_OutboxID i) = Some x"
    "pg_jsonb (inp_Payload i) = Some j"
  obtains d where "request_delta oid d" "delta_rider d = r"
    "outbox_events d = [\<lparr>x_id = x, x_aggregate_type = ''order'', x_aggregate_id = oid,
       x_event_type = inp_EventType i, x_event_version = 1, x_payload = j\<rparr>]"
    "Database_Requested (pg_execute rt) i w =
       (case commit rt d (db w) of
          Inl e \<Rightarrow> (Inl (lift_pg rt e), w)
        | Inr t \<Rightarrow>
            (Inr \<lparr>ord_ID = inp_ID i, ord_RiderID = inp_RiderID i,
               ord_PickupLatitude = inp_PickupLatitude i, ord_PickupLongitude = inp_PickupLongitude i,
               ord_DestinationLatitude = inp_DestinationLatitude i,
               ord_DestinationLongitude = inp_DestinationLongitude i\<rparr>, w\<lparr>db := t\<rparr>))"
proof -
  let ?args = "[AText (inp_ID i), AText (inp_RiderID i), AFloat (inp_PickupLatitude i),
          AFloat (inp_PickupLongitude i), AFloat (inp_DestinationLatitude i),
          AFloat (inp_DestinationLongitude i), AText (inp_StatusHistoryID i), AText (inp_OutboxID i),
          ABytes (inp_Payload i), AText (inp_EventType i)]"
  define d where "d = projr (requested_plan rt (clock w) ?args)"
  have d: "requested_plan rt (clock w) ?args = Inr d"
    using assms by (simp add: d_def requested_plan_def)
  have "request_delta oid d" "delta_rider d = r"
    "outbox_events d = [\<lparr>x_id = x, x_aggregate_type = ''order'', x_aggregate_id = oid,
       x_event_type = inp_EventType i, x_event_version = 1, x_payload = j\<rparr>]"
    using assms by (simp_all add: d_def requested_plan_def request_delta_def delta_rider_def)
  moreover have "Database_Requested (pg_execute rt) i w =
       (case commit rt d (db w) of
          Inl e \<Rightarrow> (Inl (lift_pg rt e), w)
        | Inr t \<Rightarrow>
            (Inr \<lparr>ord_ID = inp_ID i, ord_RiderID = inp_RiderID i,
               ord_PickupLatitude = inp_PickupLatitude i, ord_PickupLongitude = inp_PickupLongitude i,
               ord_DestinationLatitude = inp_DestinationLatitude i,
               ord_DestinationLongitude = inp_DestinationLongitude i\<rparr>, w\<lparr>db := t\<rparr>))"
    by (simp add: Database_Requested_def pg_execute_def plan_def d split: sum.split)
  ultimately show thesis by (rule that)
qed

section \<open>The service call\<close>

text \<open>An input as the handler builds it: ids that can be cast, the generated fields still empty.\<close>

definition request_input :: "runtime \<Rightarrow> OrderRequestedInput \<Rightarrow> uuid \<Rightarrow> uuid \<Rightarrow> bool" where
  "request_input rt i oid r \<longleftrightarrow>
     pg_uuid rt (inp_ID i) = Some oid \<and> pg_uuid rt (inp_RiderID i) = Some r
     \<and> TrimSpace (inp_ID i) \<noteq> [] \<and> TrimSpace (inp_RiderID i) \<noteq> []
     \<and> inp_StatusHistoryID i = [] \<and> inp_OutboxID i = []"

definition output_of_input :: "OrderRequestedInput \<Rightarrow> OrderOutput" where
  "output_of_input i = \<lparr>out_ID = inp_ID i, out_RiderID = inp_RiderID i,
     out_PickupLatitude = inp_PickupLatitude i, out_PickupLongitude = inp_PickupLongitude i,
     out_DestinationLatitude = inp_DestinationLatitude i,
     out_DestinationLongitude = inp_DestinationLongitude i\<rparr>"

text \<open>The event row a request leaves in the outbox.\<close>

definition requested_event :: "runtime \<Rightarrow> (string \<times> string) list \<Rightarrow> OrderRequestedInput \<Rightarrow> uuid \<Rightarrow> world
    \<Rightarrow> outbox_row" where
  "requested_event rt carrier i oid w =
     (let xid = rand w (Suc (drawn w));
          event = \<lparr>or_EventID = uuid_string xid, or_EventVersion = 1, or_OccurredAt = clock w,
            or_OrderID = inp_ID i, or_RiderID = inp_RiderID i,
            or_PickupLatitude = inp_PickupLatitude i, or_PickupLongitude = inp_PickupLongitude i,
            or_DestinationLatitude = inp_DestinationLatitude i,
            or_DestinationLongitude = inp_DestinationLongitude i\<rparr>
      in \<lparr>x_id = xid, x_aggregate_type = ''order'', x_aggregate_id = oid,
          x_event_type = OrderRequested_MessageType (environ w), x_event_version = 1,
          x_payload =
            the (pg_jsonb (InjectTraceContext carrier (Marshal_requested (fmt_float rt) event)))\<rparr>)"

text \<open>What \<open>doRequested\<close> makes of an error of the repository.\<close>

definition order_already_exists :: http_error where
  "order_already_exists = NewError 409 ''ORDER_ALREADY_EXISTS'' ''an order with this id already exists''"

definition requested_error :: "go_error \<Rightarrow> go_error" where
  "requested_error err =
     (case errors_As to_pg err of
        Some pgErr \<Rightarrow> if isDuplicateOrder pgErr then HTTPErr order_already_exists else err
      | None \<Rightarrow> err)"

text \<open>One call of the service, by what the commit of its plan says.\<close>

lemma doRequested_pg:
  assumes rt: "runtime_ok rt" and i: "request_input rt i oid r"
  obtains d where "request_delta oid d" "delta_rider d = r"
    "outbox_events d = [requested_event rt carrier i oid w]"
    "\<And>t'. commit rt d (db w) = Inr t' \<Longrightarrow>
       \<exists>w'. doRequested rt (riderService rt t c) carrier i w = (Inr (output_of_input i), w')
         \<and> db w' = t' \<and> cached w' = cached w"
    "\<And>e. commit rt d (db w) = Inl e \<Longrightarrow>
       \<exists>w'. doRequested rt (riderService rt t c) carrier i w =
         (Inl (requested_error (lift_pg rt e)), w')
         \<and> db w' = db w \<and> cached w' = cached w"
proof -
  define w2 where "w2 = snd (new_uuid (snd (new_uuid w)))"
  define xid where "xid = rand w (Suc (drawn w))"
  define event where "event = \<lparr>or_EventID = uuid_string xid, or_EventVersion = 1, or_OccurredAt = clock w,
            or_OrderID = inp_ID i, or_RiderID = inp_RiderID i,
            or_PickupLatitude = inp_PickupLatitude i, or_PickupLongitude = inp_PickupLongitude i,
            or_DestinationLatitude = inp_DestinationLatitude i,
            or_DestinationLongitude = inp_DestinationLongitude i\<rparr>"
  define i' where "i' = i\<lparr>inp_StatusHistoryID := uuid_string (rand w (drawn w)),
      inp_OutboxID := uuid_string xid,
      inp_Payload := InjectTraceContext carrier (Marshal_requested (fmt_float rt) event),
      inp_EventType := OrderRequested_MessageType (environ w)\<rparr>"
  have "pg_jsonb (inp_Payload i') \<noteq> None"
    by (simp add: i'_def)
  then obtain j where j: "pg_jsonb (inp_Payload i') = Some j"
    by blast
  have p: "pg_uuid rt (inp_ID i') = Some oid" "pg_uuid rt (inp_RiderID i') = Some r"
    "pg_uuid rt (inp_StatusHistoryID i') = Some (rand w (drawn w))" "pg_uuid rt (inp_OutboxID i') = Some xid"
    using i runtime_okD(2) [OF rt] by (simp_all add: i'_def request_input_def)
  obtain d where d: "request_delta oid d" "delta_rider d = r"
    "outbox_events d = [\<lparr>x_id = xid, x_aggregate_type = ''order'', x_aggregate_id = oid,
       x_event_type = inp_EventType i', x_event_version = 1, x_payload = j\<rparr>]"
    "Database_Requested (pg_execute rt) i' w2 =
       (case commit rt d (db w2) of
          Inl e \<Rightarrow> (Inl (lift_pg rt e), w2)
        | Inr t \<Rightarrow>
            (Inr \<lparr>ord_ID = inp_ID i', ord_RiderID = inp_RiderID i',
               ord_PickupLatitude = inp_PickupLatitude i', ord_PickupLongitude = inp_PickupLongitude i',
               ord_DestinationLatitude = inp_DestinationLatitude i',
               ord_DestinationLongitude = inp_DestinationLongitude i'\<rparr>, w2\<lparr>db := t\<rparr>))"
    using Database_Requested_pg [OF p j, of w2] by blast
  have body: "requested_body rt (riderService rt t c) carrier i w =
      (case Database_Requested (pg_execute rt) i' w2 of
              (Inl err, w3) \<Rightarrow>
                (case errors_As to_pg err of
                   Some pgErr \<Rightarrow>
                     if isDuplicateOrder pgErr
                     then ((''conflict'',
                            Inl (HTTPErr (NewError 409 ''ORDER_ALREADY_EXISTS''
                              ''an order with this id already exists''))), w3)
                     else ((''error'', Inl err), w3)
                 | None \<Rightarrow> ((''error'', Inl err), w3))
            | (Inr order, w3) \<Rightarrow>
                ((''success'', Inr (OrderOutput_of order)),
                 if tel (riderService rt t c) \<noteq> None
                 then add_log (Log Info ''order requested''
                   [(''order_id'', inp_ID i), (''rider_id'', inp_RiderID i)]) w3
                 else w3))"
    using i by (simp add: requested_body_def request_input_def new_uuid_def Let_def w2_def i'_def
        event_def xid_def)
  have w2: "db w2 = db w" "cached w2 = cached w"
    by (simp_all add: w2_def)
  have x: "outbox_events d = [requested_event rt carrier i oid w]"
    using d(3) j by (simp add: requested_event_def Let_def i'_def event_def xid_def)
  show thesis
  proof (rule that [OF d(1,2) x])
    fix t' assume "commit rt d (db w) = Inr t'"
    then show "\<exists>w'. doRequested rt (riderService rt t c) carrier i w = (Inr (output_of_input i), w')
         \<and> db w' = t' \<and> cached w' = cached w"
      using d(4) w2 by (simp add: doRequested_def body OrderOutput_of_def output_of_input_def i'_def)
  next
    fix e assume "commit rt d (db w) = Inl e"
    then show "\<exists>w'. doRequested rt (riderService rt t c) carrier i w =
         (Inl (requested_error (lift_pg rt e)), w')
         \<and> db w' = db w \<and> cached w' = cached w"
      using d(4) w2
      by (simp add: doRequested_def body requested_error_def order_already_exists_def split: option.split)
  qed
qed

text \<open>
  A request for an order that does not exist writes it: the ride waits for a driver, and the outbox
  has one more event.
\<close>

lemma rider_request_new:
  assumes rt: "runtime_ok rt" "\<And>t d. refuse rt t d = None" and ok: "tables_ok (db w)" and tel: "tel_ok t"
    and i: "request_input rt i oid r" and new: "abs_tables (db w) oid = None"
  obtains w' where "Service_Requested rt (riderService rt t c) carrier i w = (Inr (output_of_input i), w')"
    "abs_tables (db w') = (abs_tables (db w))(oid \<mapsto> Waiting r)"
    "outbox_events (db w') = outbox_events (db w) @ [requested_event rt (job_carrier t ''orders.requested'' carrier w) i oid w]"
    "tables_ok (db w')" "extends (db w) (db w')" "cached w' = cached w"
proof -
  let ?k = "job_carrier t ''orders.requested'' carrier w"
  obtain d where d: "request_delta oid d" "delta_rider d = r"
    "outbox_events d = [requested_event rt (job_carrier t ''orders.requested'' carrier w) i oid w]"
    and s: "\<And>t'. commit rt d (db w) = Inr t' \<Longrightarrow>
       \<exists>w'. doRequested rt (riderService rt t c) ?k i w = (Inr (output_of_input i), w')
         \<and> db w' = t' \<and> cached w' = cached w"
    by (rule doRequested_pg [OF rt(1) i, of ?k w t c]) (rule that, assumption+)
  have c: "commit rt d (db w) = Inr (insert_rows d (db w))"
    using hist_of_abs(3) [OF ok new] ok d(1) by (simp add: commit_def rt(2) violations_request_ok)
  from s [OF this] obtain w' where
    w': "doRequested rt (riderService rt t c) ?k i w = (Inr (output_of_input i), w')"
    "db w' = insert_rows d (db w)" "cached w' = cached w"
    by blast
  show thesis
  proof (rule that [of w'])
    show "Service_Requested rt (riderService rt t c) carrier i w = (Inr (output_of_input i), w')"
      using w'(1) tel by (simp add: Service_Requested_eq)
    show "abs_tables (db w') = (abs_tables (db w))(oid \<mapsto> Waiting r)"
      using abs_tables_request [OF ok d(1) new] w'(2) d(2) by simp
    show "outbox_events (db w') = outbox_events (db w) @ [requested_event rt (job_carrier t ''orders.requested'' carrier w) i oid w]"
      using w'(2) d(3) by simp
    show "tables_ok (db w')"
      using commit_tables_ok [OF ok _ c] d(1) w'(2) by (auto simp: wf_delta_def)
    show "extends (db w) (db w')" "cached w' = cached w"
      using w'(2,3) by simp_all
  qed
qed

text \<open>
  A request for an order that exists is a 409, whichever of the two constraints the server reports,
  and writes nothing.
\<close>

lemma rider_request_duplicate:
  assumes rt: "runtime_ok rt" "\<And>t d. refuse rt t d = None" "\<And>e. errors_As to_pg (lift_pg rt e) = Some e"
    and ok: "tables_ok (db w)" and tel: "tel_ok t"
    and i: "request_input rt i oid r" and old: "abs_tables (db w) oid \<noteq> None"
  obtains w' where "Service_Requested rt (riderService rt t c) carrier i w =
      (Inl (HTTPErr order_already_exists), w')"
    "db w' = db w"
proof -
  let ?k = "job_carrier t ''orders.requested'' carrier w"
  obtain d where d: "request_delta oid d"
    and s: "\<And>e. commit rt d (db w) = Inl e \<Longrightarrow>
       \<exists>w'. doRequested rt (riderService rt t c) ?k i w =
         (Inl (requested_error (lift_pg rt e)), w')
         \<and> db w' = db w \<and> cached w' = cached w"
    by (rule doRequested_pg [OF rt(1) i, of ?k w t c]) (rule that, assumption+)
  have v: "violations d (db w) = [orders_pkey, history_key]"
    using violations_request_ok [OF ok d] abs_tables_hist(1) [OF ok] old by simp
  define k where "k = reported rt [orders_pkey, history_key]"
  have "k \<in> {orders_pkey, history_key}"
    using runtime_okD(5) [OF rt(1), of "[orders_pkey, history_key]"] by (simp add: k_def)
  then have "isDuplicateOrder (unique_violation k)"
    by (auto simp: isDuplicateOrder_def unique_violation_def)
  moreover have "commit rt d (db w) = Inl (unique_violation k)"
    by (simp add: commit_def rt(2) v k_def)
  ultimately obtain w' where "doRequested rt (riderService rt t c) ?k i w =
      (Inl (HTTPErr order_already_exists), w')"
    "db w' = db w"
    using s [of "unique_violation k"] rt(3) by (auto simp: requested_error_def)
  then show thesis
    using that tel by (simp add: Service_Requested_eq)
qed

section \<open>The POST handler\<close>

text \<open>
  The rider of a POST: the header, or the body, or a new UUID; and the order id of the body or a new
  UUID, with the world after the draws.
\<close>

definition post_ids :: "request \<Rightarrow> requestInput \<Rightarrow> world \<Rightarrow> string \<times> string \<times> world" where
  "post_ids req inb w =
     (let (ident, w1) = (if req_ID inb = [] then new_uuid w else (req_ID inb, w));
          rider0 = GetHeader req ''rider_id'';
          rider1 = (if rider0 = [] then req_RiderID inb else rider0);
          (riderID, w2) = (if rider1 = [] then new_uuid w1 else (rider1, w1))
      in (ident, riderID, w2))"

lemma post_ids_frame:
  "post_ids req inb w = (ident, riderID, w2) \<Longrightarrow> db w2 = db w \<and> cached w2 = cached w"
  by (auto simp: post_ids_def Let_def new_uuid_def split: prod.splits if_splits)

definition post_input :: "requestInput \<Rightarrow> string \<Rightarrow> string \<Rightarrow> OrderRequestedInput" where
  "post_input inb ident riderID =
     \<lparr>inp_ID = ident, inp_RiderID = riderID,
      inp_PickupLatitude = req_PickupLatitude inb, inp_PickupLongitude = req_PickupLongitude inb,
      inp_DestinationLatitude = req_DestinationLatitude inb,
      inp_DestinationLongitude = req_DestinationLongitude inb,
      inp_StatusHistoryID = [], inp_OutboxID = [], inp_Payload = NilPayload, inp_EventType = []\<rparr>"

lemma Handler_request_bound:
  assumes "bind (rq_body req) = Inr inb" "post_ids req inb w = (ident, riderID, w2)"
    "uuid_Parse rt ident \<noteq> None" "uuid_Parse rt riderID \<noteq> None"
  shows "Handler_request rt bind svc req w =
    (case svc (rq_carrier req) (post_input inb ident riderID) w2 of
       (Inl err, w3) \<Rightarrow> AbortError req (Some err) w3
     | (Inr order, w3) \<Rightarrow> (\<lparr>rs_status = 201, rs_body = OrderOutput_json (fmt_float rt) order\<rparr>, w3))"
  using assms
  by (cases "req_ID inb = []"; cases "GetHeader req ''rider_id'' = []"; cases "req_RiderID inb = []")
    (auto simp: Handler_request_def post_ids_def post_input_def Let_def new_uuid_def)

text \<open>Bodies that cannot be decoded and ids that are not UUIDs are 400 answers before any write.\<close>

lemma Handler_request_invalid:
  assumes "bind (rq_body req) = Inl msg
     \<or> (\<exists>inb ident riderID w2. bind (rq_body req) = Inr inb
          \<and> post_ids req inb w = (ident, riderID, w2)
          \<and> (uuid_Parse rt ident = None \<or> uuid_Parse rt riderID = None))"
  shows "rs_status (fst (Handler_request rt bind svc req w)) = 400
     \<and> db (snd (Handler_request rt bind svc req w)) = db w"
  using assms
  by (auto simp: Handler_request_def AbortError_typed post_ids_def Let_def new_uuid_def
      split: prod.splits if_splits)

end
