(* ===== verification/DriversCorrect.thy ===== *)
theory DriversCorrect
  imports Drivers RiderRequests
begin

text \<open>
  What package \<open>internal/drivers\<close> promises.

  \<^item> \<open>order_reader\<close> is the contract of the order reader the early check asks: its answers may be old,
    but each was true once. In the locale: an early rejection is never wrong. The contract is
    interpreted on the rider service, without a cache and with any cache that keeps its contract.
  \<^item> Then the wired service \<open>driverService\<close>: accepting an order is \<open>spec_accept\<close> on the rides, whatever
    the early check read.
\<close>

section \<open>The order reader\<close>

locale order_reader =
  fixes rt :: runtime
    and get :: "string \<Rightarrow> OrderView act"
    and inv :: "world \<Rightarrow> bool"
  assumes reader_frame: "inv w \<Longrightarrow> tables_ok (db w) \<Longrightarrow> get ident w = (r, w') \<Longrightarrow>
      db w' = db w \<and> inv w'"
    and reader_past: "inv w \<Longrightarrow> tables_ok (db w) \<Longrightarrow> get ident w = (Inr v, w') \<Longrightarrow>
      \<exists>oid. pg_uuid rt ident = Some oid \<and> past_view rt (db w) oid v"
begin

lemma early_check_frame:
  assumes "inv w" "tables_ok (db w)" "early_check (NewDriverService t repo (Some get)) ident w = (b, w')"
  shows "db w' = db w \<and> inv w'"
  using assms(3) reader_frame [OF assms(1,2), of ident]
  by (auto simp: early_check_def NewDriverService_def split: prod.splits sum.splits)

text \<open>If the early check rejects, the guard of the SQL statement fails on the tables of now.\<close>

lemma early_rejection:
  assumes "runtime_ok rt" "inv w" "tables_ok (db w)"
    and "early_check (NewDriverService t repo (Some get)) ident w = (True, w')"
  shows "\<exists>oid. pg_uuid rt ident = Some oid \<and> \<not> guard (db w) oid"
proof -
  obtain v where v: "get ident w = (Inr v, w')" "view_Status v \<noteq> ''requested''"
    using assms(4) by (auto simp: early_check_def NewDriverService_def split: prod.splits sum.splits)
  then show ?thesis
    using reader_past [OF assms(2,3) v(1)] past_view_not_requested(1) [OF assms(1,3)] by blast
qed

end

lemma order_reader_rider:
  assumes "known_cache c"
  shows "order_reader rt (Service_Get rt (riderService rt t c)) (cache_sound rt)"
proof
  fix w ident r w'
  assume "cache_sound rt w" "tables_ok (db w)" "Service_Get rt (riderService rt t c) ident w = (r, w')"
  then show "db w' = db w \<and> cache_sound rt w'"
    using rider_get_frame(1,2) [OF assms] by blast
next
  fix w ident v w'
  assume "cache_sound rt w" "tables_ok (db w)" "Service_Get rt (riderService rt t c) ident w = (Inr v, w')"
  then show "\<exists>oid. pg_uuid rt ident = Some oid \<and> past_view rt (db w) oid v"
    using rider_get_frame(5) [OF assms] by blast
qed

interpretation direct_reader: order_reader rt "Service_Get rt (riderService rt t None)" "cache_sound rt"
  for rt t
  by (rule order_reader_rider) simp

interpretation cached_reader: order_reader rt "Service_Get rt (riderService rt t (Some memory_cache))"
    "cache_sound rt" for rt t
  by (rule order_reader_rider) simp

section \<open>The repository call\<close>

lemma pg_jsonb_accepted [simp]: "pg_jsonb (InjectTraceContext c (Marshal_accepted e)) \<noteq> None"
  by (auto simp: InjectTraceContext_def Marshal_accepted_def split: payload.splits json.splits)

definition accept_args :: "AcceptedInput \<Rightarrow> sql_arg list" where
  "accept_args i = [AText (acc_AcceptanceID i), AText (acc_OrderID i), AText (acc_DriverID i),
     AText (acc_StatusHistoryID i), AText (acc_OutboxID i), ABytes (acc_Payload i),
     AText (acc_EventType i)]"

text \<open>An input whose ids the service accepts and the database can read.\<close>

definition accept_input :: "runtime \<Rightarrow> AcceptedInput \<Rightarrow> uuid \<Rightarrow> uuid \<Rightarrow> bool" where
  "accept_input rt i oid drv \<longleftrightarrow>
     uuid_Parse rt (acc_OrderID i) \<noteq> None \<and> uuid_Parse rt (acc_DriverID i) \<noteq> None
     \<and> pg_uuid rt (acc_OrderID i) = Some oid \<and> pg_uuid rt (acc_DriverID i) = Some drv
     \<and> pg_uuid rt (acc_AcceptanceID i) \<noteq> None \<and> pg_uuid rt (acc_StatusHistoryID i) \<noteq> None
     \<and> pg_uuid rt (acc_OutboxID i) \<noteq> None"

text \<open>The row of the outbox that an acceptance writes.\<close>

definition event_row :: "runtime \<Rightarrow> AcceptedInput \<Rightarrow> uuid \<Rightarrow> outbox_row" where
  "event_row rt i oid =
     \<lparr>x_id = the (pg_uuid rt (acc_OutboxID i)), x_aggregate_type = ''order'', x_aggregate_id = oid,
      x_event_type = acc_EventType i, x_event_version = 1, x_payload = the (pg_jsonb (acc_Payload i))\<rparr>"

lemma Database_Accepted_pg:
  assumes ok: "tables_ok (db w)" and rf: "\<And>t d. refuse rt t d = None"
    and i: "accept_input rt i oid drv" and j: "pg_jsonb (acc_Payload i) \<noteq> None"
  shows "guard (db w) oid \<Longrightarrow>
      \<exists>t'. Database_Accepted (pg_execute rt) i w = (Inr \<lparr>drv_ID = acc_OrderID i\<rparr>, w\<lparr>db := t'\<rparr>)
        \<and> spec_accept oid drv (abs_tables (db w)) = Some (abs_tables t')
        \<and> outbox_events t' = outbox_events (db w) @ [event_row rt i oid]
        \<and> tables_ok t' \<and> extends (db w) t'"
    and "\<not> guard (db w) oid \<Longrightarrow>
      Database_Accepted (pg_execute rt) i w = (Inl (HTTPErr order_not_acceptable), w)
      \<and> spec_accept oid drv (abs_tables (db w)) = None"
proof -
  have p: "parsed_accept rt (accept_args i) = Some (oid, drv)"
    using i j by (auto simp: parsed_accept_def accept_args_def accept_input_def)
  obtain d t' where d: "accepted_plan rt (accept_args i) (db w) = Inr d" "commit rt d (db w) = Inr t'"
    "abs_tables t' = (case spec_accept oid drv (abs_tables (db w)) of
        None \<Rightarrow> abs_tables (db w) | Some m \<Rightarrow> m)"
    "length (outbox_events d) = (if spec_accept oid drv (abs_tables (db w)) = None then 0 else 1)"
    "\<not> guard (db w) oid \<Longrightarrow> t' = db w"
    by (rule accept_refines [OF ok rf p]) (rule that, assumption+)
  have g: "guard (db w) oid \<longleftrightarrow> spec_accept oid drv (abs_tables (db w)) \<noteq> None"
    by (auto simp: guard_abs [OF ok] spec_accept_def split: option.splits ride.splits)
  have e: "Database_Accepted (pg_execute rt) i w =
      (if outbox_events d = [] then (Inl (HTTPErr order_not_acceptable), w\<lparr>db := t'\<rparr>)
       else (Inr \<lparr>drv_ID = acc_OrderID i\<rparr>, w\<lparr>db := t'\<rparr>))"
    using d(1,2) by (simp add: Database_Accepted_def pg_execute_def plan_def accept_args_def
        order_not_acceptable_def)
  show "\<not> guard (db w) oid \<Longrightarrow>
      Database_Accepted (pg_execute rt) i w = (Inl (HTTPErr order_not_acceptable), w)
      \<and> spec_accept oid drv (abs_tables (db w)) = None"
    using e d(4,5) g by simp
  assume gd: "guard (db w) oid"
  have x: "outbox_events d = [event_row rt i oid]"
    using d(1) gd i j
    by (auto simp: event_row_def accepted_plan_def accept_args_def accept_input_def)
  have t': "t' = insert_rows d (db w)"
    using commit_Inr [OF d(2)] by simp
  have "tables_ok t'"
    using accepted.commit_now [OF ok d(1,2)] by simp
  then show "\<exists>t'. Database_Accepted (pg_execute rt) i w = (Inr \<lparr>drv_ID = acc_OrderID i\<rparr>, w\<lparr>db := t'\<rparr>)
        \<and> spec_accept oid drv (abs_tables (db w)) = Some (abs_tables t')
        \<and> outbox_events t' = outbox_events (db w) @ [event_row rt i oid]
        \<and> tables_ok t' \<and> extends (db w) t'"
    using e x d(3) g gd t' by (intro exI [where x = t']) auto
qed

section \<open>The service call\<close>

definition driverService ::
    "runtime \<Rightarrow> (DriverOrderOutput \<times> go_error option) worker option \<Rightarrow> get_port option
      \<Rightarrow> drivers_service" where
  "driverService rt t rd =
     NewDriverService t (Database_Accepted (drivers_execute (drivers_db (drivers_NewRepository (pg_DB rt))))) rd"

lemma drivers_database [simp]: "drivers_execute (drivers_db (drivers_NewRepository (pg_DB rt))) = pg_execute rt"
  by (intro ext) (simp add: drivers_execute_def drivers_NewRepository_def pg_DB_def)

lemma driverService_eq: "driverService rt t rd = NewDriverService t (Database_Accepted (pg_execute rt)) rd"
  by (simp add: driverService_def)

lemma driverService_sel [simp]:
  "dtel (driverService rt t rd) = t" "reader (driverService rt t rd) = rd"
  "repo_Accepted (driverService rt t rd) = Database_Accepted (pg_execute rt)"
  by (simp_all add: driverService_def NewDriverService_def)

lemma Service_Accepted_eq:
  assumes "tel_ok (dtel s)"
  shows "Service_Accepted rt s carrier i w =
    doAccepted rt s (job_carrier (dtel s) ''drivers.accepted'' carrier w) i w"
  using assms by (cases "dtel s") (simp_all add: Service_Accepted_def tel_ok_def run_job_transparent)

text \<open>The early check with a sound reader or none: it keeps the tables, and rejects only rightly.\<close>

definition sound_reader :: "runtime \<Rightarrow> get_port option \<Rightarrow> bool" where
  "sound_reader rt rd \<longleftrightarrow> (case rd of None \<Rightarrow> True | Some get \<Rightarrow> order_reader rt get (cache_sound rt))"

lemma sound_reader_rider [simp]:
  "sound_reader rt None"
  "known_cache c \<Longrightarrow> sound_reader rt (Some (Service_Get rt (riderService rt t c)))"
  using order_reader_rider by (simp_all add: sound_reader_def)

lemma early_check_sound:
  assumes "runtime_ok rt" "sound_reader rt rd" "cache_sound rt w" "tables_ok (db w)"
    and "early_check (driverService rt t rd) ident w = (b, w1)"
  shows "db w1 = db w \<and> cache_sound rt w1"
    and "b \<Longrightarrow> \<exists>oid. pg_uuid rt ident = Some oid \<and> \<not> guard (db w) oid"
proof -
  have "(db w1 = db w \<and> cache_sound rt w1)
      \<and> (b \<longrightarrow> (\<exists>oid. pg_uuid rt ident = Some oid \<and> \<not> guard (db w) oid))"
  proof (cases rd)
    case None
    then show ?thesis using assms(3,5) by (simp add: early_check_def)
  next
    case (Some get)
    then have r: "order_reader rt get (cache_sound rt)"
      using assms(2) by (simp add: sound_reader_def)
    have c: "early_check (NewDriverService t (Database_Accepted (pg_execute rt)) (Some get)) ident w = (b, w1)"
      using assms(5) Some by (simp add: driverService_def)
    have "b \<Longrightarrow> \<exists>oid. pg_uuid rt ident = Some oid \<and> \<not> guard (db w) oid"
      using order_reader.early_rejection [OF r assms(1,3,4), of t "Database_Accepted (pg_execute rt)"
          ident w1] c by simp
    then show ?thesis
      using order_reader.early_check_frame [OF r assms(3,4) c] by blast
  qed
  then show "db w1 = db w \<and> cache_sound rt w1"
    "b \<Longrightarrow> \<exists>oid. pg_uuid rt ident = Some oid \<and> \<not> guard (db w) oid"
    by blast+
qed

text \<open>The event of an acceptance.\<close>

definition accepted_payload :: "(string \<times> string) list \<Rightarrow> AcceptedInput \<Rightarrow> int \<Rightarrow> payload" where
  "accepted_payload carrier i now =
     InjectTraceContext carrier (Marshal_accepted \<lparr>oa_EventID = acc_OutboxID i, oa_EventVersion = 1,
       oa_OccurredAt = now, oa_OrderID = acc_OrderID i, oa_DriverID = acc_DriverID i\<rparr>)"

definition accepted_event ::
    "runtime \<Rightarrow> (string \<times> string) list \<Rightarrow> AcceptedInput \<Rightarrow> uuid \<Rightarrow> world \<Rightarrow> outbox_row" where
  "accepted_event rt carrier i oid w = event_row rt
     (i\<lparr>acc_Payload := accepted_payload carrier i (clock w), acc_EventType := OrderAccepted_MessageType (environ w)\<rparr>) oid"

lemma rider_accept:
  assumes rt: "runtime_ok rt" "\<And>t d. refuse rt t d = None" and tel: "tel_ok t"
    and rd: "sound_reader rt rd" and ok: "tables_ok (db w)" "cache_sound rt w"
    and i: "accept_input rt i oid drv"
  obtains r w' where "Service_Accepted rt (driverService rt t rd) carrier i w = (r, w')"
    "tables_ok (db w')" "extends (db w) (db w')" "cache_sound rt w'"
    "case spec_accept oid drv (abs_tables (db w)) of
       None \<Rightarrow> r = Inl (HTTPErr order_not_acceptable) \<and> db w' = db w
     | Some m \<Rightarrow> r = Inr \<lparr>dout_ID = acc_OrderID i\<rparr> \<and> abs_tables (db w') = m
         \<and> outbox_events (db w') = outbox_events (db w) @
             [accepted_event rt (job_carrier t ''drivers.accepted'' carrier w) i oid
               (snd (early_check (driverService rt t rd) (acc_OrderID i) w))]"
proof -
  let ?k = "job_carrier t ''drivers.accepted'' carrier w"
  obtain b w1 where ec: "early_check (driverService rt t rd) (acc_OrderID i) w = (b, w1)"
    by fastforce
  note es = early_check_sound [OF rt(1) rd ok(2,1) ec]
  have ok1: "tables_ok (db w1)" using ok es(1) by simp
  have ps: "pg_uuid rt (acc_OrderID i) = Some oid" using i by (simp add: accept_input_def)
  define i' where "i' = i\<lparr>acc_Payload := accepted_payload ?k i (clock w1),
      acc_EventType := OrderAccepted_MessageType (environ w1)\<rparr>"
  have i': "accept_input rt i' oid drv" "pg_jsonb (acc_Payload i') \<noteq> None" "acc_OrderID i' = acc_OrderID i"
    using i by (simp_all add: i'_def accept_input_def accepted_payload_def)
  have b: "accepted_body rt (driverService rt t rd) ?k i w =
      (if b then ((''conflict'', Inl (HTTPErr order_not_acceptable)), w1)
       else (case Database_Accepted (pg_execute rt) i' w1 of
                    (Inl err, w2) \<Rightarrow> ((''error'', Inl (accepted_error err)), w2)
                  | (Inr order, w2) \<Rightarrow>
                      ((''success'', Inr (DriverOrderOutput_of order)),
                       if dtel (driverService rt t rd) \<noteq> None
                       then add_log (Log Info ''order accepted''
                         [(''order_id'', acc_OrderID i), (''driver_id'', acc_DriverID i)]) w2
                       else w2)))"
  proof -
    obtain u v where "uuid_Parse rt (acc_OrderID i) = Some u" "uuid_Parse rt (acc_DriverID i) = Some v"
      using i by (auto simp: accept_input_def)
    then show ?thesis
      using ec by (cases b) (simp_all add: accepted_body_def Let_def i'_def accepted_payload_def)
  qed
  note eq = Service_Accepted_eq [of "driverService rt t rd" rt carrier i w, simplified, OF tel]
  show thesis
  proof (cases "guard (db w) oid")
    case False
    have "spec_accept oid drv (abs_tables (db w)) = None"
      and f: "Database_Accepted (pg_execute rt) i' w1 = (Inl (HTTPErr order_not_acceptable), w1)"
      using Database_Accepted_pg(2) [OF ok1 rt(2) i'(1,2)] False es(1) by auto
    moreover have "accepted_error (HTTPErr order_not_acceptable) = HTTPErr order_not_acceptable"
      by (simp add: accepted_error_def order_not_acceptable_def)
    ultimately obtain w' where "Service_Accepted rt (driverService rt t rd) carrier i w
        = (Inl (HTTPErr order_not_acceptable), w')" "db w' = db w" "cached w' = cached w1"
      using b es(1) eq by (cases b) (auto simp: doAccepted_def)
    then show thesis
      using that ok es(1) cache_sound_extends [of rt w1 w'] \<open>spec_accept oid drv _ = None\<close> by simp
  next
    case True
    then have nb: "\<not> b" using es(2) ps by auto
    obtain t' where a: "Database_Accepted (pg_execute rt) i' w1
        = (Inr \<lparr>drv_ID = acc_OrderID i\<rparr>, w1\<lparr>db := t'\<rparr>)"
      "spec_accept oid drv (abs_tables (db w)) = Some (abs_tables t')"
      "outbox_events t' = outbox_events (db w) @ [event_row rt i' oid]" "extends (db w) t'" "tables_ok t'"
      using Database_Accepted_pg(1) [OF ok1 rt(2) i'(1,2)] True es(1) i'(3) by auto
    obtain w' where w': "Service_Accepted rt (driverService rt t rd) carrier i w
        = (Inr \<lparr>dout_ID = acc_OrderID i\<rparr>, w')" "db w' = t'" "cached w' = cached w1"
      using b nb a(1) eq by (auto simp: doAccepted_def DriverOrderOutput_of_def)
    have "cache_sound rt w'"
      using cache_sound_extends [of rt w1 w'] es(1) a(4) w' by simp
    moreover have "event_row rt i' oid
        = accepted_event rt ?k i oid (snd (early_check (driverService rt t rd) (acc_OrderID i) w))"
      by (simp add: ec accepted_event_def i'_def)
    ultimately show thesis
      using that [OF w'(1)] w' a by auto
  qed
qed

section \<open>The status of a call\<close>

definition accepted_status :: "runtime \<Rightarrow> drivers_service \<Rightarrow> AcceptedInput \<Rightarrow> world \<Rightarrow> (go_error + DriverOrderOutput) \<Rightarrow> string" where
  "accepted_status rt s i w r =
     (if uuid_Parse rt (acc_OrderID i) = None \<or> uuid_Parse rt (acc_DriverID i) = None then ''validation_error''
      else if fst (early_check s (acc_OrderID i) w) then ''conflict''
      else if is_Inr r then ''success'' else ''error'')"

lemma accepted_body_status:
  assumes repo: "\<And>i w. counters (snd (repo_Accepted s i w)) = counters w"
    and check: "\<And>oid w. counters (snd (early_check s oid w)) = counters w"
    and b: "accepted_body rt s carrier i w = ((st, r), w1)"
  shows "counters w1 = counters w \<and> st = accepted_status rt s i w r"
proof (cases "uuid_Parse rt (acc_OrderID i) = None \<or> uuid_Parse rt (acc_DriverID i) = None")
  case True
  then show ?thesis using b by (auto simp: accepted_body_def accepted_status_def split: if_splits)
next
  case False
  obtain e wa where ec: "early_check s (acc_OrderID i) w = (e, wa)" by fastforce
  have c: "counters wa = counters w" using check [of "acc_OrderID i" w] ec by simp
  show ?thesis
  proof (cases e)
    case True
    then show ?thesis using b ec False c by (auto simp: accepted_body_def accepted_status_def)
  next
    case no: False
    obtain i' r' w2 where q: "repo_Accepted s i' wa = (r', w2)" "counters w1 = counters w2"
      "st = (if is_Inr r then ''success'' else ''error'')"
      using b False ec no
      by (auto simp: accepted_body_def Let_def split: prod.splits sum.splits if_splits)
    then show ?thesis using repo [of i' wa] c no False ec by (simp add: accepted_status_def)
  qed
qed

section \<open>The same call without telemetry\<close>

text \<open>A world without what was sent to telemetry.\<close>

definition quiet :: "world \<Rightarrow> world" where
  "quiet w = w\<lparr>counters := [], logs := []\<rparr>"

lemma quiet_add [simp]:
  "quiet (add_log e w) = quiet w" "quiet (add_counter n s w) = quiet w" "quiet (add_histogram n s w) = quiet w"
  by (simp_all add: quiet_def add_log_def add_counter_def add_histogram_def)

lemma requested_body_silent:
  "fst (requested_body rt s carrier i w) = fst (requested_body rt (s\<lparr>tel := None\<rparr>) carrier i w)
   \<and> quiet (snd (requested_body rt s carrier i w)) = quiet (snd (requested_body rt (s\<lparr>tel := None\<rparr>) carrier i w))"
proof (cases "TrimSpace (inp_ID i) = [] \<or> TrimSpace (inp_RiderID i) = []")
  case True
  then show ?thesis by (auto simp: requested_body_def)
next
  case False
  obtain h w1 where 1: "(if inp_StatusHistoryID i = [] then new_uuid w else (inp_StatusHistoryID i, w)) = (h, w1)"
    by fastforce
  obtain x w2 where 2: "(if inp_OutboxID i = [] then new_uuid w1 else (inp_OutboxID i, w1)) = (x, w2)"
    by fastforce
  show ?thesis
    unfolding requested_body_def if_not_P [OF False] 1 2 Let_def prod.case
    by (simp only: split: prod.split sum.split option.split) auto
qed

lemma doRequested_silent:
  "fst (doRequested rt s carrier i w) = fst (doRequested rt (s\<lparr>tel := None\<rparr>) carrier i w)"
  "quiet (snd (doRequested rt s carrier i w)) = quiet (snd (doRequested rt (s\<lparr>tel := None\<rparr>) carrier i w))"
  using requested_body_silent [of rt s carrier i w]
  by (auto simp: doRequested_def split: prod.splits)

lemma early_check_silent: "early_check (s\<lparr>dtel := t\<rparr>) = early_check s"
  by (intro ext) (simp add: early_check_def)

lemma accepted_body_silent:
  "fst (accepted_body rt s carrier i w) = fst (accepted_body rt (s\<lparr>dtel := None\<rparr>) carrier i w)"
  "quiet (snd (accepted_body rt s carrier i w)) = quiet (snd (accepted_body rt (s\<lparr>dtel := None\<rparr>) carrier i w))"
  by (simp_all add: accepted_body_def early_check_silent Let_def case_prod_beta split: sum.split bool.split)

lemma doAccepted_silent:
  "fst (doAccepted rt s carrier i w) = fst (doAccepted rt (s\<lparr>dtel := None\<rparr>) carrier i w)"
  "quiet (snd (doAccepted rt s carrier i w)) = quiet (snd (doAccepted rt (s\<lparr>dtel := None\<rparr>) carrier i w))"
  using accepted_body_silent [of rt s carrier i w]
  by (auto simp: doAccepted_def split: prod.splits)


end
