(* ===== verification/Interleaving.thy ===== *)
theory Interleaving
  imports DriversCorrect
begin

text \<open>
  Many requests at once. A statement is planned on one snapshot of the tables and committed later,
  and in between others commit; a read of an order is loaded from one snapshot and stored in the
  cache later; the early check of the drivers service reads whatever the cache holds; a client may
  never learn that its statement was committed.

  \<open>step\<close> is one atomic event of such a run and \<open>reachable\<close> are the states of all runs from empty
  tables. \<open>sys_ok\<close> is the invariant: the tables are well formed, every planned statement is still
  well formed, every cached view was true once, and every answer that was given is true.
\<close>

section \<open>States and steps\<close>

text \<open>
  \<open>Wrote\<close>: the statement was committed and its client was told so. \<open>Failed\<close>: its client got an error
  of the server. \<open>Refused\<close>: the early check of the drivers service rejected.
\<close>

datatype answer = Wrote delta | Failed delta pg_error | Refused uuid

record system =
  here :: world
  pending :: "delta list"
  loads :: "(string \<times> OrderView) list"
  answers :: "answer list"

definition start_system :: "system \<Rightarrow> bool" where
  "start_system s \<longleftrightarrow> db (here s) = empty_tables \<and> cached (here s) = [] \<and> pending s = []
     \<and> loads s = [] \<and> answers s = []"

text \<open>The service of \<open>cmd/platform/main.go\<close>: the early check reads through the orders service.\<close>

definition wired_check :: "runtime \<Rightarrow> view_cache option \<Rightarrow> string \<Rightarrow> world \<Rightarrow> bool \<times> world" where
  "wired_check rt c =
     early_check (driverService rt None (Some (Service_Get rt (riderService rt None c))))"

inductive step :: "runtime \<Rightarrow> system \<Rightarrow> system \<Rightarrow> bool" for rt where
  begin_statement:
    "plan rt (clock (here s)) stmt args (db (here s)) = Inr d \<Longrightarrow>
       step rt s (s\<lparr>pending := pending s @ [d]\<rparr>)"
| commit_statement:
    "pending s = ds @ d # ds' \<Longrightarrow> commit rt d (db (here s)) = Inr t \<Longrightarrow>
       step rt s (s\<lparr>here := (here s)\<lparr>db := t\<rparr>, pending := ds @ ds', answers := answers s @ [Wrote d]\<rparr>)"
| commit_unheard:
    "pending s = ds @ d # ds' \<Longrightarrow> commit rt d (db (here s)) = Inr t \<Longrightarrow>
       step rt s (s\<lparr>here := (here s)\<lparr>db := t\<rparr>, pending := ds @ ds'\<rparr>)"
| fail_statement:
    "pending s = ds @ d # ds' \<Longrightarrow> commit rt d (db (here s)) = Inl e \<Longrightarrow>
       step rt s (s\<lparr>pending := ds @ ds', answers := answers s @ [Failed d e]\<rparr>)"
| drop_statement:
    "pending s = ds @ d # ds' \<Longrightarrow> step rt s (s\<lparr>pending := ds @ ds'\<rparr>)"
| load_order:
    "pg_uuid rt ident = Some oid \<Longrightarrow> select_view rt (db (here s)) oid = Some v \<Longrightarrow>
       step rt s (s\<lparr>loads := loads s @ [(ident, v)]\<rparr>)"
| store_order:
    "(ident, v) \<in> set (loads s) \<Longrightarrow>
       step rt s (s\<lparr>here := (here s)\<lparr>cached := (view_key ident, v) # cached (here s)\<rparr>\<rparr>)"
| evict:
    "step rt s (s\<lparr>here := (here s)\<lparr>cached := filter (\<lambda>(k, v). keep k) (cached (here s))\<rparr>\<rparr>)"
| check_order:
    "known_cache c \<Longrightarrow> pg_uuid rt ident = Some oid \<Longrightarrow> wired_check rt c ident (here s) = (b, w1) \<Longrightarrow>
       step rt s (s\<lparr>here := w1, answers := answers s @ (if b then [Refused oid] else [])\<rparr>)"
| elsewhere:
    "db w1 = db (here s) \<Longrightarrow> cached w1 = cached (here s) \<Longrightarrow> step rt s (s\<lparr>here := w1\<rparr>)"

inductive reachable :: "runtime \<Rightarrow> system \<Rightarrow> bool" for rt where
  start: "start_system s \<Longrightarrow> reachable rt s"
| next_state: "reachable rt s \<Longrightarrow> step rt s s' \<Longrightarrow> reachable rt s'"

inductive_cases stepE [consumes 1, case_names begin_statement commit_statement commit_unheard
    fail_statement drop_statement load_order store_order evict check_order elsewhere]: "step rt s s'"

section \<open>The invariant\<close>

text \<open>
  A driver is told that the order is theirs where the statement, which is not a request, affected a row:
  its last \<open>INSERT\<close> is that of the order's event, whatever the other parts of the statement wrote.
\<close>

definition wins :: "uuid \<Rightarrow> answer \<Rightarrow> bool" where
  "wins oid a \<longleftrightarrow>
     (case a of
        Wrote d \<Rightarrow> orders d = [] \<and> list_ex (\<lambda>x. x_aggregate_id x = oid) (outbox_events d)
      | _ \<Rightarrow> False)"

definition makes :: "uuid \<Rightarrow> answer \<Rightarrow> bool" where
  "makes oid a \<longleftrightarrow> (case a of Wrote d \<Rightarrow> list_ex (\<lambda>r. r_id r = oid) (orders d) | _ \<Rightarrow> False)"

text \<open>What an answer says of the tables, then and ever after.\<close>

definition answer_true :: "tables \<Rightarrow> answer \<Rightarrow> bool" where
  "answer_true t a \<longleftrightarrow>
     (case a of
        Wrote d \<Rightarrow>
          (\<forall>oid. request_delta oid d \<longrightarrow>
             (\<exists>rd. abs_tables t oid = Some rd \<and> rider rd = delta_rider d))
          \<and> (\<forall>oid. wins oid a \<longrightarrow> (\<exists>r. abs_tables t oid = Some (Taken r (delta_driver d))))
      | Failed d e \<Rightarrow> True
      | Refused oid \<Rightarrow> \<exists>r d. abs_tables t oid = Some (Taken r d))"

definition sys_ok :: "runtime \<Rightarrow> system \<Rightarrow> bool" where
  "sys_ok rt s \<longleftrightarrow> tables_ok (db (here s))
     \<and> (\<forall>d \<in> set (pending s). wf_delta (db (here s)) d)
     \<and> cache_sound rt (here s)
     \<and> (\<forall>(ident, v) \<in> set (loads s).
          \<exists>oid. pg_uuid rt ident = Some oid \<and> past_view rt (db (here s)) oid v)
     \<and> (\<forall>a \<in> set (answers s). answer_true (db (here s)) a)
     \<and> (\<forall>oid. length (filter (wins oid) (answers s)) \<le> n_acceptances (db (here s)) oid)
     \<and> (\<forall>oid. length (filter (makes oid) (answers s)) \<le> n_orders (db (here s)) oid)"

lemma answer_true_extends:
  assumes "extends t t'" "answer_true t a"
  shows "answer_true t' a"
  using assms abs_tables_extends [OF assms(1)]
  by (fastforce simp: answer_true_def split: answer.splits)

lemma start_ok: "start_system s \<Longrightarrow> sys_ok rt s"
  by (simp add: start_system_def sys_ok_def cache_sound_empty)

lemma wired_check_refuses:
  assumes "runtime_ok rt" "cache_sound rt w" "tables_ok (db w)" "known_cache c"
    and "pg_uuid rt ident = Some oid" "wired_check rt c ident w = (True, w1)"
  shows "\<exists>r d. abs_tables (db w) oid = Some (Taken r d)"
proof -
  let ?get = "Service_Get rt (riderService rt None c)"
  obtain v where v: "?get ident w = (Inr v, w1)" "view_Status v \<noteq> ''requested''"
    using assms(6) by (auto simp: wired_check_def early_check_def split: prod.splits sum.splits)
  then have "past_view rt (db w) oid v"
    using rider_get_frame(5) [OF assms(4,2,3) v(1)] assms(5) by auto
  then show ?thesis
    using past_view_not_requested(3) [OF assms(1,3) _ v(2)] by blast
qed

lemma wf_delta_accept: "wf_delta t d \<Longrightarrow> accept_delta oid d \<Longrightarrow> hist t oid \<noteq> []"
  by (auto simp: wf_delta_def accept_delta_def request_delta_def)

lemma wins_accept:
  assumes "wf_delta t d"
  shows "wins oid (Wrote d) \<longleftrightarrow> accept_delta oid d"
proof
  show "wins oid (Wrote d)" if "accept_delta oid d"
    using that by (auto simp: wins_def accept_delta_def map_eq_Cons_conv)
  show "accept_delta oid d" if "wins oid (Wrote d)"
    using assms that
    by (auto simp: wins_def wf_delta_def request_delta_def accept_delta_def map_eq_Cons_conv empty_tables_def)
qed

lemma wins_Wrote:
  assumes "wf_delta t d"
  shows "wins oid (Wrote d) \<longleftrightarrow> n_acceptances d oid \<noteq> 0"
proof
  show "n_acceptances d oid \<noteq> 0" if "wins oid (Wrote d)"
    using accept_delta_counts [of oid d oid] that wins_accept [OF assms] by (simp add: row_counts_def)
  assume n: "n_acceptances d oid \<noteq> 0"
  with assms obtain oid' where "accept_delta oid' d"
    by (auto simp: wf_delta_def request_delta_def n_acceptances_def empty_tables_def)
  then show "wins oid (Wrote d)"
    using n accept_delta_other [of oid' d oid] wins_accept [OF assms] by auto
qed

text \<open>A planned statement that is committed, whether its client hears of it or not.\<close>

lemma commit_ok:
  assumes s: "sys_ok rt s" "pending s = ds @ d # ds'" "commit rt d (db (here s)) = Inr t"
  shows "tables_ok t" "extends (db (here s)) t" "t = insert_rows d (db (here s))"
    "answer_true t (Wrote d)"
proof -
  have w: "wf_delta (db (here s)) d" and ok: "tables_ok (db (here s))"
    using s(1,2) by (simp_all add: sys_ok_def)
  show t: "tables_ok t" "t = insert_rows d (db (here s))"
    using commit_tables_ok [OF ok w s(3)] commit_Inr [OF s(3)] by simp_all
  then show "extends (db (here s)) t" by simp
  have nv: "violations d (db (here s)) = []"
    using commit_Inr [OF s(3)] by simp
  have "\<exists>rd. abs_tables t oid = Some rd \<and> rider rd = delta_rider d" if "request_delta oid d" for oid
  proof -
    have "abs_tables (db (here s)) oid = None"
      using nv violations_request_ok [OF ok that] abs_tables_hist(1) [OF ok] by (auto split: if_splits)
    then show ?thesis
      using abs_tables_request [OF ok that] t(2) by simp
  qed
  moreover have "\<exists>r. abs_tables t oid = Some (Taken r (delta_driver d))" if a: "accept_delta oid d" for oid
  proof -
    have "length (hist (db (here s)) oid) < 2" "hist (db (here s)) oid \<noteq> []"
      using nv violations_accept_ok [OF ok a] wf_delta_accept [OF w a] by (auto split: if_splits)
    then have "hist (db (here s)) oid = [(1, 1)]"
      by (cases rule: order_ok_cases [OF ok, of oid]) auto
    then obtain r where "abs_tables (db (here s)) oid = Some (Waiting r)"
      using abs_tables_hist(2) [OF ok] by blast
    then show ?thesis
      using abs_tables_accept [OF ok a] t(2) by simp
  qed
  ultimately show "answer_true t (Wrote d)"
    by (simp add: answer_true_def wins_accept [OF w])
qed

lemma makes_Wrote: "makes oid (Wrote d) \<longleftrightarrow> n_orders d oid \<noteq> 0"
  by (simp add: makes_def list_ex_orders)

lemma wins_makes_other [simp]:
  "\<not> wins oid (Failed d e)" "\<not> wins oid (Refused oid')"
  "\<not> makes oid (Failed d e)" "\<not> makes oid (Refused oid')"
  by (simp_all add: wins_def makes_def)

text \<open>A step that changes the world only by growing the tables, and the rest soundly.\<close>

lemma sys_ok_grow:
  assumes s: "sys_ok rt s" and ok: "tables_ok (db w)" and ex: "extends (db (here s)) (db w)"
    and c: "cache_sound rt w" and p: "set p \<subseteq> set (pending s)"
    and a: "\<forall>x \<in> set a. answer_true (db w) x"
    and n: "\<forall>oid. n_acceptances (db (here s)) oid + length (filter (wins oid) a) \<le> n_acceptances (db w) oid"
      "\<forall>oid. n_orders (db (here s)) oid + length (filter (makes oid) a) \<le> n_orders (db w) oid"
  shows "sys_ok rt (s\<lparr>here := w, pending := p, answers := answers s @ a\<rparr>)"
proof -
  have "\<forall>d \<in> set p. wf_delta (db w) d"
    using s p wf_delta_extends [OF _ ex] by (auto simp: sys_ok_def)
  moreover have "\<forall>(ident, v) \<in> set (loads s). \<exists>oid. pg_uuid rt ident = Some oid \<and> past_view rt (db w) oid v"
    using s past_view_extends [OF _ ex] unfolding sys_ok_def by blast
  moreover have "\<forall>x \<in> set (answers s @ a). answer_true (db w) x"
    using s a answer_true_extends [OF ex] by (auto simp: sys_ok_def)
  moreover have "length (filter (wins oid) (answers s @ a)) \<le> n_acceptances (db w) oid" for oid
    using s n(1) [rule_format, of oid] by (simp add: sys_ok_def) (meson add_le_mono1 le_trans)
  moreover have "length (filter (makes oid) (answers s @ a)) \<le> n_orders (db w) oid" for oid
    using s n(2) [rule_format, of oid] by (simp add: sys_ok_def) (meson add_le_mono1 le_trans)
  ultimately show ?thesis
    using ok c by (simp add: sys_ok_def)
qed

lemma sys_ok_keep:
  assumes "sys_ok rt s" "db w = db (here s)" "cache_sound rt w" "set p \<subseteq> set (pending s)"
    and "\<forall>x \<in> set a. answer_true (db w) x \<and> (\<forall>oid. \<not> wins oid x \<and> \<not> makes oid x)"
  shows "sys_ok rt (s\<lparr>here := w, pending := p, answers := answers s @ a\<rparr>)"
proof (rule sys_ok_grow [OF assms(1) _ _ assms(3,4)])
  have "filter (wins oid) a = []" "filter (makes oid) a = []" for oid
    using assms(5) by (auto simp: filter_empty_conv)
  then show "\<forall>oid. n_acceptances (db (here s)) oid + length (filter (wins oid) a) \<le> n_acceptances (db w) oid"
    "\<forall>oid. n_orders (db (here s)) oid + length (filter (makes oid) a) \<le> n_orders (db w) oid"
    by (simp_all add: assms(2))
qed (use assms in \<open>auto simp: sys_ok_def\<close>)

text \<open>A refusal of the early check is true.\<close>

lemma wired_check_ok:
  assumes "runtime_ok rt" "sys_ok rt s" "known_cache c" "pg_uuid rt ident = Some oid"
    and "wired_check rt c ident (here s) = (b, w1)"
  shows "db w1 = db (here s) \<and> cache_sound rt w1"
    and "b \<Longrightarrow> answer_true (db (here s)) (Refused oid)"
proof -
  have "tables_ok (db (here s))" "cache_sound rt (here s)"
    using assms(2) by (simp_all add: sys_ok_def)
  then show *: "db w1 = db (here s) \<and> cache_sound rt w1"
    using early_check_sound(1) [OF assms(1) sound_reader_rider(2) [OF assms(3)] _ _
        assms(5) [unfolded wired_check_def]] by blast
  assume b: b
  show "answer_true (db (here s)) (Refused oid)"
    using wired_check_refuses [OF assms(1) _ _ assms(3,4)] assms(5) b
      \<open>tables_ok (db (here s))\<close> \<open>cache_sound rt (here s)\<close> by (simp add: answer_true_def)
qed

lemma remove_subset: "pending s = ds @ d # ds' \<Longrightarrow> set (ds @ ds') \<subseteq> set (pending s)"
  by auto

lemma commit_counts:
  assumes "sys_ok rt s" "pending s = ds @ d # ds'" "commit rt d (db (here s)) = Inr t"
  shows "n_acceptances t oid = n_acceptances (db (here s)) oid + n_acceptances d oid"
    "n_orders t oid = n_orders (db (here s)) oid + n_orders d oid"
  using commit_ok(3) [OF assms] by (simp_all add: counts_insert)

lemma cache_sound_db:
  assumes "cache_sound rt w" "extends (db w) t"
  shows "cache_sound rt (w\<lparr>db := t\<rparr>)"
  by (rule cache_sound_extends [OF assms(1)]) (simp_all add: assms(2))

lemma cache_sound_filter:
  assumes "cache_sound rt w"
  shows "cache_sound rt (w\<lparr>cached := filter (\<lambda>(k, v). keep k) (cached w)\<rparr>)"
proof -
  have "map_of (filter (\<lambda>(k, v). keep k) l) k = (if keep k then map_of l k else None)" for l k
    by (induction l) auto
  note m = this
  show ?thesis
    using assms by (simp add: cache_sound_def m)
qed

lemma step_ok [step_intros]:
  assumes rt: "runtime_ok rt" and s: "sys_ok rt s" and st: "step rt s s'"
  shows "sys_ok rt s'"
  using st
proof (cases rule: stepE)
  case (begin_statement stmt args d)
  then show ?thesis
    using s plan_wf [of "db (here s)"] by (auto simp: sys_ok_def)
next
  case (commit_statement ds d ds' t)
  note c = commit_ok [OF s commit_statement(2,3)]
  have "sys_ok rt (s\<lparr>here := (here s)\<lparr>db := t\<rparr>, pending := ds @ ds', answers := answers s @ [Wrote d]\<rparr>)"
    using c(1,2,4) s commit_counts [OF s commit_statement(2,3)] wins_Wrote [of "db (here s)" d]
    by (intro sys_ok_grow [OF s] remove_subset [OF commit_statement(2)])
      (auto simp: commit_statement(2) makes_Wrote sys_ok_def intro: cache_sound_db)
  then show ?thesis using commit_statement(1) by simp
next
  case (commit_unheard ds d ds' t)
  note c = commit_ok [OF s commit_unheard(2,3)]
  have "sys_ok rt (s\<lparr>here := (here s)\<lparr>db := t\<rparr>, pending := ds @ ds', answers := answers s @ []\<rparr>)"
    using c(1,2) s commit_counts [OF s commit_unheard(2,3)]
    by (intro sys_ok_grow [OF s] remove_subset [OF commit_unheard(2)])
      (auto simp: sys_ok_def intro: cache_sound_db)
  then show ?thesis using commit_unheard(1) by simp
next
  case (fail_statement ds d ds' e)
  have "sys_ok rt (s\<lparr>here := here s, pending := ds @ ds', answers := answers s @ [Failed d e]\<rparr>)"
    using s by (intro sys_ok_keep [OF s] remove_subset [OF fail_statement(2)])
      (auto simp: sys_ok_def answer_true_def)
  then show ?thesis using fail_statement(1) by simp
next
  case (drop_statement ds d ds')
  have "sys_ok rt (s\<lparr>here := here s, pending := ds @ ds', answers := answers s @ []\<rparr>)"
    using s by (intro sys_ok_keep [OF s] remove_subset [OF drop_statement(2)]) (auto simp: sys_ok_def)
  then show ?thesis using drop_statement(1) by simp
next
  case (load_order ident oid v)
  then show ?thesis
    using s past_view_now [of "db (here s)" rt oid v] by (auto simp: sys_ok_def)
next
  case (store_order ident v)
  obtain oid where oid: "pg_uuid rt ident = Some oid" "past_view rt (db (here s)) oid v"
    using s store_order(2) by (auto simp: sys_ok_def)
  have "cache_sound rt ((here s)\<lparr>cached := (view_key ident, v) # cached (here s)\<rparr>)"
  proof (rule cache_sound_fill [OF _ _ _ oid])
    show "cache_sound rt (here s)" using s by (simp add: sys_ok_def)
  qed simp_all
  then have "sys_ok rt (s\<lparr>here := (here s)\<lparr>cached := (view_key ident, v) # cached (here s)\<rparr>,
      pending := pending s, answers := answers s @ []\<rparr>)"
    by (intro sys_ok_keep [OF s]) auto
  then show ?thesis using store_order(1) by simp
next
  case (evict keep)
  have "cache_sound rt ((here s)\<lparr>cached := filter (\<lambda>(k, v). keep k) (cached (here s))\<rparr>)"
    using s by (intro cache_sound_filter) (simp add: sys_ok_def)
  then have "sys_ok rt (s\<lparr>here := (here s)\<lparr>cached := filter (\<lambda>(k, v). keep k) (cached (here s))\<rparr>,
      pending := pending s, answers := answers s @ []\<rparr>)"
    by (intro sys_ok_keep [OF s]) auto
  then show ?thesis using evict by simp
next
  case (check_order c ident oid b w1)
  note w = wired_check_ok [OF rt s check_order(2,3,4)]
  have "sys_ok rt (s\<lparr>here := w1, pending := pending s,
      answers := answers s @ (if b then [Refused oid] else [])\<rparr>)"
  proof (rule sys_ok_keep [OF s])
    show "\<forall>x \<in> set (if b then [Refused oid] else []).
        answer_true (db w1) x \<and> (\<forall>oid. \<not> wins oid x \<and> \<not> makes oid x)"
      using w by (cases b) simp_all
  qed (use w(1) in simp_all)
  then show ?thesis using check_order(1) by simp
next
  case (elsewhere w1)
  have "cache_sound rt (here s)"
    using s by (simp add: sys_ok_def)
  then have "cache_sound rt w1"
    by (rule cache_sound_extends) (simp_all add: elsewhere)
  then have "sys_ok rt (s\<lparr>here := w1, pending := pending s, answers := answers s @ []\<rparr>)"
    using elsewhere by (intro sys_ok_keep [OF s]) auto
  then show ?thesis using elsewhere(1) by simp
qed

lemma reachable_ok: "reachable rt s \<Longrightarrow> runtime_ok rt \<Longrightarrow> sys_ok rt s"
  by (induction rule: reachable.induct) (auto intro: start_ok step_ok)

lemma step_extends:
  assumes "runtime_ok rt" "sys_ok rt s" "step rt s s'"
  shows "extends (db (here s)) (db (here s'))"
  using assms(3)
proof (cases rule: stepE)
  case (check_order c ident oid b w1)
  then show ?thesis using wired_check_ok(1) [OF assms(1,2) check_order(2,3,4)] by simp
qed (auto dest: commit_Inr)

section \<open>The rides behind a run\<close>

text \<open>A commit is one of the two operations on rides, or changes no ride.\<close>

definition ride_move :: "rides \<Rightarrow> rides \<Rightarrow> bool" where
  "ride_move m m' \<longleftrightarrow> m' = m \<or> (\<exists>oid r. spec_request oid r m = Some m')
     \<or> (\<exists>oid d. spec_accept oid d m = Some m')"

lemma commit_simulates:
  assumes ok: "tables_ok t" and wf: "wf_delta t d" and c: "commit rt d t = Inr t'"
  shows "ride_move (abs_tables t) (abs_tables t')"
proof -
  have t': "t' = insert_rows d t" and nv: "violations d t = []"
    using commit_Inr [OF c] by simp_all
  from wf consider "d = empty_tables" | oid where "request_delta oid d"
    | oid where "accept_delta oid d" "hist t oid \<noteq> []"
    by (auto simp: wf_delta_def)
  then show ?thesis
  proof cases
    case 1
    then show ?thesis using t' by (simp add: ride_move_def)
  next
    case (2 oid)
    then have "abs_tables t oid = None"
      using nv violations_request_ok [OF ok 2] abs_tables_hist(1) [OF ok] by (auto split: if_splits)
    then have "spec_request oid (delta_rider d) (abs_tables t) = Some (abs_tables t')"
      using abs_tables_request [OF ok 2] t' by (simp add: spec_request_def)
    then show ?thesis by (auto simp: ride_move_def)
  next
    case (3 oid)
    then have "length (hist t oid) < 2"
      using nv violations_accept_ok [OF ok 3(1)] by (auto split: if_splits)
    then have "hist t oid = [(1, 1)]"
      using 3(2) by (cases rule: order_ok_cases [OF ok, of oid]) auto
    then obtain r where "abs_tables t oid = Some (Waiting r)"
      using abs_tables_hist(2) [OF ok] by blast
    then have "spec_accept oid (delta_driver d) (abs_tables t) = Some (abs_tables t')"
      using abs_tables_accept [OF ok 3(1)] t' by (simp add: spec_accept_def)
    then show ?thesis by (auto simp: ride_move_def)
  qed
qed

lemma step_simulates:
  assumes rt: "runtime_ok rt" and s: "sys_ok rt s" and st: "step rt s s'"
  shows "ride_move (abs_tables (db (here s))) (abs_tables (db (here s')))"
  using st
proof (cases rule: stepE)
  case (commit_statement ds d ds' t)
  then show ?thesis using s commit_simulates [of "db (here s)" d rt t] by (simp add: sys_ok_def)
next
  case (commit_unheard ds d ds' t)
  then show ?thesis using s commit_simulates [of "db (here s)" d rt t] by (simp add: sys_ok_def)
next
  case (check_order c ident oid b w1)
  then show ?thesis using wired_check_ok(1) [OF rt s check_order(2,3,4)] by (simp add: ride_move_def)
qed (simp_all add: ride_move_def)

lemma ride_move_grows: "ride_move m m' \<Longrightarrow> m \<le> m'"
  using spec_grows by (auto simp: ride_move_def)

text \<open>
  As long as the server refuses nothing of its own, an order that waits can be taken: planning and
  committing, with nothing in between, give it to the driver who asks.
\<close>

lemma waiting_order_can_be_taken:
  assumes "\<And>t d. refuse rt t d = None" "sys_ok rt s"
    and "abs_tables (db (here s)) oid = Some (Waiting r)" "parsed_accept rt args = Some (oid, drv)"
  shows "\<exists>s1 s2. step rt s s1 \<and> step rt s1 s2 \<and> abs_tables (db (here s2)) oid = Some (Taken r drv)"
proof -
  have ok: "tables_ok (db (here s))"
    using assms(2) by (simp add: sys_ok_def)
  obtain d t where d: "accepted_plan rt args (db (here s)) = Inr d" "commit rt d (db (here s)) = Inr t"
    "abs_tables t = (case spec_accept oid drv (abs_tables (db (here s))) of
        None \<Rightarrow> abs_tables (db (here s)) | Some m \<Rightarrow> m)"
    by (rule accept_refines [OF ok assms(1,4)]) (rule that, assumption+)
  define s1 where "s1 = s\<lparr>pending := pending s @ [d]\<rparr>"
  define s2 where "s2 = s1\<lparr>here := (here s1)\<lparr>db := t\<rparr>, pending := pending s @ [], answers := answers s1 @ [Wrote d]\<rparr>"
  have "step rt s s1"
    unfolding s1_def
    by (rule step.begin_statement [where stmt = acceptedSQL and args = args]) (simp add: plan_def d(1))
  moreover have "step rt s1 s2"
    unfolding s2_def by (rule step.commit_statement) (simp_all add: s1_def d(2))
  moreover have "abs_tables (db (here s2)) oid = Some (Taken r drv)"
    using d(3) assms(3) by (simp add: s2_def spec_accept_def)
  ultimately show ?thesis by blast
qed

end
