(* ===== verification/Duration.thy ===== *)
theory Duration
  imports Env
begin

text \<open>
  The functions of Go's \<open>time\<close> and \<open>fmt\<close> packages that \<open>env.Duration\<close> calls: \<open>time.ParseDuration\<close>,
  \<open>Duration.String\<close> and \<open>fmt.Sscanf\<close> with the format \<open>%d:%d:%d\<close>; and \<open>env.Duration\<close> itself. A
  \<open>time.Duration\<close> is a number of nanoseconds in the range of \<open>int64\<close>.
\<close>

section \<open>float64 on non-negative values\<close>

text \<open>
  \<open>ParseDuration\<close> computes the nanoseconds of a decimal fraction in \<open>float64\<close>. A non-negative value
  is a fraction here; \<open>round53\<close> is rounding to 53 bits, to even in the middle. No value of this
  program is near the limits of the exponent.
\<close>

fun bits :: "nat \<Rightarrow> nat" where
  "bits n = (if n = 0 then 0 else Suc (bits (n div 2)))"

declare bits.simps [simp del]

definition scale2 :: "int \<Rightarrow> nat \<times> nat \<Rightarrow> nat \<times> nat" where
  "scale2 e x = (case x of (n, d) \<Rightarrow> if 0 \<le> e then (n * 2 ^ nat e, d) else (n, d * 2 ^ nat (- e)))"

definition round53 :: "nat \<times> nat \<Rightarrow> nat \<times> nat" where
  "round53 x =
     (case x of (n, d) \<Rightarrow>
        if n = 0 then (0, 1)
        else
          let e0 = int (bits n) - int (bits d) - 53;
              (a0, b0) = scale2 (- e0) x;
              e = (if 2 ^ 53 \<le> a0 div b0 then e0 + 1 else e0);
              (a, b) = scale2 (- e) x;
              q = a div b;
              r = a mod b;
              q' = (if b < 2 * r \<or> (b = 2 * r \<and> odd q) then q + 1 else q)
          in scale2 e (q', 1))"

definition float_mult :: "nat \<times> nat \<Rightarrow> nat \<times> nat \<Rightarrow> nat \<times> nat" where
  "float_mult x y = round53 (fst x * fst y, snd x * snd y)"

text \<open>\<open>uint64(float64(f) * (float64(unit) / scale))\<close>, with \<open>scale\<close> the power of ten of the exponent \<open>k\<close>.\<close>

definition frac_ns :: "nat \<Rightarrow> nat \<Rightarrow> nat \<Rightarrow> nat" where
  "frac_ns f k unit =
     (case float_mult (round53 (f, 1)) (round53 (unit, 10 ^ k)) of (n, d) \<Rightarrow> n div d)"

section \<open>time.ParseDuration\<close>

text \<open>The units, the second and third spelling of microseconds in UTF-8.\<close>

definition unitMap :: "string \<Rightarrow> nat option" where
  "unitMap u = map_of
     [(''ns'', 1), (''us'', 1000), ([CHR 0xC2, CHR 0xB5, CHR ''s''], 1000),
      ([CHR 0xCE, CHR 0xBC, CHR ''s''], 1000), (''ms'', 10 ^ 6), (''s'', 10 ^ 9),
      (''m'', 60 * 10 ^ 9), (''h'', 3600 * 10 ^ 9)] u"

fun leadingInt :: "nat \<Rightarrow> string \<Rightarrow> (nat \<times> string) option" where
  "leadingInt x [] = Some (x, [])"
| "leadingInt x (c # s) =
     (if \<not> is_digit c then Some (x, c # s)
      else if 2 ^ 63 div 10 < x then None
      else
        let x' = 10 * x + digit_val c
        in if 2 ^ 63 < x' then None else leadingInt x' s)"

fun leadingFraction :: "nat \<Rightarrow> nat \<Rightarrow> bool \<Rightarrow> string \<Rightarrow> nat \<times> nat \<times> string" where
  "leadingFraction x k overflow [] = (x, k, [])"
| "leadingFraction x k overflow (c # s) =
     (if \<not> is_digit c then (x, k, c # s)
      else if overflow then leadingFraction x k True s
      else if (2 ^ 63 - 1) div 10 < x then leadingFraction x k True s
      else
        let y = 10 * x + digit_val c
        in if 2 ^ 63 < y then leadingFraction x k True s else leadingFraction y (Suc k) False s)"

definition number_char :: "char \<Rightarrow> bool" where
  "number_char c \<longleftrightarrow> c = CHR ''.'' \<or> is_digit c"

text \<open>One round of the loop: a number and its unit, as nanoseconds, and the rest of the text.\<close>

definition fraction_part :: "string \<Rightarrow> nat \<times> nat \<times> string \<times> bool" where
  "fraction_part s =
     (case s of
        [] \<Rightarrow> (0, 0, [], False)
      | c # r \<Rightarrow>
          if c = CHR ''.''
          then (case leadingFraction 0 0 False r of (f, k, s') \<Rightarrow> (f, k, s', length s' \<noteq> length r))
          else (0, 0, s, False))"

definition unit_part :: "nat \<Rightarrow> nat \<Rightarrow> nat \<Rightarrow> string \<Rightarrow> (nat \<times> string) option" where
  "unit_part v f k s =
     (let u = takeWhile (\<lambda>c. \<not> number_char c) s
      in if u = [] then None
         else case unitMap u of
           None \<Rightarrow> None
         | Some unit \<Rightarrow>
             if 2 ^ 63 div unit < v then None
             else
               let v = v * unit;
                   v' = (if 0 < f then v + frac_ns f k unit else v)
               in if 0 < f \<and> 2 ^ 63 < v' then None
                  else Some (v', dropWhile (\<lambda>c. \<not> number_char c) s))"

definition duration_part :: "string \<Rightarrow> (nat \<times> string) option" where
  "duration_part s =
     (if \<not> number_char (hd s) then None
      else case leadingInt 0 s of
        None \<Rightarrow> None
      | Some (v, s1) \<Rightarrow>
          (case fraction_part s1 of
             (f, k, s2, post) \<Rightarrow>
               if length s1 = length s \<and> \<not> post then None else unit_part v f k s2))"

lemma leadingInt_length: "leadingInt x s = Some (v, r) \<Longrightarrow> length r \<le> length s"
  by (induction x s rule: leadingInt.induct) (auto simp: Let_def split: if_splits)

lemma leadingFraction_length: "leadingFraction x k b s = (v, k', r) \<Longrightarrow> length r \<le> length s"
  by (induction x k b s rule: leadingFraction.induct) (auto simp: Let_def split: if_splits)

lemma duration_part_shorter:
  assumes "duration_part s = Some (v, r)"
  shows "length r < length s"
proof -
  obtain v1 s1 f k s2 post where p: "leadingInt 0 s = Some (v1, s1)"
    "fraction_part s1 = (f, k, s2, post)" "unit_part v1 f k s2 = Some (v, r)"
    using assms by (auto simp: duration_part_def split: if_splits option.splits prod.splits)
  have "length s2 \<le> length s1"
    using p(2) by (auto simp: fraction_part_def dest: leadingFraction_length
        split: list.splits if_splits prod.splits)
  moreover have "length r < length s2"
  proof -
    have r: "r = dropWhile (\<lambda>c. \<not> number_char c) s2" "takeWhile (\<lambda>c. \<not> number_char c) s2 \<noteq> []"
      using p(3) by (auto simp: unit_part_def Let_def split: if_splits option.splits)
    have "length (takeWhile (\<lambda>c. \<not> number_char c) s2) + length r = length s2"
      unfolding r(1) by (metis length_append takeWhile_dropWhile_id)
    then show ?thesis using r(2) by (cases "takeWhile (\<lambda>c. \<not> number_char c) s2") simp_all
  qed
  ultimately show ?thesis
    using leadingInt_length [OF p(1)] by simp
qed

text \<open>The sum is kept in a \<open>uint64\<close>.\<close>

function duration_loop :: "nat \<Rightarrow> string \<Rightarrow> nat option" where
  "duration_loop d s =
     (if s = [] then Some d
      else case duration_part s of
        None \<Rightarrow> None
      | Some (v, r) \<Rightarrow>
          let d' = (d + v) mod 2 ^ 64
          in if 2 ^ 63 < d' then None else duration_loop d' r)"
  by pat_completeness auto
termination
  by (relation "measure (\<lambda>(d, s). length s)") (auto dest: duration_part_shorter)

declare duration_loop.simps [simp del]

definition ParseDuration :: "string \<Rightarrow> int option" where
  "ParseDuration s =
     (let (neg, s) = split_sign s
      in if s = ''0'' then Some 0
         else if s = [] then None
         else case duration_loop 0 s of
           None \<Rightarrow> None
         | Some d \<Rightarrow>
             if neg then Some (- int d)
             else if 2 ^ 63 - 1 < d then None
             else Some (int d))"

section \<open>Duration.String\<close>

text \<open>The last \<open>prec\<close> decimal digits of \<open>v\<close>, and what is left of them without trailing zeros.\<close>

fun last_digits :: "nat \<Rightarrow> nat \<Rightarrow> string" where
  "last_digits 0 v = []"
| "last_digits (Suc prec) v = last_digits prec (v div 10) @ [digit_char (v mod 10)]"

definition fmtFrac :: "nat \<Rightarrow> nat \<Rightarrow> string \<times> nat" where
  "fmtFrac v prec =
     (let ds = rev (dropWhile (\<lambda>c. c = CHR ''0'') (rev (last_digits prec v)))
      in (if ds = [] then [] else CHR ''.'' # ds, v div 10 ^ prec))"

definition fmt_units :: "nat \<Rightarrow> nat \<Rightarrow> string \<Rightarrow> string" where
  "fmt_units u prec unit = (case fmtFrac u prec of (f, n) \<Rightarrow> nat_str n @ f @ unit)"

definition Duration_String :: "int \<Rightarrow> string" where
  "Duration_String d =
     (let u = nat (abs d);
          body =
            (if u = 0 then ''0s''
             else if u < 1000 then fmt_units u 0 ''ns''
             else if u < 10 ^ 6 then fmt_units u 3 [CHR 0xC2, CHR 0xB5, CHR ''s'']
             else if u < 10 ^ 9 then fmt_units u 6 ''ms''
             else (case fmtFrac u 9 of
               (f, secs) \<Rightarrow>
                 let s_part = nat_str (secs mod 60) @ f @ ''s'';
                     mins = secs div 60
                 in if mins = 0 then s_part
                    else
                      let m_part = nat_str (mins mod 60) @ ''m'' @ s_part;
                          hours = mins div 60
                      in if hours = 0 then m_part else nat_str hours @ ''h'' @ m_part))
      in if d < 0 then CHR ''-'' # body else body)"

section \<open>fmt.Sscanf\<close>

text \<open>
  The verb \<open>%d\<close>: blanks are skipped, but a line break is an error; then an optional sign, at least one
  digit, and the range of \<open>int64\<close>. What follows the last number is not looked at.
\<close>

definition skip_blanks :: "string \<Rightarrow> string option" where
  "skip_blanks s =
     (let s' = trim_front (filter (\<lambda>w. w \<noteq> [CHR 0x0A]) space_encodings) s
      in if s' = [] \<or> hd s' = CHR 0x0A then None else Some s')"

definition scan_int :: "string \<Rightarrow> (int \<times> string) option" where
  "scan_int s =
     (case skip_blanks s of
        None \<Rightarrow> None
      | Some s \<Rightarrow>
          let (neg, r) = split_sign s;
              ds = takeWhile is_digit r;
              n = (if neg then - int (dec_nat ds) else int (dec_nat ds))
          in if ds = [] \<or> \<not> in_int64 n then None else Some (n, dropWhile is_digit r))"

definition scan_colon :: "string \<Rightarrow> string option" where
  "scan_colon s = (case s of [] \<Rightarrow> None | c # r \<Rightarrow> if c = CHR '':'' then Some r else None)"

definition Sscanf_hms :: "string \<Rightarrow> (int \<times> int \<times> int) option" where
  "Sscanf_hms raw =
     (case scan_int raw of
        None \<Rightarrow> None
      | Some (h, s) \<Rightarrow>
          (case Option.bind (scan_colon s) scan_int of
             None \<Rightarrow> None
           | Some (m, s) \<Rightarrow>
               (case Option.bind (scan_colon s) scan_int of
                  None \<Rightarrow> None
                | Some (sec, _) \<Rightarrow> Some (h, m, sec))))"

section \<open>env.Duration\<close>

definition Second :: int where
  "Second = 10 ^ 9"

definition Minute :: int where
  "Minute = 60 * Second"

definition Hour :: int where
  "Hour = 60 * Minute"

definition Env_Duration :: "environ \<Rightarrow> string \<Rightarrow> int \<Rightarrow> int" where
  "Env_Duration env key fallback =
     (let raw = Env_String env key (Duration_String fallback)
      in case ParseDuration raw of
        Some value \<Rightarrow> value
      | None \<Rightarrow>
          (case Sscanf_hms raw of
             Some (h, m, s) \<Rightarrow>
               wrap64 (wrap64 (wrap64 (h * Hour) + wrap64 (m * Minute)) + wrap64 (s * Second))
           | None \<Rightarrow> fallback))"

section \<open>Hours, minutes and seconds\<close>

definition no_digit_ahead :: "string \<Rightarrow> bool" where
  "no_digit_ahead r \<longleftrightarrow> r = [] \<or> \<not> is_digit (hd r)"

lemma foldl_dec_mono: "x \<le> foldl (\<lambda>n c. 10 * n + digit_val c) x ds"
proof (induction ds arbitrary: x)
  case (Cons c ds)
  show ?case using Cons [of "10 * x + digit_val c"] by simp
qed simp

lemma leadingInt_digits:
  assumes "list_all is_digit ds" "no_digit_ahead r"
    and "foldl (\<lambda>n c. 10 * n + digit_val c) x ds < 2 ^ 63"
  shows "leadingInt x (ds @ r) = Some (foldl (\<lambda>n c. 10 * n + digit_val c) x ds, r)"
  using assms
proof (induction ds arbitrary: x)
  case Nil
  then show ?case by (cases r) (simp_all add: no_digit_ahead_def)
next
  case (Cons c ds)
  have "10 * x + digit_val c < 2 ^ 63"
    using foldl_dec_mono [of "10 * x + digit_val c" ds] Cons.prems(3) by simp
  then have "x \<le> 2 ^ 63 div 10" "10 * x + digit_val c \<le> 2 ^ 63" by simp_all
  then show ?case
    using Cons.IH [of "10 * x + digit_val c"] Cons.prems by (simp add: Let_def not_less)
qed

lemma leadingInt_written:
  assumes "no_digit_ahead r" "n < 2 ^ 63"
  shows "leadingInt 0 (nat_str n @ r) = Some (n, r)" "number_char (hd (nat_str n @ r))"
proof -
  have ds: "list_all is_digit (nat_str n)" "nat_str n \<noteq> []"
    using nat_str_digits by blast+
  show "leadingInt 0 (nat_str n @ r) = Some (n, r)"
    using leadingInt_digits [OF ds(1) assms(1), of 0] assms(2) dec_nat_nat_str [of n] by (simp add: dec_nat_def)
  show "number_char (hd (nat_str n @ r))"
    using ds by (cases "nat_str n") (auto simp: number_char_def)
qed

text \<open>The other notation of \<open>env.Duration\<close>, with colons.\<close>

lemma skip_blanks_digit:
  assumes "is_digit c"
  shows "skip_blanks (c # s) = Some (c # s)"
proof -
  let ?ws = "filter (\<lambda>w. w \<noteq> [CHR 0x0A]) space_encodings"
  have "\<forall>w \<in> set ?ws. w \<noteq> [] \<longrightarrow> code_of (hd w) < 33 \<or> 126 < code_of (hd w)"
    by (auto simp: space_encodings_def upt_rec)
  then have "\<not> opens ?ws (c # s)"
    using assms by (auto simp: opens_def starts_with_def is_digit_def take_Cons' neq_Nil_conv split: if_splits)
  moreover have "c \<noteq> CHR 0x0A" using assms by (auto simp: is_digit_def)
  ultimately show ?thesis by (simp add: skip_blanks_def trim_front_unopened)
qed

lemma scan_int_nat:
  assumes "no_digit_ahead r" "in_int64 (int n)"
  shows "scan_int (nat_str n @ r) = Some (int n, r)"
proof -
  have ds: "list_all is_digit (nat_str n)" "nat_str n \<noteq> []"
    using nat_str_digits by blast+
  have "takeWhile is_digit (nat_str n @ r) = nat_str n" "dropWhile is_digit (nat_str n @ r) = r"
    using ds(1) assms(1) by (induction "nat_str n") (cases r; auto simp: no_digit_ahead_def list_all_iff)+
  moreover have "skip_blanks (nat_str n @ r) = Some (nat_str n @ r)"
    using ds skip_blanks_digit by (cases "nat_str n") auto
  moreover have "split_sign (nat_str n @ r) = (False, nat_str n @ r)"
    using ds digit_not_sign by (cases "nat_str n") (auto simp: split_sign_def)
  ultimately show ?thesis
    using ds(2) assms(2) by (simp add: scan_int_def Let_def)
qed

definition colon_text :: "nat \<Rightarrow> nat \<Rightarrow> nat \<Rightarrow> string" where
  "colon_text h m s = nat_str h @ '':'' @ nat_str m @ '':'' @ nat_str s"

lemma ParseDuration_colon: "h < 2 ^ 63 \<Longrightarrow> ParseDuration (colon_text h m s) = None"
proof -
  assume h: "h < 2 ^ 63"
  have ds: "list_all is_digit (nat_str h)" "nat_str h \<noteq> []"
    using nat_str_digits by blast+
  have colon: "no_digit_ahead ('':'' @ t)" "\<not> number_char CHR '':''" for t
    by (simp_all add: no_digit_ahead_def number_char_def is_digit_def)
  have "leadingInt 0 (colon_text h m s) = Some (h, '':'' @ nat_str m @ '':'' @ nat_str s)"
    using leadingInt_written(1) [OF colon(1) h] by (simp add: colon_text_def)
  moreover have "unitMap (CHR '':'' # takeWhile (\<lambda>c. \<not> number_char c) t) = None" for t
    by (simp add: unitMap_def)
  ultimately have "duration_part (colon_text h m s) = None"
    using colon(2) by (simp add: duration_part_def fraction_part_def unit_part_def Let_def)
  moreover have "split_sign (colon_text h m s) = (False, colon_text h m s)"
    using ds digit_not_sign by (cases "nat_str h") (auto simp: split_sign_def colon_text_def)
  moreover have "2 \<le> length (colon_text h m s)" "colon_text h m s \<noteq> []"
    using ds(2) by (cases "nat_str h"; simp add: colon_text_def)+
  ultimately show ?thesis
    by (auto simp: ParseDuration_def duration_loop.simps [of 0])
qed

lemma Env_Duration_colon:
  assumes "Getenv env key = colon_text h m s" "h < 2 ^ 63" "m < 2 ^ 63" "s < 2 ^ 63"
  shows "Env_Duration env key fallback = wrap64 (int (h * 3600 + m * 60 + s) * Second)"
proof -
  have colon: "no_digit_ahead ('':'' @ t)" "no_digit_ahead []" for t
    by (simp_all add: no_digit_ahead_def is_digit_def)
  have "colon_text h m s \<noteq> []" using nat_str_digits [of h] by (simp add: colon_text_def)
  moreover have "Sscanf_hms (colon_text h m s) = Some (int h, int m, int s)"
    using scan_int_nat [OF colon(1), of h] scan_int_nat [OF colon(1), of m] scan_int_nat [OF colon(2), of s]
      assms(2-4)
    by (simp add: Sscanf_hms_def colon_text_def scan_colon_def in_int64_def)
  moreover have "wrap64 (wrap64 (wrap64 (int h * Hour) + wrap64 (int m * Minute)) + wrap64 (int s * Second))
      = wrap64 (int (h * 3600 + m * 60 + s) * Second)"
    by (simp only: wrap64_add) (simp add: Hour_def Minute_def algebra_simps)
  ultimately show ?thesis
    using assms(1) ParseDuration_colon [OF assms(2)] by (simp add: Env_Duration_def Env_String_def)
qed

section \<open>What a duration variable gives\<close>

text \<open>C34: hours, minutes and seconds between colons are that many seconds, in 64 bits that wrap around: a value
  of more than 292 years comes out as some other duration, which may be short and positive.\<close>

theorem colon_durations_wrap:
  assumes "Getenv env key = colon_text h m s" "h < 2 ^ 63" "m < 2 ^ 63" "s < 2 ^ 63"
  shows "Env_Duration env key fallback = wrap64 (int (h * 3600 + m * 60 + s) * Second)
    \<and> in_int64 (Env_Duration env key fallback)
    \<and> ((h * 3600 + m * 60 + s) * 10 ^ 9 < 2 ^ 63 \<longrightarrow>
         Env_Duration env key fallback = int (h * 3600 + m * 60 + s) * Second)"
proof -
  have "in_int64 (int n * Second)" if "n * 10 ^ 9 < 2 ^ 63" for n
    using that by (simp add: in_int64_def Second_def)
  then show ?thesis
    unfolding Env_Duration_colon [OF assms] using wrap64_range wrap64_id by blast
qed

theorem colon_durations_wrap_witness:
  "Env_Duration [(''READ_TIMEOUT'', colon_text 5124096 0 0)] ''READ_TIMEOUT'' (15 * Second) = 1526290448384
   \<and> Env_Duration [(''READ_TIMEOUT'', colon_text 0 1 30)] ''READ_TIMEOUT'' (15 * Second) = 90 * Second"
proof -
  have g: "Getenv [(''READ_TIMEOUT'', v)] ''READ_TIMEOUT'' = v" for v
    by (simp add: Getenv_def)
  have "wrap64 (int (5124096 * 3600 + 0 * 60 + 0) * Second) = 1526290448384"
    by (simp add: wrap64_def Second_def)
  then show ?thesis
    using colon_durations_wrap [OF g, of 5124096 0 0 "15 * Second"] colon_durations_wrap [OF g, of 0 1 30 "15 * Second"]
    by simp
qed

end
