(* ===== verification/DurationText.thy ===== *)
theory DurationText
  imports Duration
begin

text \<open>
  \<open>time.ParseDuration\<close> reads every text \<open>Duration.String\<close> writes, for each of the \<open>2 ^ 64\<close> durations: \<open>env.Duration\<close>
  turns its default into text and parses it again. The fraction of a unit goes through \<open>float64\<close>; the lemmas
  of the first section show that this is exact for the fractions that are written.
\<close>

section \<open>Exact floats\<close>

lemma bits_le: "bits n \<le> k \<longleftrightarrow> n < 2 ^ k"
proof (induction k arbitrary: n)
  case 0
  then show ?case by (subst bits.simps) simp
next
  case (Suc k)
  show ?case
    using Suc [of "n div 2"] by (subst bits.simps) auto
qed

lemma bits_mult: "bits (m * d) \<le> bits m + bits d"
proof -
  have "m < 2 ^ bits m" "d < 2 ^ bits d"
    using bits_le by blast+
  then have "m * d < 2 ^ bits m * 2 ^ bits d"
    by (intro mult_strict_mono) simp_all
  then show ?thesis by (simp add: bits_le power_add)
qed

text \<open>The fraction is the whole number \<open>m\<close>.\<close>

definition is_whole :: "nat \<times> nat \<Rightarrow> nat \<Rightarrow> bool" where
  "is_whole x m \<longleftrightarrow> 0 < snd x \<and> fst x = m * snd x"

lemma round53_whole:
  assumes "is_whole x m" "m < 2 ^ 53"
  shows "is_whole (round53 x) m"
proof (cases "m = 0")
  case True
  then show ?thesis using assms(1) by (cases x) (simp add: is_whole_def round53_def)
next
  case False
  obtain n d where x: "x = (n, d)" "0 < d" "n = m * d" "n \<noteq> 0"
    using assms(1) False by (cases x) (auto simp: is_whole_def)
  define e0 where "e0 = int (bits n) - int (bits d) - 53"
  have "bits m \<le> 53" using assms(2) bits_le by blast
  then have "bits n \<le> 53 + bits d"
    using bits_mult [of m d] x(3) by simp
  then have e0: "e0 \<le> 0" by (simp add: e0_def)
  obtain a0 b0 where s0: "scale2 (- e0) x = (a0, b0)" by fastforce
  define e where "e = (if 2 ^ 53 \<le> a0 div b0 then e0 + 1 else e0)"
  have e: "e \<le> 0"
  proof (cases "e0 = 0")
    case True
    then have "a0 div b0 = m" using s0 x by (auto simp: scale2_def)
    then show ?thesis using assms(2) True by (simp add: e_def)
  qed (use e0 in \<open>simp add: e_def\<close>)
  then have s: "scale2 (- e) x = (m * 2 ^ nat (- e) * d, d)"
    by (simp add: x scale2_def)
  have "round53 x = scale2 e (m * 2 ^ nat (- e), 1)"
    using x(2,4) s0 s
    by (simp only: round53_def x(1) prod.case Let_def if_False e0_def [symmetric] e_def [symmetric]) simp
  then show ?thesis
    using e by (cases "e = 0") (simp_all add: scale2_def is_whole_def)
qed

lemma frac_ns_exact:
  assumes "k \<le> p" "p \<le> 9" "f * 10 ^ (p - k) < 2 ^ 53"
  shows "frac_ns f k (10 ^ p) = f * 10 ^ (p - k)"
proof -
  have "f < 2 ^ 53"
    using assms(3) by (rule le_less_trans [rotated]) simp
  then have f: "is_whole (round53 (f, 1)) f"
    by (intro round53_whole) (simp_all add: is_whole_def)
  have "(10 :: nat) ^ (p - k) \<le> 10 ^ 9"
    using assms(2) by (intro power_increasing) simp_all
  moreover have "(10 :: nat) ^ p = 10 ^ (p - k) * 10 ^ k"
    using assms(1) by (simp flip: power_add)
  ultimately have s: "is_whole (round53 (10 ^ p, 10 ^ k)) (10 ^ (p - k))"
    by (intro round53_whole) (simp_all add: is_whole_def)
  have "is_whole (fst (round53 (f, 1)) * fst (round53 (10 ^ p, 10 ^ k)), snd (round53 (f, 1)) * snd (round53 (10 ^ p, 10 ^ k)))
      (f * 10 ^ (p - k))"
    using f s by (simp add: is_whole_def)
  then have "is_whole (float_mult (round53 (f, 1)) (round53 (10 ^ p, 10 ^ k))) (f * 10 ^ (p - k))"
    unfolding float_mult_def using assms(3) by (rule round53_whole)
  then show ?thesis
    by (auto simp: frac_ns_def is_whole_def split: prod.splits)
qed

section \<open>A number and its fraction\<close>

text \<open>A part as \<open>Duration.String\<close> writes it: digits and a unit, then nothing or the next part.\<close>

definition number_ahead :: "string \<Rightarrow> bool" where
  "number_ahead r \<longleftrightarrow> r = [] \<or> number_char (hd r)"

lemma takeWhile_unit:
  assumes "list_all (\<lambda>c. \<not> number_char c) u" "number_ahead r"
  shows "takeWhile (\<lambda>c. \<not> number_char c) (u @ r) = u" "dropWhile (\<lambda>c. \<not> number_char c) (u @ r) = r"
  using assms by (induction u) (cases r; auto simp: number_ahead_def)+

lemma number_ahead_nat_str: "number_ahead (nat_str n @ r)"
  using nat_str_digits [of n] by (cases "nat_str n") (auto simp: number_ahead_def number_char_def)

lemma leadingFraction_digits:
  assumes "list_all is_digit ds" "no_digit_ahead r"
    and "foldl (\<lambda>n c. 10 * n + digit_val c) x ds < 2 ^ 63"
  shows "leadingFraction x k False (ds @ r) = (foldl (\<lambda>n c. 10 * n + digit_val c) x ds, k + length ds, r)"
  using assms
proof (induction ds arbitrary: x k)
  case Nil
  then show ?case by (cases r) (simp_all add: no_digit_ahead_def)
next
  case (Cons c ds)
  have "10 * x + digit_val c < 2 ^ 63"
    using foldl_dec_mono [of "10 * x + digit_val c" ds] Cons.prems(3) by simp
  then have "x \<le> (2 ^ 63 - 1) div 10" "10 * x + digit_val c \<le> 2 ^ 63" by simp_all
  then show ?case
    using Cons.IH [of "10 * x + digit_val c"] Cons.prems by (simp add: Let_def not_less)
qed

lemma mod_power_Suc: "v mod 10 ^ Suc p = 10 * (v div 10 mod 10 ^ p) + v mod (10 :: nat)"
  by (simp add: mod_mult2_eq)

lemma last_digits_value:
  "list_all is_digit (last_digits p v) \<and> length (last_digits p v) = p \<and> dec_nat (last_digits p v) = v mod 10 ^ p"
proof (induction p arbitrary: v)
  case (Suc p)
  show ?case using Suc [of "v div 10"] by (simp add: dec_nat_snoc mod_power_Suc del: power_Suc)
qed (simp add: dec_nat_def)

lemma dec_nat_zeros: "dec_nat (ds @ replicate z CHR ''0'') = dec_nat ds * 10 ^ z"
proof (induction z)
  case (Suc z)
  have "dec_nat (ds @ replicate (Suc z) CHR ''0'') = 10 * dec_nat (ds @ replicate z CHR ''0'')"
    using dec_nat_snoc [of "ds @ replicate z CHR ''0''" "CHR ''0''"]
    by (simp add: replicate_append_same digit_val_def)
  then show ?case using Suc by simp
qed simp

lemma dropWhile_rev_zeros:
  "xs = rev (dropWhile (\<lambda>c. c = CHR ''0'') (rev xs)) @ replicate (length (takeWhile (\<lambda>c. c = CHR ''0'') (rev xs))) CHR ''0''"
proof -
  have "takeWhile (\<lambda>c. c = z) ys = replicate (length (takeWhile (\<lambda>c. c = z) ys)) z" for z and ys :: string
    by (induction ys) auto
  then show ?thesis
    by (metis rev_append rev_replicate rev_rev_ident takeWhile_dropWhile_id)
qed

lemma digit_val_pos: "is_digit c \<Longrightarrow> c \<noteq> CHR ''0'' \<Longrightarrow> 0 < digit_val c"
proof -
  assume c: "is_digit c" "c \<noteq> CHR ''0''"
  have "code_of c \<noteq> code_of CHR ''0''"
    using c(2) by (metis char_of_char)
  then show ?thesis using c(1) by (simp add: is_digit_def digit_val_def)
qed

lemma fmtFrac_cases:
  assumes "fmtFrac v p = (f, n)"
  obtains "f = []" "n = v div 10 ^ p" "v mod 10 ^ p = 0"
  | ds where "f = CHR ''.'' # ds" "n = v div 10 ^ p" "ds \<noteq> []" "list_all is_digit ds" "length ds \<le> p"
    "dec_nat ds * 10 ^ (p - length ds) = v mod 10 ^ p" "0 < dec_nat ds"
proof -
  define ds where "ds = rev (dropWhile (\<lambda>c. c = CHR ''0'') (rev (last_digits p v)))"
  obtain z where z: "last_digits p v = ds @ replicate z CHR ''0''"
    using dropWhile_rev_zeros [of "last_digits p v"] by (auto simp: ds_def)
  have len: "length ds + z = p"
    using last_digits_value [of p v] by (simp add: z)
  have dec: "dec_nat ds * 10 ^ z = v mod 10 ^ p"
    using last_digits_value [of p v] by (simp add: z dec_nat_zeros)
  have f: "f = (if ds = [] then [] else CHR ''.'' # ds)" "n = v div 10 ^ p"
    using assms by (simp_all add: fmtFrac_def ds_def [symmetric] Let_def)
  show thesis
  proof (cases "ds = []")
    case True
    then show thesis using that(1) f dec by (simp add: dec_nat_def)
  next
    case False
    have dig: "list_all is_digit ds"
      using last_digits_value [of p v] by (simp add: z)
    have "last ds \<noteq> CHR ''0''"
      using False hd_dropWhile [of "\<lambda>c. c = CHR ''0''" "rev (last_digits p v)"]
      by (simp add: ds_def last_rev)
    then have "0 < digit_val (last ds)"
      using digit_val_pos dig False by (simp add: list_all_iff)
    moreover have "dec_nat ds = 10 * dec_nat (butlast ds) + digit_val (last ds)"
      using dec_nat_snoc [of "butlast ds" "last ds"] False by simp
    ultimately have "0 < dec_nat ds" by simp
    moreover have "p - length ds = z" using len by simp
    ultimately show thesis using that(2) f dec dig False len by simp
  qed
qed

text \<open>What \<open>fmtFrac\<close> writes before a unit of \<open>10 ^ p\<close> nanoseconds is read as the value it was made from.\<close>

lemma duration_part_written:
  assumes u: "u \<noteq> []" "list_all (\<lambda>c. \<not> number_char c) u" "unitMap u = Some (10 ^ p)" "p \<le> 9"
    and r: "number_ahead r" and v: "fmtFrac v p = (f, n)" "v \<le> 2 ^ 63" "n < 2 ^ 63"
  shows "duration_part (nat_str n @ f @ u @ r) = Some (v, r)"
proof -
  have ds: "nat_str n \<noteq> []" using nat_str_digits by blast
  have nd: "no_digit_ahead (u @ r)"
    using u(1,2) by (cases u) (auto simp: no_digit_ahead_def number_char_def)
  have n: "n = v div 10 ^ p" using v(1) by (auto simp: fmtFrac_def Let_def)
  then have "n \<le> 2 ^ 63 div 10 ^ p" using v(2) by (simp add: div_le_mono)
  then have unit: "unit_part n f' k (u @ r) =
      (let v' = (if 0 < f' then n * 10 ^ p + frac_ns f' k (10 ^ p) else n * 10 ^ p)
       in if 0 < f' \<and> 2 ^ 63 < v' then None else Some (v', r))" for f' k
    using u(1,3) takeWhile_unit [OF u(2) r] by (simp add: unit_part_def Let_def not_less)
  from v(1) show ?thesis
  proof (cases rule: fmtFrac_cases)
    case 1
    note leadingInt_written [OF nd v(3)]
    moreover have "fraction_part (u @ r) = (0, 0, u @ r, False)"
      using u(1,2) by (cases u) (auto simp: fraction_part_def number_char_def)
    moreover have "n * 10 ^ p = v"
      using 1(2,3) by (simp add: dvd_eq_mod_eq_0)
    ultimately show ?thesis
      using 1(1) ds unit by (simp add: duration_part_def)
  next
    case (2 fs)
    have dot: "no_digit_ahead (CHR ''.'' # t)" for t by (simp add: no_digit_ahead_def is_digit_def)
    note leadingInt_written [OF dot [of "fs @ u @ r"] v(3)]
    moreover have small: "v mod 10 ^ p < 10 ^ 9"
      using u(4) power_increasing [of p 9 "10 :: nat"] by (intro less_le_trans [OF mod_less_divisor]) simp_all
    have fs: "dec_nat fs \<le> v mod 10 ^ p"
      using 2(6) by (metis le_refl mult.right_neutral mult_le_mono one_le_numeral one_le_power)
    then have "leadingFraction 0 0 False (fs @ u @ r) = (dec_nat fs, length fs, u @ r)"
      using leadingFraction_digits [OF 2(4) nd, of 0 0] small by (simp add: dec_nat_def)
    then have "fraction_part (CHR ''.'' # fs @ u @ r) = (dec_nat fs, length fs, u @ r, True)"
      using 2(3) by (simp add: fraction_part_def)
    moreover have "frac_ns (dec_nat fs) (length fs) (10 ^ p) = v mod 10 ^ p"
      using frac_ns_exact [OF 2(5) u(4), of "dec_nat fs"] small 2(6) by simp
    then have "n * 10 ^ p + frac_ns (dec_nat fs) (length fs) (10 ^ p) = v"
      using 2(2) by (simp only: div_mult_mod_eq)
    ultimately show ?thesis
      using 2(1,7) unit v(2) by (simp add: duration_part_def)
  qed
qed

lemma whole_part_written:
  assumes u: "u \<noteq> []" "list_all (\<lambda>c. \<not> number_char c) u" "unitMap u = Some unit" and r: "number_ahead r"
    and n: "n \<le> 2 ^ 63 div unit" "n < 2 ^ 63"
  shows "duration_part (nat_str n @ u @ r) = Some (n * unit, r)"
proof -
  have nd: "no_digit_ahead (u @ r)"
    using u(1,2) by (cases u) (auto simp: no_digit_ahead_def number_char_def)
  have ds: "nat_str n \<noteq> []" using nat_str_digits by blast
  note leadingInt_written [OF nd n(2)]
  moreover have "fraction_part (u @ r) = (0, 0, u @ r, False)"
    using u(1,2) by (cases u) (auto simp: fraction_part_def number_char_def)
  ultimately show ?thesis
    using u n(1) ds takeWhile_unit [OF u(2) r]
    by (simp add: duration_part_def unit_part_def Let_def not_less)
qed

lemma duration_loop_part:
  assumes "duration_part s = Some (v, r)" "s \<noteq> []" "d + v \<le> 2 ^ 63"
  shows "duration_loop d s = duration_loop (d + v) r"
proof -
  have "(d + v) mod 2 ^ 64 = d + v" using assms(3) by simp
  then show ?thesis using assms by (subst duration_loop.simps) (simp add: Let_def)
qed

section \<open>Every duration\<close>

lemma unit_facts:
  "unitMap ''ns'' = Some (10 ^ 0)" "unitMap [CHR 0xC2, CHR 0xB5, CHR ''s''] = Some (10 ^ 3)"
  "unitMap ''ms'' = Some (10 ^ 6)" "unitMap ''s'' = Some (10 ^ 9)" "unitMap ''m'' = Some (60 * 10 ^ 9)"
  "unitMap ''h'' = Some (3600 * 10 ^ 9)"
  "list_all (\<lambda>c. \<not> number_char c) ''ns''" "list_all (\<lambda>c. \<not> number_char c) [CHR 0xC2, CHR 0xB5, CHR ''s'']"
  "list_all (\<lambda>c. \<not> number_char c) ''ms''" "list_all (\<lambda>c. \<not> number_char c) ''s''"
  "list_all (\<lambda>c. \<not> number_char c) ''m''" "list_all (\<lambda>c. \<not> number_char c) ''h''"
  by (simp_all add: unitMap_def number_char_def is_digit_def)

lemma number_ahead_nil: "number_ahead []"
  by (simp add: number_ahead_def)

lemma units_read:
  assumes "u \<noteq> []" "list_all (\<lambda>c. \<not> number_char c) u" "unitMap u = Some (10 ^ p)" "p \<le> 9"
    and "fmtFrac v p = (f, n)" "n < 2 ^ 63" "d + v \<le> 2 ^ 63"
  shows "duration_loop d (nat_str n @ f @ u) = Some (d + v)"
proof -
  have "duration_part (nat_str n @ f @ u @ []) = Some (v, [])"
    by (rule duration_part_written [OF assms(1-4) number_ahead_nil assms(5)]) (use assms(6,7) in simp_all)
  then show ?thesis
    using duration_loop_part [of "nat_str n @ f @ u" v "[]" d] assms(1,7)
    by (simp add: duration_loop.simps [of _ "[]"])
qed

lemma whole_read:
  assumes "u \<noteq> []" "list_all (\<lambda>c. \<not> number_char c) u" "unitMap u = Some unit" "0 < unit"
    and "number_ahead r" "d + n * unit < 2 ^ 63"
  shows "duration_loop d (nat_str n @ u @ r) = duration_loop (d + n * unit) r"
proof -
  have b: "n * unit < 2 ^ 63" using assms(6) by simp
  then have "n \<le> 2 ^ 63 div unit"
    using assms(4) by (simp add: less_eq_div_iff_mult_less_eq)
  moreover have "n \<le> n * unit" using assms(4) by simp
  then have "n < 2 ^ 63" using b by (rule le_less_trans)
  ultimately have "duration_part (nat_str n @ u @ r) = Some (n * unit, r)"
    by (rule whole_part_written [OF assms(1-3,5)])
  then show ?thesis
    using duration_loop_part assms(1,6) by simp
qed

lemma mod_power_Suc_digits:
  "v mod 10 ^ Suc p div 10 = v div 10 mod 10 ^ p" "v mod 10 ^ Suc p mod 10 = v mod (10 :: nat)"
  unfolding mod_power_Suc by simp_all

lemma last_digits_mod: "v mod 10 ^ p = w mod 10 ^ p \<Longrightarrow> last_digits p v = last_digits p w"
proof (induction p arbitrary: v w)
  case (Suc p)
  have "v div 10 mod 10 ^ p = w div 10 mod 10 ^ p" "v mod 10 = w mod 10"
    using Suc.prems mod_power_Suc_digits [of _ p] by metis+
  then show ?case using Suc.IH [of "v div 10" "w div 10"] by simp
qed simp

lemma fmtFrac_mod: "fmtFrac v p = (f, n) \<Longrightarrow> fmtFrac (a * 10 ^ p + v mod 10 ^ p) p = (f, a)"
  using last_digits_mod [of "a * 10 ^ p + v mod 10 ^ p" p v] by (auto simp: fmtFrac_def Let_def)

text \<open>The text of a duration of one second or more.\<close>

definition long_text :: "nat \<Rightarrow> string" where
  "long_text u =
     (case fmtFrac u 9 of
        (f, secs) \<Rightarrow>
          let s_part = nat_str (secs mod 60) @ f @ ''s'';
              mins = secs div 60
          in if mins = 0 then s_part
             else
               let m_part = nat_str (mins mod 60) @ ''m'' @ s_part;
                   hours = mins div 60
               in if hours = 0 then m_part else nat_str hours @ ''h'' @ m_part)"

lemma Duration_String_cases:
  "Duration_String d =
     (let u = nat \<bar>d\<bar>;
          body =
            (if u = 0 then ''0s''
             else if u < 1000 then fmt_units u 0 ''ns''
             else if u < 10 ^ 6 then fmt_units u 3 [CHR 0xC2, CHR 0xB5, CHR ''s'']
             else if u < 10 ^ 9 then fmt_units u 6 ''ms''
             else long_text u)
      in if d < 0 then CHR ''-'' # body else body)"
  unfolding Duration_String_def long_text_def ..

lemma long_text_read:
  assumes "u \<le> 2 ^ 63"
  shows "duration_loop 0 (long_text u) = Some u"
proof -
  obtain f secs where f: "fmtFrac u 9 = (f, secs)" by fastforce
  have secs: "secs = u div 10 ^ 9" using f by (auto simp: fmtFrac_def Let_def)
  define S where "S = secs mod 60 * 10 ^ 9 + u mod 10 ^ 9"
  define M where "M = secs div 60 mod 60 * (60 * 10 ^ 9)"
  define H where "H = secs div 60 div 60 * (3600 * 10 ^ 9)"
  have u: "H + M + S = u"
  proof -
    have "secs div 60 div 60 * 60 + secs div 60 mod 60 = secs div 60" "secs div 60 * 60 + secs mod 60 = secs"
      "secs * 10 ^ 9 + u mod 10 ^ 9 = u"
      unfolding secs by (simp_all only: div_mult_mod_eq)
    moreover have "a * (3600 * 10 ^ 9) + b * (60 * 10 ^ 9) + (c * 10 ^ 9 + r) = ((a * 60 + b) * 60 + c) * 10 ^ 9 + r"
      for a b c r :: nat by simp
    ultimately show ?thesis unfolding H_def M_def S_def by metis
  qed
  have "secs \<le> u" by (simp add: secs)
  have pos: "0 < S \<or> (M = 0 \<and> H = 0) \<or> 0 < M + H" by linarith
  have s: "duration_loop d (nat_str (secs mod 60) @ f @ ''s'') = Some (d + S)" if "d + S \<le> 2 ^ 63" for d
  proof (rule units_read [where p = 9])
    show "fmtFrac S 9 = (f, secs mod 60)" unfolding S_def by (rule fmtFrac_mod [OF f])
    have "secs mod 60 < 60" by simp
    then show "secs mod 60 < 2 ^ 63" by (rule less_trans) simp
  qed (use that unit_facts in simp_all)
  have m: "duration_loop d (nat_str (secs div 60 mod 60) @ ''m'' @ nat_str (secs mod 60) @ f @ ''s'') = Some (d + M + S)"
    if "d + M + S \<le> 2 ^ 63" "d + M < 2 ^ 63" for d
    using whole_read [of "''m''" "60 * 10 ^ 9" "nat_str (secs mod 60) @ f @ ''s''" d "secs div 60 mod 60"]
      unit_facts number_ahead_nat_str that s [of "d + M"] unfolding M_def by simp
  show ?thesis
  proof (cases "secs div 60 = 0")
    case True
    then have "M = 0" "H = 0" by (simp_all add: M_def H_def)
    then show ?thesis
      using True f s [of 0] u assms by (simp add: long_text_def)
  next
    case min: False
    show ?thesis
    proof (cases "secs div 60 div 60 = 0")
      case True
      then have h: "H = 0" by (simp add: H_def)
      have "M \<le> 59 * (60 * 10 ^ 9)" unfolding M_def by (intro mult_le_mono1) simp
      then show ?thesis
        using min True f m [of 0] u assms h by (simp add: long_text_def)
    next
      case False
      have small: "H + M < 2 ^ 63"
      proof -
        have "H + M = (secs div 60 div 60 * 60 + secs div 60 mod 60) * (60 * 10 ^ 9)"
        proof -
          have "a * (3600 * 10 ^ 9) + b * (60 * 10 ^ 9) = (a * 60 + b) * (60 * 10 ^ 9)" for a b :: nat by simp
          then show ?thesis unfolding H_def M_def .
        qed
        moreover have "2 ^ 63 mod (60 * 10 ^ 9) \<noteq> (0 :: nat)" by simp
        ultimately have "H + M \<noteq> 2 ^ 63" by (metis mod_mult_self2_is_0)
        then show ?thesis using u assms by linarith
      qed
      have "duration_loop 0 (nat_str (secs div 60 div 60) @ ''h'' @ nat_str (secs div 60 mod 60) @ ''m''
          @ nat_str (secs mod 60) @ f @ ''s'') = Some (H + M + S)"
        using whole_read [of "''h''" "3600 * 10 ^ 9" "nat_str (secs div 60 mod 60) @ ''m'' @ nat_str (secs mod 60) @ f @ ''s''"
            0 "secs div 60 div 60"] unit_facts number_ahead_nat_str m [of H] u assms small
        unfolding H_def [symmetric] by simp
      then show ?thesis
        using min False f u by (simp add: long_text_def Let_def)
    qed
  qed
qed

lemma fmt_units_read:
  assumes "u \<noteq> []" "list_all (\<lambda>c. \<not> number_char c) u" "unitMap u = Some (10 ^ p)" "p \<le> 9" "v < 2 ^ 63"
  shows "duration_loop 0 (fmt_units v p u) = Some v"
proof -
  obtain f n where f: "fmtFrac v p = (f, n)" by fastforce
  have "n \<le> v" using f by (auto simp: fmtFrac_def Let_def)
  then show ?thesis
    using units_read [OF assms(1-4) f, of 0] assms(5) f by (simp add: fmt_units_def)
qed

definition starts_with_digit :: "string \<Rightarrow> bool" where
  "starts_with_digit s \<longleftrightarrow> (\<exists>n r. s = nat_str n @ r \<and> r \<noteq> [])"

lemma starts_with_digit_sign: "starts_with_digit s \<Longrightarrow> split_sign s = (False, s) \<and> 2 \<le> length s"
proof -
  assume "starts_with_digit s"
  then obtain n r where "s = nat_str n @ r" "r \<noteq> []" by (auto simp: starts_with_digit_def)
  then show ?thesis
    using nat_str_digits [of n] digit_not_sign by (cases "nat_str n"; cases r) (auto simp: split_sign_def)
qed

text \<open>Every duration is read from its text, the least one, whose absolute value is no \<open>int64\<close>, included.\<close>

lemma ParseDuration_String:
  assumes "in_int64 d"
  shows "ParseDuration (Duration_String d) = Some d"
proof -
  define u where "u = nat \<bar>d\<bar>"
  define body where "body = (if u = 0 then ''0s''
     else if u < 1000 then fmt_units u 0 ''ns''
     else if u < 10 ^ 6 then fmt_units u 3 [CHR 0xC2, CHR 0xB5, CHR ''s'']
     else if u < 10 ^ 9 then fmt_units u 6 ''ms'' else long_text u)"
  have written: "Duration_String d = (if d < 0 then CHR ''-'' # body else body)"
    unfolding Duration_String_cases body_def u_def Let_def ..
  have u: "u \<le> 2 ^ 63" "int u = \<bar>d\<bar>" "0 \<le> d \<Longrightarrow> u \<le> 2 ^ 63 - 1"
    using assms by (auto simp: u_def in_int64_def)
  have zero: "''0s'' = nat_str 0 @ [] @ ''s''"
    by (subst nat_str.simps) (simp add: digit_char_def char_of_def bit_Suc_0_iff)
  have "last_digits p 0 = replicate p CHR ''0''" for p
    by (induction p) (simp_all add: replicate_append_same digit_char_def char_of_def bit_Suc_0_iff)
  then have "fmtFrac 0 9 = ([], 0)" by (simp add: fmtFrac_def Let_def)
  then have "duration_loop 0 ''0s'' = Some 0"
    unfolding zero using units_read [of "''s''" 9 0 "[]" 0 0] unit_facts by simp
  then have loop: "duration_loop 0 body = Some u"
    using fmt_units_read [of "''ns''" 0 u] fmt_units_read [of "[CHR 0xC2, CHR 0xB5, CHR ''s'']" 3 u]
      fmt_units_read [of "''ms''" 6 u] long_text_read [OF u(1)] unit_facts
    by (simp add: body_def)
  have "starts_with_digit (fmt_units v p t)" if "t \<noteq> []" for v p t
    using that by (auto simp: starts_with_digit_def fmt_units_def split: prod.split)
  moreover have "starts_with_digit (long_text u)"
    by (auto simp: starts_with_digit_def long_text_def Let_def split: prod.split)
  moreover have "starts_with_digit ''0s''"
    unfolding zero starts_with_digit_def by blast
  ultimately have "starts_with_digit body" by (simp add: body_def)
  then have sign: "split_sign body = (False, body)" "2 \<le> length body"
    using starts_with_digit_sign by blast+
  have "split_sign (CHR ''-'' # body) = (True, body)" by (simp add: split_sign_def)
  then show ?thesis
    using sign loop u by (cases "d < 0") (auto simp: ParseDuration_def written)
qed

lemma Env_Duration_unset: "Getenv env key = [] \<Longrightarrow> in_int64 d \<Longrightarrow> Env_Duration env key d = d"
  by (simp add: Env_Duration_def Env_String_unset ParseDuration_String)

section \<open>What a duration variable gives\<close>

text \<open>C33: the default, which the function writes as text and parses again, comes back unchanged where the
  variable is not set, and the text \<open>Duration.String\<close> makes of a duration is read as that duration where it is:
  for every duration, negative ones, fractions of a second and the ends of the range included.\<close>

theorem durations_survive_as_text:
  assumes "in_int64 d"
  shows "(Getenv env key = [] \<longrightarrow> Env_Duration env key d = d)
    \<and> (Getenv env key = Duration_String d \<longrightarrow> Env_Duration env key fallback = d)"
proof -
  have "Duration_String d \<noteq> []"
    using ParseDuration_String [OF assms] by (auto simp: ParseDuration_def split_sign_def)
  then show ?thesis
    using ParseDuration_String [OF assms] by (simp add: Env_Duration_def Env_String_def Let_def)
qed

theorem durations_survive_as_text_witness:
  "Env_Duration [] ''IDLE_TIMEOUT'' 1500001 = 1500001 \<and> Env_Duration [] ''IDLE_TIMEOUT'' (- (2 ^ 63)) = - (2 ^ 63)"
  using durations_survive_as_text [of 1500001 "[]" "''IDLE_TIMEOUT''" 0]
    durations_survive_as_text [of "- (2 ^ 63)" "[]" "''IDLE_TIMEOUT''" 0] by (simp add: in_int64_def Getenv_def)

end
