(* ===== verification/Config.thy ===== *)
theory Config
  imports DurationText
begin

text \<open>
  The configuration of \<open>platform/platform.go\<close>: the struct \<open>Config\<close>, \<open>NewConfig\<close>, which reads it from
  the process environment, \<open>csvEnv\<close> and \<open>Validate\<close>.
\<close>

section \<open>Comma separated values\<close>

text \<open>\<open>None\<close> is the \<open>nil\<close> slice.\<close>

definition csvEnv :: "environ \<Rightarrow> string \<Rightarrow> string list option" where
  "csvEnv env key =
     (let raw = TrimSpace (Env_String env key [])
      in if raw = [] then None
         else Some (filter (\<lambda>value. value \<noteq> []) (map TrimSpace (Split raw CHR '',''))))"

definition slice :: "'a list option \<Rightarrow> 'a list" where
  "slice xs = (case xs of None \<Rightarrow> [] | Some xs \<Rightarrow> xs)"

text \<open>Every value is trimmed and not empty, and no value holds a comma.\<close>

lemma trim_front_subset: "set (trim_front ws s) \<subseteq> set s"
  using trim_front_suffix [of s ws] by (metis set_append Un_upper2)

lemma TrimSpace_subset: "set (TrimSpace s) \<subseteq> set s"
  using trim_front_subset [of "map rev space_encodings" "rev (trim_front space_encodings s)"]
    trim_front_subset [of space_encodings s] by (auto simp: TrimSpace_def)

lemma csvEnv_values:
  assumes "v \<in> set (slice (csvEnv env key))"
  shows "v \<noteq> []" "TrimSpace v = v" "CHR '','' \<notin> set v"
proof -
  obtain p where p: "p \<in> set (Split (TrimSpace (Env_String env key [])) CHR '','')" "v = TrimSpace p"
    and v: "v \<noteq> []"
    using assms by (auto simp: slice_def csvEnv_def Let_def split: if_splits)
  show "v \<noteq> []" by (fact v)
  show "TrimSpace v = v" by (simp add: p(2))
  show "CHR '','' \<notin> set v" using Split_no_sep [OF p(1)] TrimSpace_subset p(2) by blast
qed

lemma Split_single: "sep \<notin> set s \<Longrightarrow> Split s sep = [s]"
  by (induction s) auto

lemma Split_join: "sep \<notin> set s \<Longrightarrow> Split (s @ sep # r) sep = s # Split r sep"
  by (induction s) auto

fun join :: "char \<Rightarrow> string list \<Rightarrow> string" where
  "join sep [] = []"
| "join sep [v] = v"
| "join sep (v # v' # vs) = v @ sep # join sep (v' # vs)"

lemma Split_of_join: "vs \<noteq> [] \<Longrightarrow> \<forall>v \<in> set vs. sep \<notin> set v \<Longrightarrow> Split (join sep vs) sep = vs"
  by (induction sep vs rule: join.induct) (simp_all add: Split_single Split_join)

lemma visible_append: "visible (s @ t) \<longleftrightarrow> visible s \<and> visible t"
  by (auto simp: visible_def)

lemma visible_join: "visible [sep] \<Longrightarrow> \<forall>v \<in> set vs. visible v \<Longrightarrow> visible (join sep vs)"
proof (induction sep vs rule: join.induct)
  case (3 sep v v' vs)
  then have "visible (v @ [sep] @ join sep (v' # vs))"
    unfolding visible_append by simp
  then show ?case by simp
qed (simp_all add: visible_def)

text \<open>Values written between commas are read back.\<close>

lemma csvEnv_join:
  assumes "vs \<noteq> []" "\<forall>v \<in> set vs. v \<noteq> [] \<and> visible v \<and> CHR '','' \<notin> set v"
    and "Getenv env key = join CHR '','' vs"
  shows "csvEnv env key = Some vs"
proof -
  have v: "visible (join CHR '','' vs)"
    by (rule visible_join) (use assms(2) in \<open>auto simp: visible_def\<close>)
  have s: "Split (join CHR '','' vs) CHR '','' = vs"
    using assms(1,2) by (intro Split_of_join) auto
  have ne: "join CHR '','' vs \<noteq> []"
    using s assms(1,2) by (metis Split.simps(1) list.set_intros(1))
  have "map TrimSpace vs = vs" "filter (\<lambda>v. v \<noteq> []) vs = vs"
    using assms(2) by (simp_all add: map_idI TrimSpace_visible filter_id_conv)
  then show ?thesis
    using assms(3) ne by (simp add: csvEnv_def Env_String_set TrimSpace_visible [OF v] s)
qed

section \<open>The configuration\<close>

record Config =
  cfg_Name :: string
  cfg_Env :: string
  cfg_Port :: string
  cfg_ShutdownTimeout :: int
  cfg_ReadTimeout :: int
  cfg_WriteTimeout :: int
  cfg_IdleTimeout :: int
  cfg_ReadHeaderTimeout :: int
  cfg_CORSAllowedOrigins :: "string list option"
  cfg_BodyLimit :: int
  cfg_ReleaseMode :: bool
  cfg_TrustedProxies :: "string list option"

definition Validate :: "Config \<Rightarrow> go_error option" where
  "Validate c =
     (if (case Atoi (cfg_Port c) of None \<Rightarrow> True | Some port \<Rightarrow> port < 1 \<or> 65535 < port)
      then Some (errorf (''config: HELLNET_PORT '' @ Quote (cfg_Port c) @ '' is invalid''))
      else if TrimSpace (cfg_Name c) = []
      then Some (errorf ''config: HELLNET_SERVICE cannot be empty'')
      else if cfg_ShutdownTimeout c \<le> 0 \<or> cfg_ReadTimeout c \<le> 0 \<or> cfg_WriteTimeout c \<le> 0
              \<or> cfg_IdleTimeout c \<le> 0 \<or> cfg_ReadHeaderTimeout c \<le> 0
      then Some (errorf ''config: timeouts must be positive'')
      else if cfg_BodyLimit c \<le> 0
      then Some (errorf ''config: BODY_LIMIT must be positive'')
      else None)"

definition env_config :: "environ \<Rightarrow> Config" where
  "env_config env =
     (let environmentName = TrimSpace (Env_String env ''HELLNET_ENVIRONMENT'' ''Development'')
      in \<lparr>cfg_Name = TrimSpace (Env_String env ''HELLNET_SERVICE'' []),
          cfg_Env = environmentName,
          cfg_Port = Env_String env ''HELLNET_PORT'' ''8080'',
          cfg_ShutdownTimeout = Env_Duration env ''SHUTDOWN_TIMEOUT'' (10 * Second),
          cfg_ReadTimeout = Env_Duration env ''READ_TIMEOUT'' (15 * Second),
          cfg_WriteTimeout = Env_Duration env ''WRITE_TIMEOUT'' (30 * Second),
          cfg_IdleTimeout = Env_Duration env ''IDLE_TIMEOUT'' (120 * Second),
          cfg_ReadHeaderTimeout = Env_Duration env ''READ_HEADER_TIMEOUT'' (10 * Second),
          cfg_CORSAllowedOrigins = csvEnv env ''CORS_ALLOWED_ORIGINS'',
          cfg_BodyLimit = Env_Int env ''BODY_LIMIT'' 1048576,
          cfg_ReleaseMode = (\<not> EqualFold environmentName ''Development''),
          cfg_TrustedProxies = csvEnv env ''TRUSTED_PROXIES''\<rparr>)"

definition NewConfig :: "environ \<Rightarrow> go_error + Config" where
  "NewConfig env =
     (let c = env_config env in case Validate c of Some err \<Rightarrow> Inl err | None \<Rightarrow> Inr c)"

definition valid_config :: "Config \<Rightarrow> bool" where
  "valid_config c \<longleftrightarrow>
     (\<exists>port. Atoi (cfg_Port c) = Some port \<and> 1 \<le> port \<and> port \<le> 65535)
     \<and> TrimSpace (cfg_Name c) \<noteq> []
     \<and> 0 < cfg_ShutdownTimeout c \<and> 0 < cfg_ReadTimeout c \<and> 0 < cfg_WriteTimeout c
     \<and> 0 < cfg_IdleTimeout c \<and> 0 < cfg_ReadHeaderTimeout c \<and> 0 < cfg_BodyLimit c"

lemma Validate_valid: "Validate c = None \<longleftrightarrow> valid_config c"
  by (auto simp: Validate_def valid_config_def not_less not_le split: option.splits)

lemma NewConfig_Inr: "NewConfig env = Inr c \<longleftrightarrow> c = env_config env \<and> valid_config c"
  using Validate_valid [of "env_config env"] by (auto simp: NewConfig_def Let_def split: option.splits)

text \<open>The configuration that reading an environment with the service's name only gives.\<close>

definition default_config :: "string \<Rightarrow> Config" where
  "default_config name =
     \<lparr>cfg_Name = TrimSpace name, cfg_Env = ''Development'', cfg_Port = ''8080'',
      cfg_ShutdownTimeout = 10 * Second, cfg_ReadTimeout = 15 * Second, cfg_WriteTimeout = 30 * Second,
      cfg_IdleTimeout = 120 * Second, cfg_ReadHeaderTimeout = 10 * Second,
      cfg_CORSAllowedOrigins = None, cfg_BodyLimit = 1048576, cfg_ReleaseMode = False,
      cfg_TrustedProxies = None\<rparr>"

lemma Env_Duration_defaults:
  assumes "Getenv env key = []"
  shows "Env_Duration env key (10 * Second) = 10 * Second" "Env_Duration env key (15 * Second) = 15 * Second"
    "Env_Duration env key (30 * Second) = 30 * Second" "Env_Duration env key (120 * Second) = 120 * Second"
  using Env_Duration_unset [OF assms] by (simp_all add: in_int64_def Second_def)

lemma visible_constants [simp]: "visible ''Development''"
  by (simp add: visible_def)

lemma Env_Int_unset: "Getenv env key = [] \<Longrightarrow> in_int64 d \<Longrightarrow> Env_Int env key d = d"
  by (simp add: Env_Int_def Env_String_unset)

lemma env_config_defaults:
  assumes "\<forall>key. key \<noteq> ''HELLNET_SERVICE'' \<longrightarrow> Getenv env key = []"
  shows "env_config env = default_config (Getenv env ''HELLNET_SERVICE'')"
proof -
  have "Env_String env ''HELLNET_SERVICE'' [] = Getenv env ''HELLNET_SERVICE''"
    by (simp add: Env_String_def Let_def)
  then show ?thesis
    using assms
    by (simp add: env_config_def default_config_def Let_def Env_String_unset Env_Duration_defaults
        Env_Int_unset csvEnv_def TrimSpace_visible EqualFold_def in_int64_def)
qed

lemma Atoi_8080: "Atoi ''8080'' = Some 8080"
proof -
  have "dec_nat ''8080'' = 8080" by (simp add: dec_nat_def digit_val_def)
  then show ?thesis by (simp add: Atoi_def split_sign_def is_digit_def in_int64_def)
qed

lemma default_config_valid: "TrimSpace name \<noteq> [] \<Longrightarrow> valid_config (default_config name)"
  by (simp add: valid_config_def default_config_def Atoi_8080 Second_def)

section \<open>What a configuration promises\<close>

text \<open>C29: a process that starts has a configuration with a port between 1 and 65535, a name, positive timeouts and
  a positive body limit; \<open>NewConfig\<close> gives no other, and refuses no environment whose values are such. An
  environment that names the service and sets nothing else is enough, and gives the defaults: port 8080,
  development mode, timeouts of 10, 15, 30, 120 and 10 seconds, a limit of 1 MiB, no CORS origin and no
  trusted proxy.\<close>

theorem accepted_config_is_usable:
  "((\<exists>c. NewConfig env = Inr c) \<longleftrightarrow>
     (\<exists>port. Atoi (Env_String env ''HELLNET_PORT'' ''8080'') = Some port \<and> port \<in> {1..65535})
     \<and> TrimSpace (Getenv env ''HELLNET_SERVICE'') \<noteq> []
     \<and> 0 < Env_Duration env ''SHUTDOWN_TIMEOUT'' (10 * Second)
     \<and> 0 < Env_Duration env ''READ_TIMEOUT'' (15 * Second)
     \<and> 0 < Env_Duration env ''WRITE_TIMEOUT'' (30 * Second)
     \<and> 0 < Env_Duration env ''IDLE_TIMEOUT'' (120 * Second)
     \<and> 0 < Env_Duration env ''READ_HEADER_TIMEOUT'' (10 * Second)
     \<and> 0 < Env_Int env ''BODY_LIMIT'' 1048576)
   \<and> ((\<forall>key. key \<noteq> ''HELLNET_SERVICE'' \<longrightarrow> Getenv env key = []) \<and> TrimSpace (Getenv env ''HELLNET_SERVICE'') \<noteq> [] \<longrightarrow>
     NewConfig env = Inr (default_config (Getenv env ''HELLNET_SERVICE'')))"
proof -
  have n: "Env_String env ''HELLNET_SERVICE'' [] = Getenv env ''HELLNET_SERVICE''"
    by (simp add: Env_String_def Let_def)
  have "(\<exists>c. NewConfig env = Inr c) \<longleftrightarrow> valid_config (env_config env)"
    by (auto simp: NewConfig_Inr)
  moreover have "NewConfig env = Inr (default_config (Getenv env ''HELLNET_SERVICE''))"
    if "\<forall>key. key \<noteq> ''HELLNET_SERVICE'' \<longrightarrow> Getenv env key = []" "TrimSpace (Getenv env ''HELLNET_SERVICE'') \<noteq> []"
    using env_config_defaults [OF that(1)] default_config_valid [OF that(2)] by (simp add: NewConfig_Inr)
  ultimately show ?thesis
    by (simp add: valid_config_def env_config_def Let_def n)
qed

theorem accepted_config_is_usable_witness:
  "\<not> (\<exists>c. NewConfig [(''HELLNET_SERVICE'', ''x''), (''HELLNET_PORT'', ''70000'')] = Inr c)
   \<and> NewConfig [(''HELLNET_SERVICE'', ''api'')] = Inr (default_config ''api'')"
proof
  have "Atoi ''70000'' = Some 70000"
    by (simp add: Atoi_def split_sign_def is_digit_def in_int64_def dec_nat_def digit_val_def)
  then show "\<not> (\<exists>c. NewConfig [(''HELLNET_SERVICE'', ''x''), (''HELLNET_PORT'', ''70000'')] = Inr c)"
    by (simp add: conjunct1 [OF accepted_config_is_usable] Env_String_def Getenv_def)
  have g: "Getenv [(''HELLNET_SERVICE'', ''api'')] key = (if key = ''HELLNET_SERVICE'' then ''api'' else [])" for key
    by (simp add: Getenv_def)
  have "TrimSpace ''api'' = ''api''" by (rule TrimSpace_visible) (simp add: visible_def)
  then show "NewConfig [(''HELLNET_SERVICE'', ''api'')] = Inr (default_config ''api'')"
    using conjunct2 [OF accepted_config_is_usable [of "[(''HELLNET_SERVICE'', ''api'')]"]] by (simp add: g)
qed

text \<open>C31: values written between commas are read back in order; and whatever a list variable holds, no value is
  empty, has blanks around it or holds a comma.\<close>

theorem comma_lists_are_read_back:
  assumes "vs \<noteq> []" "\<forall>v \<in> set vs. v \<noteq> [] \<and> visible v \<and> CHR '','' \<notin> set v"
    and "Getenv env key = join CHR '','' vs"
  shows "csvEnv env key = Some vs
    \<and> (\<forall>env2. \<forall>v \<in> set (slice (csvEnv env2 key)). v \<noteq> [] \<and> TrimSpace v = v \<and> CHR '','' \<notin> set v)"
  using csvEnv_join [OF assms] csvEnv_values by blast

theorem comma_lists_are_read_back_witness:
  "csvEnv [(''CORS_ALLOWED_ORIGINS'', ''https://a,https://b'')] ''CORS_ALLOWED_ORIGINS'' = Some [''https://a'', ''https://b'']"
  using comma_lists_are_read_back [of "[''https://a'', ''https://b'']"
      "[(''CORS_ALLOWED_ORIGINS'', ''https://a,https://b'')]" "''CORS_ALLOWED_ORIGINS''"]
  by (simp add: visible_def Getenv_def)

end
