(* ===== verification/Middleware.thy ===== *)
theory Middleware
  imports Http
begin

text \<open>
  \<open>platform/middleware.go\<close>: the gin middlewares and the functions they use.

  A middleware is a function of the handlers that come after it (what \<open>c.Next()\<close> runs) and of the gin
  context, and ends normally or in a panic. The context holds the request, the response written so
  far (headers, status, the texts that were written, whether the header is out) and what the telemetry wrapper has
  seen of it. A middleware that returns without running \<open>c.Next()\<close> has aborted the chain.
\<close>

section \<open>The gin context\<close>

record gin =
  g_request :: request
  g_full_path :: string
  g_headers :: "(string \<times> string) list"
  g_status :: int
  g_written :: bool
  g_body :: "payload list"
  g_observed :: bool
  g_seen_status :: "int list"
  g_seen_body :: "payload list"
  g_telemetry :: bool
  g_world :: world

datatype outcome = Done gin | Panics string gin

type_synonym gin_handler = "gin \<Rightarrow> outcome"
type_synonym middleware = "gin_handler \<Rightarrow> gin \<Rightarrow> outcome"

text \<open>\<open>c.Header\<close> with a value: response headers do not depend on letter case.\<close>

definition Header :: "string \<Rightarrow> string \<Rightarrow> gin \<Rightarrow> gin" where
  "Header name value c = c\<lparr>g_headers := (map to_lower name, value) #
     filter (\<lambda>(k, _). k \<noteq> map to_lower name) (g_headers c)\<rparr>"

definition response_header :: "gin \<Rightarrow> string \<Rightarrow> string option" where
  "response_header c name = map_of (g_headers c) (map to_lower name)"

lemma map_of_filter_other: "k \<noteq> k' \<Longrightarrow> map_of (filter (\<lambda>(k, _). k \<noteq> k') l) k = map_of l k"
  by (induction l) auto

lemma response_header_Header [simp]:
  "response_header (Header name v c) name' =
     (if map to_lower name' = map to_lower name then Some v else response_header c name')"
  by (simp add: response_header_def Header_def map_of_filter_other)

section \<open>observedWriter\<close>

text \<open>
  \<open>gin.ResponseWriter\<close>: the status can be set until the header is out, and a write sends the header
  first. Through \<open>observedWriter\<close> the same calls also go to the wrapper of the telemetry library,
  which passes them on and notes the status and the body it saw. \<open>io.WriteString\<close> gives the wrapper the
  bytes of the string by whichever of its two methods it has.
\<close>

definition gin_WriteHeaderNow :: "gin \<Rightarrow> gin" where
  "gin_WriteHeaderNow c = c\<lparr>g_written := True\<rparr>"

definition observed_WriteHeaderNow :: "gin \<Rightarrow> gin" where
  "observed_WriteHeaderNow c =
     gin_WriteHeaderNow
       (if \<not> g_written c then c\<lparr>g_seen_status := g_seen_status c @ [g_status c]\<rparr> else c)"

definition observed_Write :: "payload \<Rightarrow> gin \<Rightarrow> gin" where
  "observed_Write data c =
     (let c' = observed_WriteHeaderNow c
      in c'\<lparr>g_seen_body := g_seen_body c' @ [data], g_body := g_body c' @ [data]\<rparr>)"

definition WriteHeaderNow :: "gin \<Rightarrow> gin" where
  "WriteHeaderNow c = (if g_observed c then observed_WriteHeaderNow c else gin_WriteHeaderNow c)"

definition observed_WriteString :: "payload \<Rightarrow> gin \<Rightarrow> gin" where
  "observed_WriteString s c =
     (let c' = observed_WriteHeaderNow c
      in c'\<lparr>g_seen_body := g_seen_body c' @ [s], g_body := g_body c' @ [s]\<rparr>)"

definition gin_Write :: "payload \<Rightarrow> gin \<Rightarrow> gin" where
  "gin_Write data c = (let c' = gin_WriteHeaderNow c in c'\<lparr>g_body := g_body c' @ [data]\<rparr>)"

definition Write :: "payload \<Rightarrow> gin \<Rightarrow> gin" where
  "Write data c = (if g_observed c then observed_Write data c else gin_Write data c)"

definition WriteString :: "payload \<Rightarrow> gin \<Rightarrow> gin" where
  "WriteString s c = (if g_observed c then observed_WriteString s c else gin_Write s c)"

definition set_status :: "int \<Rightarrow> gin \<Rightarrow> gin" where
  "set_status code c = (if 0 < code \<and> \<not> g_written c then c\<lparr>g_status := code\<rparr> else c)"

definition gin_JSON :: "int \<Rightarrow> json \<Rightarrow> gin \<Rightarrow> gin" where
  "gin_JSON code body c = Write (Doc body) (set_status code c)"

definition AbortWithStatus :: "int \<Rightarrow> gin \<Rightarrow> gin" where
  "AbortWithStatus code c = WriteHeaderNow (set_status code c)"

lemmas writer_defs = gin_JSON_def AbortWithStatus_def Write_def WriteString_def WriteHeaderNow_def
  observed_Write_def observed_WriteString_def observed_WriteHeaderNow_def gin_Write_def gin_WriteHeaderNow_def
  set_status_def Let_def

text \<open>What the telemetry wrapper has seen is what is on the wire: one status, the whole body.\<close>

definition observed_ok :: "gin \<Rightarrow> bool" where
  "observed_ok c \<longleftrightarrow> g_observed c
     \<and> g_seen_status c = (if g_written c then [g_status c] else []) \<and> g_seen_body c = g_body c"

lemma observed_ok_writes [step_intros]:
  assumes "observed_ok c"
  shows "observed_ok (WriteHeaderNow c)" "observed_ok (Write data c)" "observed_ok (WriteString data c)"
    "observed_ok (set_status code c)" "observed_ok (gin_JSON code body c)" "observed_ok (AbortWithStatus code c)"
    "observed_ok (Header k v c)"
  using assms
  by (auto simp: observed_ok_def Header_def writer_defs)

section \<open>Request ids\<close>

definition RequestIDHeader :: string where
  "RequestIDHeader = ''X-Request-ID''"

definition validIDChar :: "char \<Rightarrow> bool" where
  "validIDChar r \<longleftrightarrow> (48 \<le> code_of r \<and> code_of r \<le> 57) \<or> (97 \<le> code_of r \<and> code_of r \<le> 122)
     \<or> (65 \<le> code_of r \<and> code_of r \<le> 90) \<or> r = CHR ''-'' \<or> r = CHR ''_'' \<or> r = CHR ''.''"

text \<open>
  The loop runs over the characters; one outside ASCII has only bytes from 0x80 on, none of which is
  valid, so the loop over the bytes decides the same.
\<close>

definition SanitizeRequestID :: "string \<Rightarrow> string" where
  "SanitizeRequestID raw =
     (let raw = TrimSpace raw
      in if length raw = 0 \<or> 64 < length raw then []
         else if \<not> list_all validIDChar raw then [] else raw)"

type_synonym entropy = "world \<Rightarrow> 8 word list option \<times> world"

text \<open>\<open>rand.Read\<close> into sixteen bytes is a parameter: the bytes, or an error.\<close>

definition GenerateRequestID :: "entropy \<Rightarrow> world \<Rightarrow> string \<times> world" where
  "GenerateRequestID rand_Read w =
     (case rand_Read w of
        (None, w') \<Rightarrow> (''unavailable'', w')
      | (Some b, w') \<Rightarrow> (EncodeToString b, w'))"

definition requestID :: "entropy \<Rightarrow> middleware" where
  "requestID rand_Read next c =
     (let ident = SanitizeRequestID (GetHeader (g_request c) RequestIDHeader);
          (ident, w) = (if ident = [] then GenerateRequestID rand_Read (g_world c) else (ident, g_world c))
      in next (Header RequestIDHeader ident (c\<lparr>g_world := w\<rparr>)))"

text \<open>An id that is safe to echo and to log.\<close>

definition good_id :: "string \<Rightarrow> bool" where
  "good_id s \<longleftrightarrow> s \<noteq> [] \<and> length s \<le> 64 \<and> list_all validIDChar s"

lemma SanitizeRequestID_good: "SanitizeRequestID raw = [] \<or> good_id (SanitizeRequestID raw)"
  by (simp add: SanitizeRequestID_def good_id_def Let_def)

lemma validIDChar_visible: "validIDChar c \<Longrightarrow> 33 \<le> code_of c \<and> code_of c \<le> 126"
  by (auto simp: validIDChar_def)

text \<open>A good id is what sanitizing leaves as it is, and sanitizing is idempotent.\<close>

lemma SanitizeRequestID_fix: "good_id s \<longleftrightarrow> s \<noteq> [] \<and> SanitizeRequestID s = s"
proof
  assume g: "good_id s"
  then have "visible s"
    using validIDChar_visible by (auto simp: good_id_def visible_def list_all_iff)
  then show "s \<noteq> [] \<and> SanitizeRequestID s = s"
    using g by (simp add: SanitizeRequestID_def good_id_def TrimSpace_visible)
next
  assume "s \<noteq> [] \<and> SanitizeRequestID s = s"
  then show "good_id s" using SanitizeRequestID_good [of s] by auto
qed

lemma hex_char_valid: "d < 16 \<Longrightarrow> validIDChar (hex_char d)"
  by (auto simp: validIDChar_def hex_char_def)

lemma EncodeToString_valid: "list_all validIDChar (EncodeToString bs)"
proof (induction bs)
  case (Cons b bs)
  have "unat b < 256"
    using unsigned_less [of b, where ?'a = nat] by simp
  then have "unat b div 16 < 16" "unat b mod 16 < 16"
    by (simp_all add: less_mult_imp_div_less)
  then show ?case using Cons by (simp add: EncodeToString_def hex_char_valid)
qed (simp add: EncodeToString_def)

definition entropy_ok :: "entropy \<Rightarrow> bool" where
  "entropy_ok rand_Read \<longleftrightarrow> (\<forall>w b w'. rand_Read w = (Some b, w') \<longrightarrow> length b = 16)
     \<and> (\<forall>w r w'. rand_Read w = (r, w') \<longrightarrow> db w' = db w \<and> cached w' = cached w)"

lemma GenerateRequestID_good:
  assumes "entropy_ok rand_Read" "GenerateRequestID rand_Read w = (s, w')"
  shows "good_id s" and "db w' = db w \<and> cached w' = cached w"
proof -
  have "good_id ''unavailable''"
    by (simp add: good_id_def validIDChar_def)
  moreover have "good_id (EncodeToString b)" if "rand_Read w = (Some b, w'')" for b w''
  proof -
    have "length (EncodeToString b) = 32"
      using assms(1) that by (fastforce simp: entropy_ok_def)
    moreover from this have "EncodeToString b \<noteq> []"
      by (metis list.size(3) zero_neq_numeral)
    ultimately show ?thesis
      using EncodeToString_valid by (simp add: good_id_def)
  qed
  ultimately show "good_id s"
    using assms(2) by (auto simp: GenerateRequestID_def split: prod.splits option.splits)
  show "db w' = db w \<and> cached w' = cached w"
    using assms by (auto simp: GenerateRequestID_def entropy_ok_def split: prod.splits option.splits)
qed

text \<open>The handlers after the middleware run with a good id on the response: the client's if it is one.\<close>

lemma requestID_runs:
  assumes "entropy_ok rand_Read"
  obtains ident w where "requestID rand_Read next c = next (Header RequestIDHeader ident (c\<lparr>g_world := w\<rparr>))"
    "good_id ident" "db w = db (g_world c) \<and> cached w = cached (g_world c)"
    "good_id (GetHeader (g_request c) RequestIDHeader) \<Longrightarrow>
       ident = GetHeader (g_request c) RequestIDHeader \<and> w = g_world c"
proof (cases "SanitizeRequestID (GetHeader (g_request c) RequestIDHeader) = []")
  case True
  obtain s w where g: "GenerateRequestID rand_Read (g_world c) = (s, w)" by fastforce
  have "\<not> good_id (GetHeader (g_request c) RequestIDHeader)"
    using True SanitizeRequestID_fix by metis
  then show ?thesis
    using that [of s w] True g GenerateRequestID_good [OF assms g]
    by (simp add: requestID_def Let_def)
next
  case False
  then have "good_id (SanitizeRequestID (GetHeader (g_request c) RequestIDHeader))"
    using SanitizeRequestID_good by blast
  moreover have "c\<lparr>g_world := g_world c\<rparr> = c" by simp
  ultimately show ?thesis
    using that [of "SanitizeRequestID (GetHeader (g_request c) RequestIDHeader)" "g_world c"] False
      SanitizeRequestID_fix by (simp add: requestID_def Let_def)
qed

section \<open>Security headers\<close>

definition securityHeaders :: middleware where
  "securityHeaders next c =
     next (Header ''Cross-Origin-Resource-Policy'' ''same-origin''
       (Header ''Content-Security-Policy''
          (''default-src '' @ [CHR 0x27] @ ''none'' @ [CHR 0x27] @ ''; frame-ancestors ''
             @ [CHR 0x27] @ ''none'' @ [CHR 0x27])
       (Header ''Referrer-Policy'' ''strict-origin-when-cross-origin''
       (Header ''X-Frame-Options'' ''DENY''
       (Header ''X-Content-Type-Options'' ''nosniff'' c)))))"

section \<open>CORS\<close>

definition hasOrigin :: "string list \<Rightarrow> string \<Rightarrow> bool" where
  "hasOrigin allowed origin \<longleftrightarrow> origin \<in> set allowed"

definition cors_headers :: "string \<Rightarrow> gin \<Rightarrow> gin" where
  "cors_headers origin c =
     Header ''Access-Control-Max-Age'' ''600''
       (Header ''Access-Control-Allow-Headers'' (''Authorization, Content-Type, '' @ RequestIDHeader)
       (Header ''Access-Control-Allow-Methods'' ''GET, POST, PUT, PATCH, DELETE, OPTIONS''
       (Header ''Vary'' ''Origin''
       (Header ''Access-Control-Allow-Origin'' origin c))))"

definition cors :: "string list \<Rightarrow> middleware" where
  "cors origins next c =
     (let wildcard = ''*'' \<in> set origins;
          origin = GetHeader (g_request c) ''Origin'';
          c' = (if origin \<noteq> [] \<and> (wildcard \<or> hasOrigin origins origin) then cors_headers origin c else c)
      in if rq_method (g_request c) = ''OPTIONS''
            \<and> GetHeader (g_request c) ''Access-Control-Request-Method'' \<noteq> []
         then Done (AbortWithStatus 204 c')
         else next c')"

definition allowed_origin :: "string list \<Rightarrow> request \<Rightarrow> bool" where
  "allowed_origin origins req \<longleftrightarrow> GetHeader req ''Origin'' \<noteq> []
     \<and> (''*'' \<in> set origins \<or> GetHeader req ''Origin'' \<in> set origins)"

definition preflight :: "request \<Rightarrow> bool" where
  "preflight req \<longleftrightarrow> rq_method req = ''OPTIONS'' \<and> GetHeader req ''Access-Control-Request-Method'' \<noteq> []"

lemma cors_cases:
  "cors origins next c =
     (if preflight (g_request c) then \<lambda>c'. Done (AbortWithStatus 204 c') else next)
       (if allowed_origin origins (g_request c)
        then cors_headers (GetHeader (g_request c) ''Origin'') c else c)"
  by (auto simp: cors_def preflight_def allowed_origin_def hasOrigin_def Let_def)

section \<open>Recovery\<close>

definition internal_body :: json where
  "internal_body = error_envelope ''INTERNAL_ERROR'' ''internal server error''"

text \<open>\<open>ops\<close> says whether there is a telemetry client; the panic is the text \<open>fmt.Sprint\<close> makes of it.\<close>

definition recovery :: "bool \<Rightarrow> middleware" where
  "recovery ops next c =
     (case next c of
        Done c' \<Rightarrow> Done c'
      | Panics r c' \<Rightarrow>
          (let c' = (if ops
                     then c'\<lparr>g_world := add_log (Log Error ''panic recovered''
                            [(''method'', rq_method (g_request c')),
                             (''path'', sanitizeForLog (rq_path (g_request c'))), (''panic'', r)])
                          (g_world c')\<rparr>
                     else c')
           in Done (gin_JSON 500 internal_body c')))"

text \<open>Whatever ran inside, recovery ends normally: with this context.\<close>

definition recovered :: "bool \<Rightarrow> outcome \<Rightarrow> gin" where
  "recovered ops r = (case recovery ops (\<lambda>_. r) (case r of Done c \<Rightarrow> c | Panics _ c \<Rightarrow> c) of
     Done c \<Rightarrow> c | Panics _ c \<Rightarrow> c)"

lemma recovery_Done: "recovery ops next c = Done (recovered ops (next c))"
  by (cases "next c") (simp_all add: recovery_def recovered_def Let_def)

lemma recovered_Done [simp]: "recovered ops (Done c) = c"
  by (simp add: recovered_def recovery_def)

lemma gin_JSON_frame [simp]:
  "g_headers (gin_JSON code body c) = g_headers c" "g_world (gin_JSON code body c) = g_world c"
  "g_request (gin_JSON code body c) = g_request c"
  by (simp_all add: writer_defs)

lemma AbortWithStatus_frame [simp]:
  "g_headers (AbortWithStatus code c) = g_headers c" "g_world (AbortWithStatus code c) = g_world c"
  "g_request (AbortWithStatus code c) = g_request c"
  by (simp_all add: writer_defs)

lemma observed_WriteHeaderNow_frame [simp]:
  "g_headers (observed_WriteHeaderNow c) = g_headers c" "g_world (observed_WriteHeaderNow c) = g_world c"
  "g_body (observed_WriteHeaderNow c) = g_body c" "g_status (observed_WriteHeaderNow c) = g_status c"
  by (simp_all add: writer_defs)

lemma recovered_Panics:
  "g_headers (recovered ops (Panics r c)) = g_headers c"
  "db (g_world (recovered ops (Panics r c))) = db (g_world c)"
  "cached (g_world (recovered ops (Panics r c))) = cached (g_world c)"
  "logs (g_world (recovered ops (Panics r c))) = logs (g_world c) @
     (if ops then [Log Error ''panic recovered'' [(''method'', rq_method (g_request c)),
        (''path'', sanitizeForLog (rq_path (g_request c))), (''panic'', r)]] else [])"
  "g_status (recovered ops (Panics r c)) = (if g_written c then g_status c else 500)"
  "g_body (recovered ops (Panics r c)) = g_body c @ [Doc internal_body]"
  "observed_ok c \<Longrightarrow> observed_ok (recovered ops (Panics r c))"
  by (simp_all add: recovered_def recovery_def observed_ok_def writer_defs)

section \<open>Telemetry\<close>

definition probePaths :: "string list" where
  "probePaths = [''/live'', ''/ready'', ''/health'']"

text \<open>
  \<open>telemetry.Middleware\<close> is third-party code and a parameter \<open>instrumented\<close>: it takes the handler built
  here and the context, and is expected to run the handler once. The inner handler swaps the writer
  and, after the rest of the chain, reports the status of a response that wrote nothing. A panic
  passes through it. The request it gets carries the pattern of its route.
\<close>

type_synonym instrumentation = "gin_handler \<Rightarrow> gin_handler"

definition instrumented_handler :: "gin_handler \<Rightarrow> gin_handler" where
  "instrumented_handler next c =
     (case next (c\<lparr>g_observed := True\<rparr>) of
        Done c' \<Rightarrow> Done (observed_WriteHeaderNow c')
      | Panics r c' \<Rightarrow> Panics r c')"

definition telemetryMiddleware :: "instrumentation option \<Rightarrow> middleware" where
  "telemetryMiddleware tel next c =
     (case tel of
        None \<Rightarrow> next c
      | Some instrumented \<Rightarrow>
          if rq_path (g_request c) \<in> set probePaths then next c
          else
            let r = g_request c;
                r = (if g_full_path c \<noteq> [] then r\<lparr>rq_pattern := g_full_path c\<rparr> else r)
            in instrumented (instrumented_handler next) (c\<lparr>g_request := r\<rparr>))"

text \<open>
  What the code relies on of the library: the handler runs once, on the same request with the context
  of a span. What the library itself reports, under the route's pattern, is outside the model.
\<close>

definition instrumentation_ok :: "instrumentation \<Rightarrow> bool" where
  "instrumentation_ok instrumented \<longleftrightarrow>
     (\<forall>c. \<exists>k. \<forall>h. instrumented h c = h (c\<lparr>g_request := (g_request c)\<lparr>rq_carrier := k\<rparr>\<rparr>))"

text \<open>\<open>c.Set("telemetry", ops)\<close>.\<close>

definition exposeTelemetry :: "bool \<Rightarrow> middleware" where
  "exposeTelemetry ops next c = next (c\<lparr>g_telemetry := ops\<rparr>)"

text \<open>
  What \<open>AbortError\<close> finds in the context: a client that was set and is not \<open>nil\<close>. Before the router's
  middleware ran there is none.
\<close>

definition telemetryFromContext :: "gin \<Rightarrow> bool" where
  "telemetryFromContext c \<longleftrightarrow> g_telemetry c"

section \<open>What the middlewares promise\<close>

lemma SanitizeRequestID_whole:
  assumes "\<not> validIDChar c" "c \<in> set (TrimSpace raw)"
  shows "SanitizeRequestID raw = []"
  using assms by (auto simp: SanitizeRequestID_def Let_def list_all_iff)

lemma visible_split: "x \<noteq> [] \<Longrightarrow> y \<noteq> [] \<Longrightarrow> visible x \<Longrightarrow> visible y \<Longrightarrow>
    \<exists>a b s. x @ c # y = a # s @ [b] \<and> visible [a] \<and> visible [b] \<and> c \<in> set s"
  by (rule exI [of _ "hd x"], rule exI [of _ "last y"], rule exI [of _ "tl x @ c # butlast y"])
    (cases x; cases y rule: rev_cases; simp add: visible_def)

text \<open>C23: what is left of a request id is the trimmed header, if that has 1 to 64 of the allowed characters, and
  nothing otherwise: an id is kept or dropped as a whole, never repaired. So what is left is empty or safe,
  sanitizing keeps exactly such ids and the empty one, and doing it twice changes nothing more; an id over 64
  bytes is dropped, and so is one with a line break, or any other character outside the allowed ones, inside.\<close>

theorem sanitized_ids_are_safe:
  "(SanitizeRequestID raw = [] \<or> good_id (SanitizeRequestID raw))
   \<and> SanitizeRequestID (SanitizeRequestID raw) = SanitizeRequestID raw
   \<and> (SanitizeRequestID raw = raw \<longleftrightarrow> raw = [] \<or> good_id raw)
   \<and> (visible raw \<longrightarrow> 64 < length raw \<longrightarrow> SanitizeRequestID raw = [])
   \<and> SanitizeRequestID raw = (if good_id (TrimSpace raw) then TrimSpace raw else [])
   \<and> (\<forall>x c y. raw = x @ c # y \<and> x \<noteq> [] \<and> y \<noteq> [] \<and> visible x \<and> visible y \<and> \<not> validIDChar c \<longrightarrow>
        SanitizeRequestID raw = [])"
proof (intro conjI)
  have nil: "SanitizeRequestID [] = []" by (simp add: SanitizeRequestID_def)
  show g: "SanitizeRequestID raw = [] \<or> good_id (SanitizeRequestID raw)"
    by (rule SanitizeRequestID_good)
  then show "SanitizeRequestID (SanitizeRequestID raw) = SanitizeRequestID raw"
    using SanitizeRequestID_fix nil by metis
  show "SanitizeRequestID raw = raw \<longleftrightarrow> raw = [] \<or> good_id raw"
    using SanitizeRequestID_fix nil by metis
  show "visible raw \<longrightarrow> 64 < length raw \<longrightarrow> SanitizeRequestID raw = []"
    by (simp add: SanitizeRequestID_def TrimSpace_visible)
  show "SanitizeRequestID raw = (if good_id (TrimSpace raw) then TrimSpace raw else [])"
    by (simp add: SanitizeRequestID_def good_id_def Let_def)
  have "SanitizeRequestID (x @ c # y) = []"
    if p: "x \<noteq> []" "y \<noteq> []" "visible x" "visible y" "\<not> validIDChar c" for x c y
  proof -
    obtain a b s where "x @ c # y = a # s @ [b]" "visible [a]" "visible [b]" "c \<in> set s"
      using visible_split [OF p(1-4), of c] by blast
    then show ?thesis
      using SanitizeRequestID_whole [OF p(5), of "x @ c # y"] TrimSpace_between by auto
  qed
  then show "\<forall>x c y. raw = x @ c # y \<and> x \<noteq> [] \<and> y \<noteq> [] \<and> visible x \<and> visible y \<and> \<not> validIDChar c \<longrightarrow>
        SanitizeRequestID raw = []"
    by blast
qed

theorem sanitized_ids_are_safe_witness:
  "SanitizeRequestID (replicate 65 CHR ''a'') = [] \<and> SanitizeRequestID ''req-1'' = ''req-1''
   \<and> SanitizeRequestID (''req-1'' @ CHR 0x0A # ''level=error'') = []"
proof -
  have "visible (replicate 65 CHR ''a'')" "64 < length (replicate 65 CHR ''a'')"
    "visible ''req-1''" "visible ''level=error''" "\<not> validIDChar (CHR 0x0A)"
    by (simp_all add: visible_def validIDChar_def)
  moreover have "good_id ''req-1''" by (simp add: good_id_def validIDChar_def)
  ultimately show ?thesis
    using sanitized_ids_are_safe [of "replicate 65 CHR ''a''"] sanitized_ids_are_safe [of "''req-1''"]
      sanitized_ids_are_safe [of "''req-1'' @ CHR 0x0A # ''level=error''"] by blast
qed

end
