(* ===== verification/Router.thy ===== *)
theory Router
  imports Config Middleware
begin

text \<open>
  \<open>NewRouter\<close> of \<open>platform/platform.go\<close>: the chain of middlewares around every route, the two
  fallbacks, and what a request meets on its way. Finding the route of a path is gin's, third-party
  code and a parameter: \<open>find_route\<close> gets the methods and patterns that were registered, and the
  method and path of a request.
\<close>

section \<open>Serving a request\<close>

datatype lookup = Matched string "(string \<times> string) list" | NoRoute | NoMethod

type_synonym route_finder = "(string \<times> string) list \<Rightarrow> string \<Rightarrow> string \<Rightarrow> lookup"

type_synonym route = "string \<times> string \<times> gin_handler"

record router =
  rt_release_mode :: bool
  rt_discard_output :: bool
  rt_DebugPrintRoute :: "(string \<Rightarrow> string \<Rightarrow> string \<Rightarrow> world \<Rightarrow> world) option"
  rt_HandleMethodNotAllowed :: bool
  rt_use :: "middleware list"
  rt_TrustedProxies :: "string list option"
  rt_MaxMultipartMemory :: int
  rt_NoRoute :: gin_handler
  rt_NoMethod :: gin_handler

text \<open>A handler of the program as the last handler of a chain.\<close>

definition endpoint :: "handler \<Rightarrow> gin_handler" where
  "endpoint h c =
     (case h ((g_request c)\<lparr>rq_has_telemetry := telemetryFromContext c\<rparr>) (g_world c) of
        (r, w) \<Rightarrow> Done (gin_JSON (rs_status r) (rs_body r) (c\<lparr>g_world := w\<rparr>)))"

text \<open>The middlewares run in the order they were given to \<open>engine.Use\<close>.\<close>

definition chain :: "middleware list \<Rightarrow> gin_handler \<Rightarrow> gin_handler" where
  "chain ms h = foldr (\<lambda>m next. m next) ms h"

lemma chain_simps [simp]: "chain [] h = h" "chain (m # ms) h = m (chain ms h)"
  by (simp_all add: chain_def)

lemma chain_append: "chain (ms @ ms') h = chain ms (chain ms' h)"
  by (simp add: chain_def)

definition fresh :: "request \<Rightarrow> world \<Rightarrow> gin" where
  "fresh req w = \<lparr>g_request = req, g_full_path = [], g_headers = [], g_status = 200, g_written = False,
     g_body = [], g_observed = False, g_seen_status = [], g_seen_body = [], g_telemetry = False,
     g_world = w\<rparr>"

fun find_handler :: "route list \<Rightarrow> string \<Rightarrow> string \<Rightarrow> gin_handler option" where
  "find_handler [] m p = None"
| "find_handler ((m', p', h) # rs) m p = (if m' = m \<and> p' = p then Some h else find_handler rs m p)"

definition serve :: "router \<Rightarrow> route_finder \<Rightarrow> route list \<Rightarrow> request \<Rightarrow> world \<Rightarrow> outcome" where
  "serve r find_route routes req w =
     (let no_route = chain (rt_use r) (rt_NoRoute r) ((fresh req w)\<lparr>g_status := 404\<rparr>)
      in case find_route (map (\<lambda>(m, p, h). (m, p)) routes) (rq_method req) (rq_path req) of
        Matched p params \<Rightarrow>
          (case find_handler routes (rq_method req) p of
             Some h \<Rightarrow> chain (rt_use r) h ((fresh (req\<lparr>rq_params := params\<rparr>) w)\<lparr>g_full_path := p\<rparr>)
           | None \<Rightarrow> no_route)
      | NoRoute \<Rightarrow> no_route
      | NoMethod \<Rightarrow>
          if rt_HandleMethodNotAllowed r
          then chain (rt_use r) (rt_NoMethod r) ((fresh req w)\<lparr>g_status := 405\<rparr>)
          else no_route)"

section \<open>NewRouter\<close>

definition NewRouter :: "Config \<Rightarrow> instrumentation option \<Rightarrow> entropy \<Rightarrow> router" where
  "NewRouter cfg tel rand_Read =
     \<lparr>rt_release_mode = cfg_ReleaseMode cfg,
      rt_discard_output = (\<not> cfg_ReleaseMode cfg),
      rt_DebugPrintRoute = (if cfg_ReleaseMode cfg then None else Some (\<lambda>m p h w.
        if tel \<noteq> None
        then add_log (Log Debug ''route registered'' [(''method'', m), (''path'', p), (''handler'', h)]) w
        else w)),
      rt_HandleMethodNotAllowed = True,
      rt_use = [telemetryMiddleware tel, exposeTelemetry (tel \<noteq> None), requestID rand_Read, securityHeaders]
        @ (if 0 < length (slice (cfg_CORSAllowedOrigins cfg))
           then [cors (slice (cfg_CORSAllowedOrigins cfg))] else [])
        @ [recovery (tel \<noteq> None)],
      rt_TrustedProxies = (if length (slice (cfg_TrustedProxies cfg)) = 0 then None
                           else cfg_TrustedProxies cfg),
      rt_MaxMultipartMemory = (if cfg_BodyLimit cfg \<le> 0 then 2 ^ 20 else cfg_BodyLimit cfg),
      rt_NoRoute = endpoint (\<lambda>req. AbortError req
        (Some (HTTPErr (NewError 404 ''NOT_FOUND'' ''route not found'')))),
      rt_NoMethod = endpoint (\<lambda>req. AbortError req
        (Some (HTTPErr (NewError 405 ''METHOD_NOT_ALLOWED'' ''method not allowed for this resource''))))\<rparr>"

text \<open>
  Registering routes: outside release mode gin reports each of them to the function it was given; the name
  of a handler comes from reflection and is a parameter.
\<close>

definition register_routes :: "router \<Rightarrow> (route \<Rightarrow> string) \<Rightarrow> route list \<Rightarrow> world \<Rightarrow> world" where
  "register_routes r name routes =
     fold (\<lambda>(m, p, h) w.
       case rt_DebugPrintRoute r of
         Some print \<Rightarrow> if rt_release_mode r then w else print m p (name (m, p, h)) w
       | None \<Rightarrow> w) routes"

lemma fold_add_log: "fold (\<lambda>x. add_log (f x)) xs w = w\<lparr>logs := logs w @ map f xs\<rparr>"
  by (induction xs arbitrary: w) (simp_all add: add_log_def)

lemma register_routes_logs:
  "register_routes (NewRouter cfg tel rand_Read) name routes w =
     (if cfg_ReleaseMode cfg \<or> tel = None then w
      else w\<lparr>logs := logs w @ map (\<lambda>(m, p, h). Log Debug ''route registered''
             [(''method'', m), (''path'', p), (''handler'', name (m, p, h))]) routes\<rparr>)"
proof -
  have "fold (\<lambda>(m, p, h) w. w) routes w = w"
    by (induction routes) auto
  moreover have "fold (\<lambda>(m, p, h). add_log (Log Debug ''route registered''
      [(''method'', m), (''path'', p), (''handler'', name (m, p, h))])) routes w =
    fold (\<lambda>x. add_log ((\<lambda>(m, p, h). Log Debug ''route registered''
      [(''method'', m), (''path'', p), (''handler'', name (m, p, h))]) x)) routes w"
    by (rule fold_cong) auto
  ultimately show ?thesis
    by (simp add: register_routes_def NewRouter_def fold_add_log)
qed

text \<open>Whether the chain answers by itself: a CORS preflight where CORS is configured.\<close>

definition cuts_off :: "Config \<Rightarrow> request \<Rightarrow> bool" where
  "cuts_off cfg req \<longleftrightarrow> slice (cfg_CORSAllowedOrigins cfg) \<noteq> [] \<and> preflight req"

text \<open>The context the handlers of a route get, after telemetry, the request id and the headers.\<close>

definition decorate :: "string \<Rightarrow> gin \<Rightarrow> gin" where
  "decorate ident c =
     Header ''Cross-Origin-Resource-Policy'' ''same-origin''
       (Header ''Content-Security-Policy''
          (''default-src '' @ [CHR 0x27] @ ''none'' @ [CHR 0x27] @ ''; frame-ancestors ''
             @ [CHR 0x27] @ ''none'' @ [CHR 0x27])
       (Header ''Referrer-Policy'' ''strict-origin-when-cross-origin''
       (Header ''X-Frame-Options'' ''DENY''
       (Header ''X-Content-Type-Options'' ''nosniff''
       (Header RequestIDHeader ident c)))))"

definition with_cors :: "Config \<Rightarrow> gin \<Rightarrow> gin" where
  "with_cors cfg c =
     (if slice (cfg_CORSAllowedOrigins cfg) \<noteq> []
         \<and> allowed_origin (slice (cfg_CORSAllowedOrigins cfg)) (g_request c)
      then cors_headers (GetHeader (g_request c) ''Origin'') c else c)"

lemma Header_frame [simp]:
  "g_request (Header k v c) = g_request c" "g_world (Header k v c) = g_world c"
  "g_telemetry (Header k v c) = g_telemetry c" "g_observed (Header k v c) = g_observed c"
  "g_written (Header k v c) = g_written c" "g_status (Header k v c) = g_status c"
  "g_body (Header k v c) = g_body c" "g_full_path (Header k v c) = g_full_path c"
  by (simp_all add: Header_def)

lemma decorate_frame [simp]:
  "g_request (decorate i c) = g_request c" "g_world (decorate i c) = g_world c"
  "g_telemetry (decorate i c) = g_telemetry c" "g_observed (decorate i c) = g_observed c"
  "g_written (decorate i c) = g_written c" "g_status (decorate i c) = g_status c"
  "g_body (decorate i c) = g_body c"
  by (simp_all add: decorate_def)

lemma with_cors_frame [simp]:
  "g_request (with_cors cfg c) = g_request c" "g_world (with_cors cfg c) = g_world c"
  "g_telemetry (with_cors cfg c) = g_telemetry c" "g_observed (with_cors cfg c) = g_observed c"
  "g_written (with_cors cfg c) = g_written c" "g_status (with_cors cfg c) = g_status c"
  "g_body (with_cors cfg c) = g_body c"
  by (simp_all add: with_cors_def cors_headers_def)

text \<open>The security headers of every response.\<close>

definition security_values :: "(string \<times> string) list" where
  "security_values =
     [(''X-Content-Type-Options'', ''nosniff''), (''X-Frame-Options'', ''DENY''),
      (''Referrer-Policy'', ''strict-origin-when-cross-origin''),
      (''Content-Security-Policy'',
        ''default-src '' @ [CHR 0x27] @ ''none'' @ [CHR 0x27] @ ''; frame-ancestors '' @ [CHR 0x27] @ ''none'' @ [CHR 0x27]),
      (''Cross-Origin-Resource-Policy'', ''same-origin'')]"

lemma lower_names:
  "map to_lower ''Access-Control-Allow-Origin'' = ''access-control-allow-origin''"
  "map to_lower ''Vary'' = ''vary''"
  "map to_lower ''Access-Control-Allow-Methods'' = ''access-control-allow-methods''"
  "map to_lower ''Access-Control-Allow-Headers'' = ''access-control-allow-headers''"
  "map to_lower ''Access-Control-Max-Age'' = ''access-control-max-age''"
  "map to_lower ''X-Content-Type-Options'' = ''x-content-type-options''"
  "map to_lower ''X-Frame-Options'' = ''x-frame-options''"
  "map to_lower ''Referrer-Policy'' = ''referrer-policy''"
  "map to_lower ''Content-Security-Policy'' = ''content-security-policy''"
  "map to_lower ''Cross-Origin-Resource-Policy'' = ''cross-origin-resource-policy''"
  "map to_lower ''X-Request-ID'' = ''x-request-id''"
  by code_simp+

lemma decorate_cors_headers:
  "response_header (with_cors cfg (decorate ident c)) RequestIDHeader = Some ident"
  "\<forall>(n, v) \<in> set security_values. response_header (with_cors cfg (decorate ident c)) n = Some v"
proof -
  show "response_header (with_cors cfg (decorate ident c)) RequestIDHeader = Some ident"
    by (simp add: with_cors_def cors_headers_def decorate_def RequestIDHeader_def lower_names del: list.map)
  have "list_all (\<lambda>(n, v). response_header (with_cors cfg (decorate ident c)) n = Some v) security_values"
    by (simp add: security_values_def with_cors_def cors_headers_def decorate_def RequestIDHeader_def lower_names
        del: list.map)
  then show "\<forall>(n, v) \<in> set security_values. response_header (with_cors cfg (decorate ident c)) n = Some v"
    by (auto simp: list_all_iff)
qed

text \<open>The whole chain, but for telemetry, in one equation.\<close>

lemma inner_chain:
  assumes "entropy_ok rand_Read"
  obtains ident w where "good_id ident" "db w = db (g_world c) \<and> cached w = cached (g_world c)"
    "good_id (GetHeader (g_request c) RequestIDHeader) \<Longrightarrow>
       ident = GetHeader (g_request c) RequestIDHeader \<and> w = g_world c"
    "\<And>h. chain (tl (rt_use (NewRouter cfg tel rand_Read))) h c =
       (if cuts_off cfg (g_request c) then \<lambda>c. Done (AbortWithStatus 204 c)
        else recovery (tel \<noteq> None) h)
         (with_cors cfg (decorate ident (c\<lparr>g_telemetry := (tel \<noteq> None), g_world := w\<rparr>)))"
proof -
  show ?thesis
  proof (cases "SanitizeRequestID (GetHeader (g_request c) RequestIDHeader) = []")
    case True
    obtain ident w where g: "GenerateRequestID rand_Read (g_world c) = (ident, w)" by fastforce
    have "\<not> good_id (GetHeader (g_request c) RequestIDHeader)"
      using True SanitizeRequestID_fix by metis
    with g GenerateRequestID_good [OF assms g] True show ?thesis
      by (intro that [of ident w])
        (auto simp: NewRouter_def exposeTelemetry_def requestID_def securityHeaders_def cors_cases
          cuts_off_def with_cors_def decorate_def Let_def)
  next
    case False
    let ?i = "SanitizeRequestID (GetHeader (g_request c) RequestIDHeader)"
    have "good_id ?i" using False SanitizeRequestID_good by blast
    with False show ?thesis
      by (intro that [of ?i "g_world c"])
        (auto simp: NewRouter_def exposeTelemetry_def requestID_def securityHeaders_def cors_cases
          cuts_off_def with_cors_def decorate_def Let_def SanitizeRequestID_fix)
  qed
qed

section \<open>The whole chain\<close>

definition instrumented_by :: "instrumentation option \<Rightarrow> request \<Rightarrow> bool" where
  "instrumented_by tel req \<longleftrightarrow> tel \<noteq> None \<and> rq_path req \<notin> set probePaths"

definition telemetry_ok :: "instrumentation option \<Rightarrow> bool" where
  "telemetry_ok tel \<longleftrightarrow> (case tel of None \<Rightarrow> True | Some inst \<Rightarrow> instrumentation_ok inst)"

text \<open>
  What the chain makes of a handler: the context it hands to it, and the one it answers with. It
  always answers.
\<close>

text \<open>The request as the telemetry middleware hands it on: with the pattern of its route.\<close>

definition with_pattern :: "bool \<Rightarrow> gin \<Rightarrow> request" where
  "with_pattern obs c =
     (if obs \<and> g_full_path c \<noteq> [] then (g_request c)\<lparr>rq_pattern := g_full_path c\<rparr> else g_request c)"

definition chain_in :: "Config \<Rightarrow> bool \<Rightarrow> bool \<Rightarrow> string \<Rightarrow> (string \<times> string) list \<Rightarrow> world \<Rightarrow> gin \<Rightarrow> gin" where
  "chain_in cfg ops obs ident k w c =
     with_cors cfg (decorate ident
       (c\<lparr>g_request := (with_pattern obs c)\<lparr>rq_carrier := k\<rparr>, g_observed := obs, g_telemetry := ops, g_world := w\<rparr>))"

definition chain_out :: "bool \<Rightarrow> gin \<Rightarrow> gin" where
  "chain_out obs c = (if obs then observed_WriteHeaderNow c else c)"

lemma GetHeader_carrier [simp]: "GetHeader (req\<lparr>rq_carrier := k\<rparr>) h = GetHeader req h"
  by (simp add: GetHeader_def)

lemma with_pattern_keeps [simp]:
  "GetHeader (with_pattern obs c) h = GetHeader (g_request c) h" "rq_method (with_pattern obs c) = rq_method (g_request c)"
  "rq_path (with_pattern obs c) = rq_path (g_request c)" "rq_carrier (with_pattern obs c) = rq_carrier (g_request c)"
  "with_pattern False c = g_request c" "rq_headers (with_pattern obs c) = rq_headers (g_request c)"
  by (simp_all add: with_pattern_def GetHeader_def)

lemma cuts_off_carrier [simp]: "cuts_off cfg (req\<lparr>rq_carrier := k\<rparr>) = cuts_off cfg req"
  by (simp add: cuts_off_def preflight_def)

lemma cuts_off_pattern [simp]: "cuts_off cfg (with_pattern obs c) = cuts_off cfg (g_request c)"
  by (simp add: cuts_off_def preflight_def)

lemma chain_runs:
  assumes "entropy_ok rand_Read" "telemetry_ok tel" "\<not> g_observed c"
  obtains ident w k where "good_id ident" "db w = db (g_world c) \<and> cached w = cached (g_world c)"
    "good_id (GetHeader (g_request c) RequestIDHeader) \<Longrightarrow> ident = GetHeader (g_request c) RequestIDHeader"
    "\<And>h. chain (rt_use (NewRouter cfg tel rand_Read)) h c =
       Done (chain_out (instrumented_by tel (g_request c))
         (let c1 = chain_in cfg (tel \<noteq> None) (instrumented_by tel (g_request c)) ident k w c
          in if cuts_off cfg (g_request c) then AbortWithStatus 204 c1
             else recovered (tel \<noteq> None) (h c1)))"
proof -
  let ?R = "NewRouter cfg tel rand_Read"
  have split: "chain (rt_use ?R) h = telemetryMiddleware tel (chain (tl (rt_use ?R)) h)" for h
    by (simp add: NewRouter_def)
  show ?thesis
  proof (cases "instrumented_by tel (g_request c)")
    case False
    then have e: "chain (rt_use ?R) h c = chain (tl (rt_use ?R)) h c" for h
      by (auto simp: split telemetryMiddleware_def instrumented_by_def split: option.split)
    have same: "c\<lparr>g_observed := False, g_telemetry := t, g_world := w\<rparr> = c\<lparr>g_telemetry := t, g_world := w\<rparr>" for t w
      using assms(3) by simp
    obtain ident w where i: "good_id ident" "db w = db (g_world c) \<and> cached w = cached (g_world c)"
      "good_id (GetHeader (g_request c) RequestIDHeader) \<Longrightarrow>
         ident = GetHeader (g_request c) RequestIDHeader \<and> w = g_world c"
      "\<And>h. chain (tl (rt_use ?R)) h c =
         (if cuts_off cfg (g_request c) then \<lambda>c. Done (AbortWithStatus 204 c)
          else recovery (tel \<noteq> None) h)
           (with_cors cfg (decorate ident (c\<lparr>g_telemetry := (tel \<noteq> None), g_world := w\<rparr>)))"
      using inner_chain [OF assms(1)] by blast
    show ?thesis
      using i(1-3) False
      by (intro that [of ident w "rq_carrier (g_request c)"])
        (simp_all add: e i(4) chain_in_def chain_out_def same recovery_Done)
  next
    case True
    then obtain inst where inst: "tel = Some inst" "instrumentation_ok inst"
      "rq_path (g_request c) \<notin> set probePaths"
      using assms(2) by (auto simp: instrumented_by_def telemetry_ok_def)
    let ?p = "c\<lparr>g_request := with_pattern True c\<rparr>"
    obtain k where k: "\<And>h. inst h ?p = h (?p\<lparr>g_request := (g_request ?p)\<lparr>rq_carrier := k\<rparr>\<rparr>)"
      using inst(2) unfolding instrumentation_ok_def by meson
    let ?c = "c\<lparr>g_request := (with_pattern True c)\<lparr>rq_carrier := k\<rparr>, g_observed := True\<rparr>"
    have m: "telemetryMiddleware tel h c = inst (instrumented_handler h) ?p" for h
      using inst by (simp add: telemetryMiddleware_def with_pattern_def Let_def)
    have e: "chain (rt_use ?R) h c =
        (case chain (tl (rt_use ?R)) h ?c of
           Done c' \<Rightarrow> Done (observed_WriteHeaderNow c') | Panics r c' \<Rightarrow> Panics r c')" for h
      unfolding split m k by (simp add: instrumented_handler_def)
    obtain ident w where i: "good_id ident" "db w = db (g_world ?c) \<and> cached w = cached (g_world ?c)"
      "good_id (GetHeader (g_request ?c) RequestIDHeader) \<Longrightarrow>
         ident = GetHeader (g_request ?c) RequestIDHeader \<and> w = g_world ?c"
      "\<And>h. chain (tl (rt_use ?R)) h ?c =
         (if cuts_off cfg (g_request ?c) then \<lambda>c. Done (AbortWithStatus 204 c)
          else recovery (tel \<noteq> None) h)
           (with_cors cfg (decorate ident (?c\<lparr>g_telemetry := (tel \<noteq> None), g_world := w\<rparr>)))"
      using inner_chain [OF assms(1), where c = ?c] by blast
    show ?thesis
      using i(1-3) True
      by (intro that [of ident w k])
        (simp_all add: e i(4) chain_in_def chain_out_def recovery_Done)
  qed
qed

end
