(* ===== verification/Responses.thy ===== *)
theory Responses
  imports Router
begin

text \<open>
  What the router of \<open>platform/platform.go\<close> promises about every response, whatever the routes and their
  handlers are: its headers, what the telemetry library sees of it, CORS, and the end of a panic.
\<close>

section \<open>What every response has\<close>

fun gin_of :: "outcome \<Rightarrow> gin" where
  "gin_of (Done c) = c"
| "gin_of (Panics r c) = c"

text \<open>A handler that leaves the response headers alone and writes through the context's writer.\<close>

definition well_behaved :: "gin_handler \<Rightarrow> bool" where
  "well_behaved h \<longleftrightarrow> (\<forall>c. g_headers (gin_of (h c)) = g_headers c
     \<and> (observed_ok c \<longrightarrow> observed_ok (gin_of (h c))))"

lemma well_behaved_endpoint [simp]: "well_behaved (endpoint h)"
proof -
  have "observed_ok (c\<lparr>g_world := w\<rparr>) = observed_ok c" for c w
    by (simp add: observed_ok_def)
  then show ?thesis
    by (auto simp: well_behaved_def endpoint_def observed_ok_writes split: prod.splits)
qed

lemma find_handler_in: "find_handler rs m p = Some h \<Longrightarrow> (m, p, h) \<in> set rs"
  by (induction rs m p rule: find_handler.induct) (auto split: if_splits)

lemma recovered_headers: "g_headers (recovered ops r) = g_headers (gin_of r)"
  by (cases r) (simp_all add: recovered_Panics)

lemma recovered_observed: "observed_ok (gin_of r) \<Longrightarrow> observed_ok (recovered ops r)"
  by (cases r) (simp_all add: recovered_Panics)

text \<open>Where a request goes, for any router: into the chain, with one of the handlers.\<close>

lemma serve_chain:
  obtains h c where "serve r find_route routes req w = chain (rt_use r) h c"
    "h \<in> insert (rt_NoRoute r) (insert (rt_NoMethod r) ((\<lambda>(m, p, h). h) ` set routes))"
    "\<exists>ps fp st. c = (fresh (req\<lparr>rq_params := ps\<rparr>) w)\<lparr>g_full_path := fp, g_status := st\<rparr>"
proof -
  have f: "(fresh req w)\<lparr>g_status := st\<rparr> =
      (fresh (req\<lparr>rq_params := rq_params req\<rparr>) w)\<lparr>g_full_path := [], g_status := st\<rparr>" for st
    by (simp add: fresh_def)
  have f': "(fresh (req\<lparr>rq_params := ps\<rparr>) w)\<lparr>g_full_path := p\<rparr> =
      (fresh (req\<lparr>rq_params := ps\<rparr>) w)\<lparr>g_full_path := p, g_status := 200\<rparr>" for ps p
    by (simp add: fresh_def)
  consider st where "serve r find_route routes req w = chain (rt_use r) (rt_NoRoute r) ((fresh req w)\<lparr>g_status := st\<rparr>)"
    | st where "serve r find_route routes req w = chain (rt_use r) (rt_NoMethod r) ((fresh req w)\<lparr>g_status := st\<rparr>)"
    | h p ps where "serve r find_route routes req w =
          chain (rt_use r) h ((fresh (req\<lparr>rq_params := ps\<rparr>) w)\<lparr>g_full_path := p\<rparr>)"
        "find_handler routes (rq_method req) p = Some h"
    by (fastforce simp: serve_def Let_def split: lookup.splits option.splits if_splits)
  then show ?thesis
  proof cases
    case 1 then show ?thesis using that [OF 1] f by blast
  next
    case 2 then show ?thesis using that [OF 2] f by blast
  next
    case (3 h p ps)
    then show ?thesis using that [OF 3(1)] f' find_handler_in [OF 3(2)] by force
  qed
qed

definition response_ok :: "Config \<Rightarrow> instrumentation option \<Rightarrow> request \<Rightarrow> gin \<Rightarrow> bool" where
  "response_ok cfg tel req c \<longleftrightarrow>
     (\<exists>ident. response_header c RequestIDHeader = Some ident \<and> good_id ident
        \<and> (good_id (GetHeader req RequestIDHeader) \<longrightarrow> ident = GetHeader req RequestIDHeader))
     \<and> (\<forall>(n, v) \<in> set security_values. response_header c n = Some v)
     \<and> (response_header c ''Access-Control-Allow-Origin'' =
          (if slice (cfg_CORSAllowedOrigins cfg) \<noteq> [] \<and> allowed_origin (slice (cfg_CORSAllowedOrigins cfg)) req
           then Some (GetHeader req ''Origin'') else None))
     \<and> (instrumented_by tel req \<longrightarrow> g_seen_status c = [g_status c] \<and> g_seen_body c = g_body c)"

lemma allowed_origin_carrier [simp]:
  "allowed_origin os (with_pattern obs c) = allowed_origin os (g_request c)"
  "allowed_origin os (req\<lparr>rq_carrier := k\<rparr>) = allowed_origin os req"
  "GetHeader (req\<lparr>rq_params := ps\<rparr>) n = GetHeader req n"
  "allowed_origin os (req\<lparr>rq_params := ps\<rparr>) = allowed_origin os req"
  by (simp_all add: allowed_origin_def GetHeader_def)

lemma decorated_headers:
  assumes "g_headers c = []"
  shows "response_header (with_cors cfg (decorate ident c)) ''Access-Control-Allow-Origin'' =
     (if slice (cfg_CORSAllowedOrigins cfg) \<noteq> []
         \<and> allowed_origin (slice (cfg_CORSAllowedOrigins cfg)) (g_request c)
      then Some (GetHeader (g_request c) ''Origin'') else None)"
proof -
  have "response_header c ''Access-Control-Allow-Origin'' = None"
    using assms by (simp add: response_header_def)
  then show ?thesis
    by (simp add: with_cors_def cors_headers_def decorate_def RequestIDHeader_def to_lower_def)
qed

lemma observed_ok_decorate: "observed_ok c \<Longrightarrow> observed_ok (with_cors cfg (decorate ident c))"
  by (simp add: with_cors_def cors_headers_def decorate_def observed_ok_writes)

text \<open>
  A fresh request in the chain: what its handler is given (\<open>c1\<close>), and what becomes of the handler's end.
\<close>

definition decorated :: "Config \<Rightarrow> request \<Rightarrow> gin \<Rightarrow> bool" where
  "decorated cfg req c1 \<longleftrightarrow> (\<exists>ident c. c1 = with_cors cfg (decorate ident c) \<and> g_headers c = [] \<and> good_id ident
     \<and> (good_id (GetHeader req RequestIDHeader) \<longrightarrow> ident = GetHeader req RequestIDHeader)
     \<and> rq_headers (g_request c) = rq_headers req)"

lemma same_headers:
  assumes "rq_headers r = rq_headers req"
  shows "GetHeader r n = GetHeader req n" "allowed_origin os r = allowed_origin os req"
  using assms by (simp_all add: GetHeader_def allowed_origin_def)

definition final :: "Config \<Rightarrow> instrumentation option \<Rightarrow> request \<Rightarrow> gin_handler \<Rightarrow> gin \<Rightarrow> gin" where
  "final cfg tel req h c1 =
     chain_out (instrumented_by tel req)
       (if cuts_off cfg req then AbortWithStatus 204 c1 else recovered (tel \<noteq> None) (h c1))"

lemma chain_result:
  assumes "entropy_ok rand_Read" "telemetry_ok tel"
    and c0: "c0 = (fresh (req\<lparr>rq_params := ps\<rparr>) w)\<lparr>g_full_path := fp, g_status := st\<rparr>"
  obtains c1 where "\<And>h. chain (rt_use (NewRouter cfg tel rand_Read)) h c0 = Done (final cfg tel req h c1)"
    "db (g_world c1) = db w" "cached (g_world c1) = cached w"
    "\<not> g_written c1" "g_body c1 = []" "g_status c1 = st"
    "rq_method (g_request c1) = rq_method req" "rq_path (g_request c1) = rq_path req"
    "instrumented_by tel req \<Longrightarrow> observed_ok c1"
    "decorated cfg req c1"
proof -
  let ?R = "NewRouter cfg tel rand_Read" and ?obs = "instrumented_by tel req"
  have f: "\<not> g_observed c0" "g_request c0 = req\<lparr>rq_params := ps\<rparr>" "g_headers c0 = []"
    "\<not> g_written c0" "g_seen_status c0 = []" "g_seen_body c0 = []" "g_body c0 = []" "g_status c0 = st" "g_world c0 = w"
    by (simp_all add: c0 fresh_def)
  have same: "instrumented_by tel (g_request c0) = ?obs" "cuts_off cfg (g_request c0) = cuts_off cfg req"
    by (simp_all add: f(2) instrumented_by_def cuts_off_def preflight_def)
  obtain ident w' k where r: "good_id ident" "db w' = db (g_world c0) \<and> cached w' = cached (g_world c0)"
    "good_id (GetHeader (g_request c0) RequestIDHeader) \<Longrightarrow> ident = GetHeader (g_request c0) RequestIDHeader"
    "\<And>h. chain (rt_use ?R) h c0 = Done (chain_out ?obs
       (let c1 = chain_in cfg (tel \<noteq> None) ?obs ident k w' c0
        in if cuts_off cfg req then AbortWithStatus 204 c1 else recovered (tel \<noteq> None) (h c1)))"
    using chain_runs [OF assms(1,2) f(1), of cfg] unfolding same by metis
  let ?c = "c0\<lparr>g_request := (with_pattern ?obs c0)\<lparr>rq_carrier := k\<rparr>, g_observed := ?obs, g_telemetry := (tel \<noteq> None),
      g_world := w'\<rparr>"
  have "observed_ok (with_cors cfg (decorate ident ?c))" if ?obs
    using that f by (intro observed_ok_decorate) (simp add: observed_ok_def)
  then show ?thesis
    using r(1-3) f
    by (intro that [of "with_cors cfg (decorate ident ?c)"])
      (auto simp: r(4) final_def chain_in_def Let_def decorated_def intro!: exI [of _ ident] exI [of _ ?c])
qed

text \<open>Every response is decorated, as long as the handler leaves the headers alone and uses the writer.\<close>

lemma final_response_ok:
  assumes "well_behaved h" "instrumented_by tel req \<Longrightarrow> observed_ok c1" "decorated cfg req c1"
  shows "response_ok cfg tel req (final cfg tel req h c1)" "g_headers (final cfg tel req h c1) = g_headers c1"
proof -
  obtain ident c where d: "c1 = with_cors cfg (decorate ident c)" "g_headers c = []" "good_id ident"
    "good_id (GetHeader req RequestIDHeader) \<longrightarrow> ident = GetHeader req RequestIDHeader"
    "rq_headers (g_request c) = rq_headers req"
    using assms(3) by (auto simp: decorated_def)
  define c2 where "c2 = (if cuts_off cfg req then AbortWithStatus 204 c1 else recovered (tel \<noteq> None) (h c1))"
  have f: "final cfg tel req h c1 = chain_out (instrumented_by tel req) c2" by (simp add: final_def c2_def)
  show hd: "g_headers (final cfg tel req h c1) = g_headers c1"
    using assms(1) by (simp add: f chain_out_def c2_def recovered_headers well_behaved_def)
  have "observed_ok c2" if "instrumented_by tel req"
    using assms(1) assms(2) [OF that] unfolding c2_def well_behaved_def
    by (auto intro: recovered_observed observed_ok_writes)
  then have "instrumented_by tel req \<Longrightarrow> g_seen_status (final cfg tel req h c1) = [g_status (final cfg tel req h c1)]
      \<and> g_seen_body (final cfg tel req h c1) = g_body (final cfg tel req h c1)"
    by (auto simp: f chain_out_def observed_ok_def observed_WriteHeaderNow_def gin_WriteHeaderNow_def)
  moreover have "response_header (final cfg tel req h c1) n = response_header c1 n" for n
    by (simp add: response_header_def hd)
  ultimately show "response_ok cfg tel req (final cfg tel req h c1)"
    unfolding response_ok_def
    using d(3,4) decorate_cors_headers decorated_headers [OF d(2)] by (simp add: d(1) same_headers [OF d(5)])
qed

lemma router_response:
  assumes "entropy_ok rand_Read" "telemetry_ok tel" "\<forall>(m, p, h) \<in> set routes. well_behaved h"
  obtains c where "serve (NewRouter cfg tel rand_Read) find_route routes req w = Done c"
    "response_ok cfg tel req c"
proof -
  let ?R = "NewRouter cfg tel rand_Read"
  obtain h c0 ps fp st where s: "serve ?R find_route routes req w = chain (rt_use ?R) h c0"
    "h \<in> insert (rt_NoRoute ?R) (insert (rt_NoMethod ?R) ((\<lambda>(m, p, h). h) ` set routes))"
    "c0 = (fresh (req\<lparr>rq_params := ps\<rparr>) w)\<lparr>g_full_path := fp, g_status := st\<rparr>"
    by (rule serve_chain [of ?R find_route routes req w]) blast
  have wb: "well_behaved h"
    using s(2) assms(3) by (auto simp: NewRouter_def)
  obtain c1 where c1: "chain (rt_use ?R) h c0 = Done (final cfg tel req h c1)"
    "instrumented_by tel req \<Longrightarrow> observed_ok c1" "decorated cfg req c1"
    using chain_result [OF assms(1,2) s(3)] by metis
  show ?thesis
    using that [OF _ final_response_ok(1) [OF wb c1(2,3)]] s(1) c1(1) by simp
qed

section \<open>What the router promises\<close>

text \<open>The CORS headers of a response to an allowed origin.\<close>

definition cors_values :: "request \<Rightarrow> (string \<times> string) list" where
  "cors_values req =
     [(''Access-Control-Allow-Origin'', GetHeader req ''Origin''), (''Vary'', ''Origin''),
      (''Access-Control-Allow-Methods'', ''GET, POST, PUT, PATCH, DELETE, OPTIONS''),
      (''Access-Control-Allow-Headers'', ''Authorization, Content-Type, X-Request-ID''),
      (''Access-Control-Max-Age'', ''600'')]"

lemma cors_headers_values:
  assumes "(n, v) \<in> set (cors_values req)"
  shows "response_header (cors_headers (GetHeader req ''Origin'') c) n = Some v"
    and "response_header (decorate ident c) n = response_header c n"
proof -
  have "list_all (\<lambda>(n, v). response_header (cors_headers (GetHeader req ''Origin'') c) n = Some v
      \<and> response_header (decorate ident c) n = response_header c n) (cors_values req)"
    by (simp add: cors_values_def cors_headers_def decorate_def RequestIDHeader_def lower_names del: list.map)
  then show "response_header (cors_headers (GetHeader req ''Origin'') c) n = Some v"
    and "response_header (decorate ident c) n = response_header c n"
    using assms by (auto simp: list_all_iff)
qed

lemma decorated_cors:
  assumes "decorated cfg req c" "(n, v) \<in> set (cors_values req)"
  shows "response_header c n =
     (if slice (cfg_CORSAllowedOrigins cfg) \<noteq> [] \<and> allowed_origin (slice (cfg_CORSAllowedOrigins cfg)) req
      then Some v else None)"
proof -
  obtain ident c0 where d: "c = with_cors cfg (decorate ident c0)" "g_headers c0 = []"
    "rq_headers (g_request c0) = rq_headers req"
    using assms(1) by (auto simp: decorated_def)
  have "response_header c0 n = None"
    using d(2) by (simp add: response_header_def)
  then show ?thesis
    using cors_headers_values [OF assms(2)] by (simp add: d(1) with_cors_def same_headers [OF d(3)])
qed

text \<open>C25: the configuration decides what other sites may do. Whatever the route and its handler, a response has
  the CORS headers, with the origin echoed, exactly if CORS is configured and lists the origin or the
  wildcard, and otherwise has none of them. With CORS configured, a preflight is answered 204 with no body,
  runs no handler and leaves tables and cache as they are.\<close>

theorem cors_decides_by_origin:
  assumes "entropy_ok rand_Read" "telemetry_ok tel" "\<forall>(m, p, h) \<in> set routes. well_behaved h"
  shows "\<exists>c. serve (NewRouter cfg tel rand_Read) find_route routes req w = Done c
    \<and> (\<forall>(n, v) \<in> set (cors_values req). response_header c n =
         (if slice (cfg_CORSAllowedOrigins cfg) \<noteq> [] \<and> allowed_origin (slice (cfg_CORSAllowedOrigins cfg)) req
          then Some v else None))
    \<and> (slice (cfg_CORSAllowedOrigins cfg) \<noteq> [] \<and> preflight req \<longrightarrow>
         g_status c = 204 \<and> g_body c = [] \<and> db (g_world c) = db w \<and> cached (g_world c) = cached w)"
proof -
  let ?R = "NewRouter cfg tel rand_Read"
  obtain h c0 ps fp st where s: "serve ?R find_route routes req w = chain (rt_use ?R) h c0"
    "h \<in> insert (rt_NoRoute ?R) (insert (rt_NoMethod ?R) ((\<lambda>(m, p, h). h) ` set routes))"
    "c0 = (fresh (req\<lparr>rq_params := ps\<rparr>) w)\<lparr>g_full_path := fp, g_status := st\<rparr>"
    by (rule serve_chain [of ?R find_route routes req w]) blast
  have wb: "well_behaved h"
    using s(2) assms(3) by (auto simp: NewRouter_def)
  obtain c1 where c1: "chain (rt_use ?R) h c0 = Done (final cfg tel req h c1)"
    "db (g_world c1) = db w" "cached (g_world c1) = cached w" "\<not> g_written c1" "g_body c1 = []"
    "instrumented_by tel req \<Longrightarrow> observed_ok c1" "decorated cfg req c1"
    using chain_result [OF assms(1,2) s(3)] by metis
  have "response_header (final cfg tel req h c1) n = response_header c1 n" for n
    using final_response_ok(2) [OF wb c1(6,7)] by (simp add: response_header_def)
  then have "\<forall>(n, v) \<in> set (cors_values req). response_header (final cfg tel req h c1) n =
      (if slice (cfg_CORSAllowedOrigins cfg) \<noteq> [] \<and> allowed_origin (slice (cfg_CORSAllowedOrigins cfg)) req
       then Some v else None)"
    using decorated_cors [OF c1(7)] by auto
  moreover have "g_status (final cfg tel req h c1) = 204 \<and> g_body (final cfg tel req h c1) = []
      \<and> g_world (final cfg tel req h c1) = g_world c1" if "cuts_off cfg req"
    using that c1(4,5) by (simp add: final_def chain_out_def writer_defs)
  ultimately show ?thesis
    using s(1) c1(1-3) by (intro exI [of _ "final cfg tel req h c1"]) (simp add: cuts_off_def)
qed

definition preflight_request :: request where
  "preflight_request = sample_request\<lparr>rq_method := ''OPTIONS'',
     rq_headers := [(''Origin'', ''https://a''), (''Access-Control-Request-Method'', ''POST'')]\<rparr>"

definition zero_entropy :: entropy where
  "zero_entropy w = (Some (replicate 16 0), w)"

lemma zero_entropy_ok [simp]: "entropy_ok zero_entropy"
  by (simp add: entropy_ok_def zero_entropy_def)

theorem cors_decides_by_origin_witness:
  "\<exists>c. serve (NewRouter ((default_config ''x'')\<lparr>cfg_CORSAllowedOrigins := Some [''https://a'']\<rparr>) None zero_entropy)
        (\<lambda>_ _ _. NoRoute) [] preflight_request (start_world (\<lambda>_. 0)) = Done c
     \<and> g_status c = 204 \<and> response_header c ''Access-Control-Allow-Origin'' = Some ''https://a''"
proof -
  let ?cfg = "(default_config ''x'')\<lparr>cfg_CORSAllowedOrigins := Some [''https://a'']\<rparr>"
  have "preflight preflight_request" "allowed_origin [''https://a''] preflight_request"
    "GetHeader preflight_request ''Origin'' = ''https://a''"
    by (simp_all add: preflight_def allowed_origin_def preflight_request_def GetHeader_def to_lower_def)
  moreover have "slice (cfg_CORSAllowedOrigins ?cfg) = [''https://a'']" by (simp add: slice_def)
  moreover have "telemetry_ok None" "\<forall>(m, p, h) \<in> set []. well_behaved h" by (simp_all add: telemetry_ok_def)
  ultimately show ?thesis
    using cors_decides_by_origin [OF zero_entropy_ok, of None "[]" ?cfg "\<lambda>_ _ _. NoRoute" preflight_request "start_world (\<lambda>_. 0)"]
    by (auto simp: cors_values_def)
qed

text \<open>C26: a handler that panics, whatever it did before, is answered as an internal error: 500, unless a status
  was already sent, and the fixed envelope behind what was written, never the text of the panic, with the
  headers every response has, seen by the telemetry library. What the handler did to tables and cache
  stays, and the panic is logged with the method and the path on one line.\<close>

theorem panics_end_in_recovery:
  assumes "entropy_ok rand_Read" "telemetry_ok tel" "well_behaved h" "\<not> cuts_off cfg req"
    and "find_route (map (\<lambda>(m, p, h). (m, p)) routes) (rq_method req) (rq_path req) = Matched p params"
    and "find_handler routes (rq_method req) p = Some h"
    and panic: "\<And>c. \<exists>c'. h c = Panics msg c' \<and> g_request c' = g_request c"
  shows "\<exists>c c1 c'. serve (NewRouter cfg tel rand_Read) find_route routes req w = Done c \<and> response_ok cfg tel req c
    \<and> h c1 = Panics msg c' \<and> db (g_world c1) = db w \<and> cached (g_world c1) = cached w
    \<and> \<not> g_written c1 \<and> g_body c1 = [] \<and> db (g_world c) = db (g_world c') \<and> cached (g_world c) = cached (g_world c')
    \<and> g_status c = (if g_written c' then g_status c' else 500)
    \<and> g_body c = g_body c' @ [Doc (error_envelope ''INTERNAL_ERROR'' ''internal server error'')]
    \<and> logs (g_world c) = logs (g_world c') @
        (if tel \<noteq> None then [Log Error ''panic recovered'' [(''method'', rq_method req),
           (''path'', sanitizeForLog (rq_path req)), (''panic'', msg)]] else [])"
proof -
  let ?R = "NewRouter cfg tel rand_Read"
  have c0: "(fresh (req\<lparr>rq_params := params\<rparr>) w)\<lparr>g_full_path := p\<rparr> =
      (fresh (req\<lparr>rq_params := params\<rparr>) w)\<lparr>g_full_path := p, g_status := 200\<rparr>"
    by (simp add: fresh_def)
  obtain c1 where c1: "chain (rt_use ?R) h ((fresh (req\<lparr>rq_params := params\<rparr>) w)\<lparr>g_full_path := p\<rparr>)
      = Done (final cfg tel req h c1)" "db (g_world c1) = db w" "cached (g_world c1) = cached w"
    "rq_method (g_request c1) = rq_method req" "rq_path (g_request c1) = rq_path req"
    "instrumented_by tel req \<Longrightarrow> observed_ok c1" "decorated cfg req c1" "\<not> g_written c1" "g_body c1 = []"
    using chain_result [OF assms(1,2) c0] by metis
  obtain c' where c': "h c1 = Panics msg c'" "g_request c' = g_request c1"
    using panic by blast
  have "final cfg tel req h c1 = chain_out (instrumented_by tel req) (recovered (tel \<noteq> None) (Panics msg c'))"
    using assms(4) by (simp add: final_def c'(1))
  then have "g_world (final cfg tel req h c1) = g_world (recovered (tel \<noteq> None) (Panics msg c'))"
    "g_status (final cfg tel req h c1) = g_status (recovered (tel \<noteq> None) (Panics msg c'))"
    "g_body (final cfg tel req h c1) = g_body (recovered (tel \<noteq> None) (Panics msg c'))"
    by (simp_all add: chain_out_def)
  moreover have "serve ?R find_route routes req w = Done (final cfg tel req h c1)"
    using assms(5,6) c1(1) by (simp add: serve_def)
  ultimately show ?thesis
    using final_response_ok(1) [OF assms(3) c1(6,7)] c1(2-5,8,9) c'
    by (intro exI [of _ "final cfg tel req h c1"] exI [of _ c1] exI [of _ c'])
      (simp add: recovered_Panics internal_body_def)
qed

theorem panics_end_in_recovery_witness:
  "\<exists>c. serve (NewRouter (default_config ''x'') (Some id) zero_entropy) (\<lambda>_ _ _. Matched ''/boom'' [])
        [(''GET'', ''/boom'', Panics ''boom'')] sample_request (start_world (\<lambda>_. 0)) = Done c
     \<and> g_status c = 500 \<and> g_seen_status c = [500]
     \<and> g_body c = [Doc (error_envelope ''INTERNAL_ERROR'' ''internal server error'')]"
proof -
  let ?tel = "Some id" and ?routes = "[(''GET'', ''/boom'', Panics ''boom'')]" and ?cfg = "default_config ''x''"
  have "\<exists>k. \<forall>h. id h c = h (c\<lparr>g_request := (g_request c)\<lparr>rq_carrier := k\<rparr>\<rparr>)" for c :: gin
    by (rule exI [of _ "rq_carrier (g_request c)"]) simp
  then have t: "telemetry_ok ?tel"
    unfolding telemetry_ok_def instrumentation_ok_def option.case by (rule allI)
  have wb: "well_behaved (Panics ''boom'')" by (simp add: well_behaved_def)
  have r: "\<not> cuts_off ?cfg sample_request" "find_handler ?routes (rq_method sample_request) ''/boom'' = Some (Panics ''boom'')"
    "instrumented_by ?tel sample_request"
    by (simp_all add: cuts_off_def default_config_def slice_def sample_request_def instrumented_by_def probePaths_def)
  show ?thesis
    using panics_end_in_recovery [OF zero_entropy_ok t wb r(1) _ r(2), of "\<lambda>_ _ _. Matched ''/boom'' []" "[]" "''boom''"
        "start_world (\<lambda>_. 0)"] r(3) by (auto simp: response_ok_def)
qed

end
