(* ===== verification/Process.thy ===== *)
theory Process
  imports Config World
begin

text \<open>
  The life of the process: \<open>platform/process.go\<close> (\<open>Context\<close>, \<open>Warmup\<close>, \<open>Consume\<close>, \<open>Fatal\<close>),
  \<open>NewServer\<close> and \<open>Run\<close> of \<open>platform/platform.go\<close>, and \<open>main\<close> and \<open>run\<close> of \<open>cmd/platform/main.go\<close>.

  What a run does outside is a list of actions in the order they happen. What comes from outside
  (whether a library opens its connection, which of two events is first) is an argument.
\<close>

section \<open>The HTTP server\<close>

text \<open>The handler is of any type: what the server does with it is \<open>net/http\<close>'s.\<close>

record 'h http_server =
  srv_Addr :: string
  srv_Handler :: 'h
  srv_ReadHeaderTimeout :: int
  srv_ReadTimeout :: int
  srv_WriteTimeout :: int
  srv_IdleTimeout :: int
  srv_MaxHeaderBytes :: int

definition NewServer :: "Config \<Rightarrow> 'h \<Rightarrow> 'h http_server" where
  "NewServer cfg handler =
     \<lparr>srv_Addr = '':'' @ cfg_Port cfg,
      srv_Handler = handler,
      srv_ReadHeaderTimeout = cfg_ReadHeaderTimeout cfg,
      srv_ReadTimeout = cfg_ReadTimeout cfg,
      srv_WriteTimeout = cfg_WriteTimeout cfg,
      srv_IdleTimeout = cfg_IdleTimeout cfg,
      srv_MaxHeaderBytes = 2 ^ 20\<rparr>"

section \<open>Context\<close>

datatype 'h action =
    NotifySignals | StopSignals
  | OpenTelemetry | CloseTelemetry
  | OpenDatabase | CloseDatabase
  | OpenCache | CloseCache
  | Listen "'h http_server"

text \<open>The context is done with its signals where there is an error.\<close>

definition Context :: "dotenv \<Rightarrow> environ \<Rightarrow> go_error option \<times> 'h action list \<times> environ" where
  "Context godotenv env =
     (case Environment godotenv [] env of
        (Some err, env') \<Rightarrow>
          (Some (Wrapped (''load environment: '' @ err_text err) [err]), [NotifySignals, StopSignals], env')
      | (None, env') \<Rightarrow> (None, [NotifySignals], env'))"

lemma Context_result:
  assumes "Context d e0 = (err, tr, env)"
  shows "tr = (if err = None then [NotifySignals] else [NotifySignals, StopSignals])"
    and "env = snd (Environment d [] e0)"
  using assms by (auto simp: Context_def split: prod.splits option.splits)

section \<open>Warmup\<close>

text \<open>
  \<open>elapsed\<close> is what \<open>time.Since\<close> measures. The deadline of the call, five seconds, is an argument of
  \<open>fn\<close>.
\<close>

definition warmupTimeout :: int where
  "warmupTimeout = 5 * Second"

definition Warmup ::
    "bool \<Rightarrow> string \<Rightarrow> (world \<Rightarrow> world \<Rightarrow> int) \<Rightarrow> (int \<Rightarrow> world \<Rightarrow> go_error option \<times> world) \<Rightarrow> world \<Rightarrow> world" where
  "Warmup ops name elapsed fn w =
     (case fn warmupTimeout w of
        (err, w') \<Rightarrow>
          if \<not> ops then w'
          else (case err of
            Some e \<Rightarrow>
              add_log (Log Warn ''warm-up failed; the dependency will be used cold''
                [(''dependency'', name), (''error'', err_text e)]) w'
          | None \<Rightarrow>
              add_log (Log Info ''warm-up completed''
                [(''dependency'', name), (''duration_ms'', Itoa (elapsed w w'))]) w'))"

section \<open>Consume\<close>

datatype run_result = Returned "go_error option" | Panicked string

definition consumer_log :: "bool \<Rightarrow> string \<Rightarrow> string \<Rightarrow> string \<Rightarrow> (string \<times> string) list \<Rightarrow> world \<Rightarrow> world" where
  "consumer_log ops name level msg args w =
     (if \<not> ops then w
      else if level = ''error'' then add_log (Log Error msg ((''consumer'', name) # args)) w
      else add_log (Log Info msg ((''consumer'', name) # args)) w)"

definition Consume ::
    "bool \<Rightarrow> string \<Rightarrow> (world \<Rightarrow> go_error option) \<Rightarrow> (world \<Rightarrow> run_result \<times> world) \<Rightarrow> world \<Rightarrow> world" where
  "Consume ops name ctx_Err loop w =
     (let w1 = consumer_log ops name ''info'' ''consumer started'' [] w
      in case loop w1 of
        (Panicked r, w2) \<Rightarrow> consumer_log ops name ''error'' ''consumer panicked'' [(''panic'', r)] w2
      | (Returned (Some err), w2) \<Rightarrow>
          if ctx_Err w2 = None
          then consumer_log ops name ''error'' ''consumer stopped with an error'' [(''error'', err_text err)] w2
          else consumer_log ops name ''info'' ''consumer stopped'' [] w2
      | (Returned None, w2) \<Rightarrow> consumer_log ops name ''info'' ''consumer stopped'' [] w2)"

text \<open>One line before the loop and one after it, on every way out of the loop.\<close>

definition last_line :: "string \<Rightarrow> run_result \<Rightarrow> bool \<Rightarrow> log_entry" where
  "last_line name r cancelled =
     (case r of
        Panicked p \<Rightarrow> Log Error ''consumer panicked'' [(''consumer'', name), (''panic'', p)]
      | Returned (Some err) \<Rightarrow>
          if cancelled then Log Info ''consumer stopped'' [(''consumer'', name)]
          else Log Error ''consumer stopped with an error'' [(''consumer'', name), (''error'', err_text err)]
      | Returned None \<Rightarrow> Log Info ''consumer stopped'' [(''consumer'', name)])"

lemma Consume_with_telemetry:
  assumes "loop (add_log (Log Info ''consumer started'' [(''consumer'', name)]) w) = (r, w2)"
  shows "Consume True name ctx_Err loop w = add_log (last_line name r (ctx_Err w2 \<noteq> None)) w2"
  using assms
  by (auto simp: Consume_def consumer_log_def last_line_def Let_def split: run_result.splits option.splits)

lemma Consume_without_telemetry: "Consume False name ctx_Err loop w = snd (loop w)"
  by (auto simp: Consume_def consumer_log_def Let_def split: prod.splits run_result.splits option.splits)

section \<open>Serving until the end\<close>

text \<open>
  The \<open>select\<close> of \<open>Run\<close>: the listener returned first, with its error, or the context was done first.
  \<open>shutdown\<close> is \<open>srv.Shutdown\<close> with a deadline.
\<close>

datatype first_event = ServeReturned go_error | ContextDone

definition Run :: "Config \<Rightarrow> first_event \<Rightarrow> (int \<Rightarrow> go_error option) \<Rightarrow> go_error option" where
  "Run cfg event shutdown =
     (case event of
        ServeReturned err \<Rightarrow>
          if errors_Is err ServerClosed then None
          else Some (Wrapped (''server: listenAndServe failed: '' @ err_text err) [err])
      | ContextDone \<Rightarrow>
          (case shutdown (cfg_ShutdownTimeout cfg) of
             Some err \<Rightarrow> Some (Wrapped (''server: graceful shutdown incomplete: '' @ err_text err) [err])
           | None \<Rightarrow> None))"

lemma errors_Is_wrapped [err_simps, simp]: "errors_Is (Wrapped m [e]) s \<longleftrightarrow> errors_Is e s"
  by (simp add: errors_Is_def)

section \<open>cmd/platform/main.go\<close>

record outside =
  out_dotenv :: dotenv
  out_telemetry :: "go_error option"
  out_database :: "go_error option"
  out_ping :: "int \<Rightarrow> world \<Rightarrow> go_error option \<times> world"
  out_elapsed :: "world \<Rightarrow> world \<Rightarrow> int"
  out_cache :: "go_error option"
  out_event :: first_event
  out_shutdown :: "int \<Rightarrow> go_error option"

text \<open>A deferred call runs after the rest of the function, whatever its result.\<close>

definition deferring :: "'h action list \<Rightarrow> 'h action \<Rightarrow> 'a \<times> 'h action list \<times> 'w \<Rightarrow> 'a \<times> 'h action list \<times> 'w" where
  "deferring before close r = (case r of (x, tr, w) \<Rightarrow> (x, before @ tr @ [close], w))"

lemma deferring_sel [simp]:
  "fst (deferring b c r) = fst r" "fst (snd (deferring b c r)) = b @ fst (snd r) @ [c]"
  "snd (snd (deferring b c r)) = snd (snd r)"
  by (cases r; simp add: deferring_def)+

text \<open>
  The part of \<open>run\<close> behind the routes, with everything open. Building the services and the routes from
  the configuration is the argument \<open>routes\<close>, and what registering them writes to the log is \<open>register\<close>.
\<close>

definition run_server :: "outside \<Rightarrow> Config \<Rightarrow> 'h \<Rightarrow> world \<Rightarrow> go_error option \<times> 'h action list \<times> world" where
  "run_server x cfg router w =
     (let w1 = add_log (Log Info ''fast-platform started'' [(''port'', cfg_Port cfg)]) w
      in case Run cfg (out_event x) (out_shutdown x) of
        None \<Rightarrow> (None, [Listen (NewServer cfg router)], w1)
      | Some err \<Rightarrow>
          if \<not> errors_Is err Canceled
          then (Some err, [Listen (NewServer cfg router)],
                add_log (Log Error ''runtime error'' [(''error'', err_text err)]) w1)
          else (None, [Listen (NewServer cfg router)], w1))"

definition run_open ::
    "outside \<Rightarrow> (Config \<Rightarrow> 'h) \<Rightarrow> (Config \<Rightarrow> world \<Rightarrow> world) \<Rightarrow> Config \<Rightarrow> world \<Rightarrow> go_error option \<times> 'h action list \<times> world" where
  "run_open x routes register cfg w =
     (case out_telemetry x of
        Some err \<Rightarrow> (Some err, [], w)
      | None \<Rightarrow> deferring [OpenTelemetry] CloseTelemetry
          (case out_database x of
             Some err \<Rightarrow> (Some err, [], w)
           | None \<Rightarrow> deferring [OpenDatabase] CloseDatabase
               (let w1 = Warmup True ''database'' (out_elapsed x) (out_ping x) w
                in case out_cache x of
                  Some err \<Rightarrow> (Some err, [], w1)
                | None \<Rightarrow> deferring [OpenCache] CloseCache (run_server x cfg (routes cfg) (register cfg w1)))))"

definition run ::
    "outside \<Rightarrow> (Config \<Rightarrow> 'h) \<Rightarrow> (Config \<Rightarrow> world \<Rightarrow> world) \<Rightarrow> world \<Rightarrow> go_error option \<times> 'h action list \<times> world" where
  "run x routes register w =
     (case Context (out_dotenv x) (environ w) of
        (Some err, tr, env) \<Rightarrow> (Some err, tr, w\<lparr>environ := env\<rparr>)
      | (None, tr, env) \<Rightarrow> deferring tr StopSignals
          (case NewConfig env of
             Inl err \<Rightarrow> (Some err, [], w\<lparr>environ := env\<rparr>)
           | Inr cfg \<Rightarrow> run_open x routes register cfg (w\<lparr>environ := env\<rparr>)))"

text \<open>\<open>Fatal\<close> writes to the standard error; \<open>main\<close> gives that text and the exit code.\<close>

definition Fatal :: "string \<Rightarrow> go_error \<Rightarrow> string" where
  "Fatal name err = name @ '': '' @ err_text err @ [CHR 0x0A]"

definition main ::
    "outside \<Rightarrow> (Config \<Rightarrow> 'h) \<Rightarrow> (Config \<Rightarrow> world \<Rightarrow> world) \<Rightarrow> world \<Rightarrow> string \<times> int" where
  "main x routes register w = (case fst (run x routes register w) of None \<Rightarrow> ([], 0) | Some err \<Rightarrow> (Fatal ''fast-platform'' err, 1))"

section \<open>Nothing stays open\<close>

fun closes :: "'h action \<Rightarrow> 'h action option" where
  "closes NotifySignals = Some StopSignals"
| "closes OpenTelemetry = Some CloseTelemetry"
| "closes OpenDatabase = Some CloseDatabase"
| "closes OpenCache = Some CloseCache"
| "closes _ = None"

text \<open>Running the actions against a stack of what is to be closed: the innermost first.\<close>

fun unwind :: "'h action list \<Rightarrow> 'h action list \<Rightarrow> 'h action list option" where
  "unwind st [] = Some st"
| "unwind st (a # as) =
     (case closes a of
        Some c \<Rightarrow> unwind (c # st) as
      | None \<Rightarrow>
          (case a of
             Listen _ \<Rightarrow> unwind st as
           | _ \<Rightarrow> (case st of [] \<Rightarrow> None | c # st' \<Rightarrow> if a = c then unwind st' as else None)))"

lemma unwind_append:
  "unwind st (as @ bs) = (case unwind st as of None \<Rightarrow> None | Some st' \<Rightarrow> unwind st' bs)"
  by (induction st as rule: unwind.induct) (auto split: option.splits action.splits list.splits)

definition balanced :: "'h action list \<Rightarrow> bool" where
  "balanced as \<longleftrightarrow> (\<forall>st. unwind st as = Some st)"

lemma balanced_simps [simp]: "balanced []" "balanced [Listen a]"
  by (simp_all add: balanced_def)

lemma balanced_deferring:
  assumes "balanced (fst (snd r))" "closes a = Some c" "closes c = None" "\<forall>l. c \<noteq> Listen l"
  shows "balanced (fst (snd (deferring [a] c r)))"
  using assms
  by (cases r) (auto simp: deferring_def balanced_def unwind_append split: action.splits)

lemma run_server_balanced: "balanced (fst (snd (run_server x cfg router w)))"
  by (simp add: run_server_def Let_def split: option.split)

lemma run_open_balanced: "balanced (fst (snd (run_open x routes register cfg w)))"
  by (auto simp: run_open_def Let_def run_server_balanced simp del: deferring_sel
      intro!: balanced_deferring split: option.splits)

lemma run_balanced:
  fixes routes :: "Config \<Rightarrow> 'h"
  shows "balanced (fst (snd (run x routes register w)))"
proof (cases "Context (out_dotenv x) (environ w) :: go_error option \<times> 'h action list \<times> environ")
  case (fields e tr env)
  note tr = Context_result(1) [OF fields] and env = Context_result(2) [OF fields, symmetric]
  have "balanced [NotifySignals, StopSignals]"
    by (simp add: balanced_def)
  then show ?thesis
    using fields tr run_open_balanced
    by (cases e) (auto simp: run_def simp del: deferring_sel intro!: balanced_deferring split: sum.splits)
qed

text \<open>What the end of the server leaves in the log.\<close>

definition end_log :: "outside \<Rightarrow> Config \<Rightarrow> log_entry list" where
  "end_log x cfg =
     (case Run cfg (out_event x) (out_shutdown x) of
        None \<Rightarrow> []
      | Some err \<Rightarrow> if errors_Is err Canceled then [] else [Log Error ''runtime error'' [(''error'', err_text err)]])"

lemma run_server_logs:
  "logs (snd (snd (run_server x cfg router w))) =
     logs w @ Log Info ''fast-platform started'' [(''port'', cfg_Port cfg)] # end_log x cfg"
  by (simp add: run_server_def end_log_def add_log_def Let_def split: option.split)

text \<open>The server listens only on a valid port, and only where everything was opened.\<close>

lemma run_listens:
  fixes routes :: "Config \<Rightarrow> 'h"
  assumes "Listen srv \<in> set (fst (snd (run x routes register w)))"
  shows "\<exists>cfg. NewConfig (snd (Environment (out_dotenv x) [] (environ w))) = Inr cfg \<and> valid_config cfg
      \<and> srv = NewServer cfg (routes cfg)
      \<and> logs (snd (snd (run x routes register w))) =
          logs (register cfg (Warmup True ''database'' (out_elapsed x) (out_ping x)
             (w\<lparr>environ := snd (Environment (out_dotenv x) [] (environ w))\<rparr>)))
          @ Log Info ''fast-platform started'' [(''port'', cfg_Port cfg)] # end_log x cfg
      \<and> fst (snd (run x routes register w)) = [NotifySignals, OpenTelemetry, OpenDatabase, OpenCache, Listen srv,
           CloseCache, CloseDatabase, CloseTelemetry, StopSignals]"
proof -
  obtain e tr env where c: "(Context (out_dotenv x) (environ w)
      :: go_error option \<times> 'h action list \<times> environ) = (e, tr, env)"
    by (metis prod.exhaust)
  note tr = Context_result(1) [OF c] and env = Context_result(2) [OF c, symmetric]
  have "e = None" using assms c tr by (cases e) (auto simp: run_def)
  with assms c tr obtain cfg where cfg: "NewConfig env = Inr cfg"
    "Listen srv \<in> set (fst (snd (run_open x routes register cfg (w\<lparr>environ := env\<rparr>))))"
    by (auto simp: run_def split: sum.splits)
  then have o: "out_telemetry x = None" "out_database x = None" "out_cache x = None"
    by (auto simp: run_open_def Let_def split: option.splits)
  have "fst (snd (run_server x cfg (routes cfg) w')) = [Listen (NewServer cfg (routes cfg))]" for w'
    by (auto simp: run_server_def Let_def split: option.split)
  then have "fst (snd (run_open x routes register cfg w')) = [OpenTelemetry, OpenDatabase, OpenCache,
      Listen (NewServer cfg (routes cfg)), CloseCache, CloseDatabase, CloseTelemetry]" for w'
    using o by (simp add: run_open_def Let_def)
  moreover have "snd (snd (run_open x routes register cfg w')) = snd (snd (run_server x cfg (routes cfg)
      (register cfg (Warmup True ''database'' (out_elapsed x) (out_ping x) w'))))" for w'
    using o by (simp add: run_open_def Let_def)
  ultimately show ?thesis
    using assms cfg(1) c tr env \<open>e = None\<close> NewConfig_Inr [of env cfg]
    by (auto simp: run_def run_server_logs simp del: deferring_sel(1))
qed

text \<open>The ways in which \<open>run\<close> returns no error.\<close>

lemma run_result:
  fixes routes :: "Config \<Rightarrow> 'h"
  shows "fst (run x routes register w) = None \<longleftrightarrow>
     (\<exists>srv cfg. Listen srv \<in> set (fst (snd (run x routes register w)))
        \<and> NewConfig (snd (Environment (out_dotenv x) [] (environ w))) = Inr cfg
        \<and> (\<forall>err. Run cfg (out_event x) (out_shutdown x) = Some err \<longrightarrow> errors_Is err Canceled))"
proof (cases "Context (out_dotenv x) (environ w) :: go_error option \<times> 'h action list \<times> environ")
  case (fields e tr env)
  note tr = Context_result(1) [OF fields] and env = Context_result(2) [OF fields, symmetric]
  show ?thesis
  proof (cases e)
    case (Some err)
    then show ?thesis using fields tr env by (simp add: run_def)
  next
    case None
    then have tr: "tr = [NotifySignals]" using tr by simp
    show ?thesis
    proof (cases "NewConfig env")
      case (Inl err)
      then show ?thesis using fields None tr env by (simp add: run_def)
    next
      case (Inr cfg)
      have s: "fst (run_server x cfg router w') = None \<longleftrightarrow>
          (\<forall>err. Run cfg (out_event x) (out_shutdown x) = Some err \<longrightarrow> errors_Is err Canceled)"
        "fst (snd (run_server x cfg router w')) = [Listen (NewServer cfg router)]" for router :: 'h and w'
        by (auto simp: run_server_def Let_def split: option.splits)
      show ?thesis
        using fields None tr env Inr
        by (cases "out_telemetry x"; cases "out_database x"; cases "out_cache x")
          (simp_all add: run_def run_open_def Let_def s)
    qed
  qed
qed

text \<open>What \<open>run\<close> returns once the server listens: the error of \<open>Run\<close>, unless that is a cancelled context.\<close>

lemma run_listening:
  fixes routes :: "Config \<Rightarrow> 'h"
  assumes "Listen srv \<in> set (fst (snd (run x routes register w)))"
    and "NewConfig (snd (Environment (out_dotenv x) [] (environ w))) = Inr cfg"
  shows "fst (run x routes register w) =
     (case Run cfg (out_event x) (out_shutdown x) of
        None \<Rightarrow> None | Some err \<Rightarrow> if errors_Is err Canceled then None else Some err)"
proof (cases "Context (out_dotenv x) (environ w) :: go_error option \<times> 'h action list \<times> environ")
  case (fields e tr env)
  note tr = Context_result(1) [OF fields] and env = Context_result(2) [OF fields, symmetric]
  have n: "e = None" using assms(1) fields tr by (cases e) (auto simp: run_def)
  have s: "fst (run_server x cfg router w') =
      (case Run cfg (out_event x) (out_shutdown x) of
        None \<Rightarrow> None | Some err \<Rightarrow> if errors_Is err Canceled then None else Some err)" for router :: 'h and w'
    by (auto simp: run_server_def Let_def split: option.splits)
  show ?thesis
    using fields n tr env assms
    by (cases "out_telemetry x"; cases "out_database x"; cases "out_cache x")
      (simp_all add: run_def run_open_def Let_def s)
qed

text \<open>When the end of the server is not an error of the process, in the terms of the server itself.\<close>

definition calm_end :: "outside \<Rightarrow> Config \<Rightarrow> bool" where
  "calm_end x cfg \<longleftrightarrow>
     (case out_event x of
        ServeReturned err \<Rightarrow> errors_Is err ServerClosed \<or> errors_Is err Canceled
      | ContextDone \<Rightarrow>
          (case out_shutdown x (cfg_ShutdownTimeout cfg) of None \<Rightarrow> True | Some err \<Rightarrow> errors_Is err Canceled))"

lemma Run_calm:
  "(\<forall>err. Run cfg (out_event x) (out_shutdown x) = Some err \<longrightarrow> errors_Is err Canceled) \<longleftrightarrow> calm_end x cfg"
  by (auto simp: Run_def calm_end_def split: first_event.splits option.splits)

lemma Run_text:
  "\<not> calm_end x cfg \<Longrightarrow> Run cfg (out_event x) (out_shutdown x) = Some err \<Longrightarrow>
     err_text err =
       (case out_event x of
          ServeReturned e \<Rightarrow> ''server: listenAndServe failed: '' @ err_text e
        | ContextDone \<Rightarrow> ''server: graceful shutdown incomplete: '' @ err_text (the (out_shutdown x (cfg_ShutdownTimeout cfg))))"
  by (auto simp: Run_def calm_end_def split: first_event.splits option.splits if_splits)

lemma end_log_Nil: "end_log x cfg = [] \<longleftrightarrow> (\<forall>err. Run cfg (out_event x) (out_shutdown x) = Some err \<longrightarrow> errors_Is err Canceled)"
  by (auto simp: end_log_def split: option.splits)

section \<open>What the process promises\<close>

text \<open>C36: whichever library fails to open and however the server ends, every connection and handler that was opened
  is closed again, once, the last one first.\<close>

theorem nothing_stays_open:
  "unwind [] (fst (snd (run x routes register w))) = Some []"
  using run_balanced [of x routes register w] by (simp add: balanced_def)

text \<open>C37: the process listens only with a valid configuration, on its port, after telemetry, database and cache were
  opened in this order, and closes them in the reverse order. Its log has the lines of the warm-up and of
  the routes, then the start with the port, and at the end an error only if the process ends with one.\<close>

theorem listens_only_when_ready:
  assumes "Listen srv \<in> set (fst (snd (run x routes register w)))"
  shows "\<exists>cfg. valid_config cfg \<and> srv = NewServer cfg (routes cfg)
    \<and> logs (snd (snd (run x routes register w))) =
        logs (register cfg (Warmup True ''database'' (out_elapsed x) (out_ping x)
           (w\<lparr>environ := snd (Environment (out_dotenv x) [] (environ w))\<rparr>)))
        @ Log Info ''fast-platform started'' [(''port'', cfg_Port cfg)] # end_log x cfg
    \<and> (end_log x cfg \<noteq> [] \<longleftrightarrow> fst (run x routes register w) \<noteq> None)
    \<and> fst (snd (run x routes register w)) = [NotifySignals, OpenTelemetry, OpenDatabase, OpenCache, Listen srv,
         CloseCache, CloseDatabase, CloseTelemetry, StopSignals]"
proof -
  obtain cfg where cfg: "NewConfig (snd (Environment (out_dotenv x) [] (environ w))) = Inr cfg" "valid_config cfg"
    "srv = NewServer cfg (routes cfg)"
    "logs (snd (snd (run x routes register w))) =
        logs (register cfg (Warmup True ''database'' (out_elapsed x) (out_ping x)
           (w\<lparr>environ := snd (Environment (out_dotenv x) [] (environ w))\<rparr>)))
        @ Log Info ''fast-platform started'' [(''port'', cfg_Port cfg)] # end_log x cfg"
    "fst (snd (run x routes register w)) = [NotifySignals, OpenTelemetry, OpenDatabase, OpenCache, Listen srv,
         CloseCache, CloseDatabase, CloseTelemetry, StopSignals]"
    using run_listens [OF assms] by blast
  moreover have "fst (run x routes register w) = None \<longleftrightarrow> end_log x cfg = []"
    using assms cfg(1) unfolding run_result end_log_Nil by auto
  ultimately show ?thesis by (intro exI [of _ cfg]) simp
qed

definition calm_outside :: outside where
  "calm_outside = \<lparr>out_dotenv = (\<lambda>_ env. (None, env)), out_telemetry = None, out_database = None,
     out_ping = (\<lambda>_ w. (Some (errorf ''down''), w)), out_elapsed = (\<lambda>_ _. 0), out_cache = None,
     out_event = ContextDone, out_shutdown = (\<lambda>_. None)\<rparr>"

definition named_world :: world where
  "named_world = (start_world (\<lambda>_. 0))\<lparr>environ := [(''HELLNET_SERVICE'', ''api'')]\<rparr>"

lemma named_config: "NewConfig [(''HELLNET_SERVICE'', ''api'')] = Inr (default_config ''api'')"
proof -
  have g: "Getenv [(''HELLNET_SERVICE'', ''api'')] key = (if key = ''HELLNET_SERVICE'' then ''api'' else [])" for key
    by (simp add: Getenv_def)
  have "TrimSpace ''api'' = ''api''" by (rule TrimSpace_visible) (simp add: visible_def)
  then show ?thesis
    using env_config_defaults [of "[(''HELLNET_SERVICE'', ''api'')]"] default_config_valid [of "''api''"]
    by (simp add: NewConfig_Inr g)
qed

definition plain_routes :: "Config \<Rightarrow> unit" where
  "plain_routes cfg = ()"

definition plain_register :: "Config \<Rightarrow> world \<Rightarrow> world" where
  "plain_register cfg w = w"

definition calm_server :: "unit http_server" where
  "calm_server = NewServer (default_config ''api'') ()"

lemma calm_listens: "Listen (NewServer (default_config ''api'') (routes (default_config ''api'')))
    \<in> set (fst (snd (run calm_outside routes register named_world)))"
  by (simp add: run_def calm_outside_def named_world_def Context_def Environment_def load_def
      named_config run_open_def run_server_def Run_def Let_def)

lemma calm_run: "Listen calm_server \<in> set (fst (snd (run calm_outside plain_routes plain_register named_world)))"
  "fst (run calm_outside plain_routes plain_register named_world) = None"
proof -
  show "Listen calm_server \<in> set (fst (snd (run calm_outside plain_routes plain_register named_world)))"
    using calm_listens [of plain_routes plain_register] by (simp add: calm_server_def plain_routes_def)
  show "fst (run calm_outside plain_routes plain_register named_world) = None"
    by (simp add: run_def calm_outside_def named_world_def Context_def Environment_def load_def
      named_config run_open_def run_server_def Run_def Let_def)
qed

theorem listens_only_when_ready_witness:
  "fst (snd (run calm_outside plain_routes plain_register named_world)) = [NotifySignals, OpenTelemetry, OpenDatabase, OpenCache,
     Listen calm_server, CloseCache, CloseDatabase, CloseTelemetry, StopSignals]
   \<and> srv_Addr calm_server = '':8080''
   \<and> last (logs (snd (snd (run calm_outside plain_routes plain_register named_world))))
       = Log Info ''fast-platform started'' [(''port'', ''8080'')]"
proof -
  have "cfg_Port cfg = ''8080''" if "calm_server = NewServer cfg (plain_routes cfg)" for cfg
    using that by (simp add: calm_server_def NewServer_def default_config_def)
  then show ?thesis
    using listens_only_when_ready [OF calm_run(1)] calm_run(2)
    by (auto simp: calm_server_def NewServer_def default_config_def)
qed

text \<open>C38: the exit code is 0 exactly where the server was listening and then ended without a complaint: its listener
  was closed, or returned for a cancelled context, or the context was done first and the open connections
  drained within the shutdown timeout of the configuration, or only a cancelled context kept them from it. Every
  other end is exit code 1 with the name of the program and the error on the standard error; where the server
  had been listening, that is the listener's error or the incomplete shutdown.\<close>

theorem exit_code_tells_the_end:
  "(snd (main x routes register w) = 0 \<longleftrightarrow>
     (\<exists>srv cfg. Listen srv \<in> set (fst (snd (run x routes register w)))
        \<and> NewConfig (snd (Environment (out_dotenv x) [] (environ w))) = Inr cfg
        \<and> (case out_event x of
             ServeReturned err \<Rightarrow> errors_Is err ServerClosed \<or> errors_Is err Canceled
           | ContextDone \<Rightarrow>
               (case out_shutdown x (cfg_ShutdownTimeout cfg) of None \<Rightarrow> True | Some err \<Rightarrow> errors_Is err Canceled))))
   \<and> (snd (main x routes register w) \<noteq> 0 \<longrightarrow> snd (main x routes register w) = 1 \<and>
        (\<exists>err. fst (run x routes register w) = Some err \<and> fst (main x routes register w) = ''fast-platform: '' @ err_text err @ [CHR 0x0A]))
   \<and> (\<forall>srv cfg. Listen srv \<in> set (fst (snd (run x routes register w)))
        \<and> NewConfig (snd (Environment (out_dotenv x) [] (environ w))) = Inr cfg
        \<and> snd (main x routes register w) \<noteq> 0 \<longrightarrow>
        fst (main x routes register w) = ''fast-platform: '' @
          (case out_event x of
             ServeReturned err \<Rightarrow> ''server: listenAndServe failed: '' @ err_text err
           | ContextDone \<Rightarrow> ''server: graceful shutdown incomplete: ''
               @ err_text (the (out_shutdown x (cfg_ShutdownTimeout cfg)))) @ [CHR 0x0A])"
proof (intro conjI)
  have m: "snd (main x routes register w) = 0 \<longleftrightarrow> fst (run x routes register w) = None"
    "\<And>err. fst (run x routes register w) = Some err \<Longrightarrow>
      main x routes register w = (''fast-platform: '' @ err_text err @ [CHR 0x0A], 1)"
    by (auto simp: main_def Fatal_def split: option.splits)
  show "snd (main x routes register w) = 0 \<longleftrightarrow>
     (\<exists>srv cfg. Listen srv \<in> set (fst (snd (run x routes register w)))
        \<and> NewConfig (snd (Environment (out_dotenv x) [] (environ w))) = Inr cfg
        \<and> (case out_event x of
             ServeReturned err \<Rightarrow> errors_Is err ServerClosed \<or> errors_Is err Canceled
           | ContextDone \<Rightarrow>
               (case out_shutdown x (cfg_ShutdownTimeout cfg) of None \<Rightarrow> True | Some err \<Rightarrow> errors_Is err Canceled)))"
    unfolding m(1) run_result Run_calm unfolding calm_end_def ..
  show "snd (main x routes register w) \<noteq> 0 \<longrightarrow> snd (main x routes register w) = 1 \<and>
        (\<exists>err. fst (run x routes register w) = Some err \<and> fst (main x routes register w) = ''fast-platform: '' @ err_text err @ [CHR 0x0A])"
    using m by auto
  have "fst (main x routes register w) = ''fast-platform: '' @
          (case out_event x of
             ServeReturned err \<Rightarrow> ''server: listenAndServe failed: '' @ err_text err
           | ContextDone \<Rightarrow> ''server: graceful shutdown incomplete: ''
               @ err_text (the (out_shutdown x (cfg_ShutdownTimeout cfg)))) @ [CHR 0x0A]"
    if l: "Listen srv \<in> set (fst (snd (run x routes register w)))"
      "NewConfig (snd (Environment (out_dotenv x) [] (environ w))) = Inr cfg"
      "snd (main x routes register w) \<noteq> 0" for srv cfg
  proof -
    obtain err where e: "fst (run x routes register w) = Some err" using l(3) m(1) by auto
    then have r: "Run cfg (out_event x) (out_shutdown x) = Some err" "\<not> errors_Is err Canceled"
      using run_listening [OF l(1,2)] by (auto split: option.splits if_splits)
    then have "\<not> calm_end x cfg" unfolding Run_calm [symmetric] by simp
    then show ?thesis using m(2) [OF e] Run_text [OF _ r(1)] by simp
  qed
  then show "\<forall>srv cfg. Listen srv \<in> set (fst (snd (run x routes register w)))
        \<and> NewConfig (snd (Environment (out_dotenv x) [] (environ w))) = Inr cfg
        \<and> snd (main x routes register w) \<noteq> 0 \<longrightarrow>
        fst (main x routes register w) = ''fast-platform: '' @
          (case out_event x of
             ServeReturned err \<Rightarrow> ''server: listenAndServe failed: '' @ err_text err
           | ContextDone \<Rightarrow> ''server: graceful shutdown incomplete: ''
               @ err_text (the (out_shutdown x (cfg_ShutdownTimeout cfg)))) @ [CHR 0x0A]"
    by blast
qed

text \<open>A server whose port is taken.\<close>

definition noisy_outside :: outside where
  "noisy_outside = calm_outside\<lparr>out_event := ServeReturned (errorf ''bind: address already in use'')\<rparr>"

lemma noisy_run: "Listen calm_server \<in> set (fst (snd (run noisy_outside plain_routes plain_register named_world)))"
  "NewConfig (snd (Environment (out_dotenv noisy_outside) [] (environ named_world))) = Inr (default_config ''api'')"
  by (simp_all add: run_def noisy_outside_def calm_outside_def named_world_def Context_def Environment_def load_def
      named_config run_open_def run_server_def Run_def Let_def calm_server_def plain_routes_def errors_Is_def)

theorem exit_code_tells_the_end_witness:
  "snd (main calm_outside plain_routes plain_register named_world) = 0 \<and> fst (run calm_outside plain_routes plain_register named_world) = None
   \<and> main noisy_outside plain_routes plain_register named_world =
      (''fast-platform: server: listenAndServe failed: bind: address already in use'' @ [CHR 0x0A], 1)"
proof -
  have "snd (main calm_outside plain_routes plain_register named_world) \<noteq> 0 \<longrightarrow> fst (run calm_outside plain_routes plain_register named_world) \<noteq> None"
    using exit_code_tells_the_end [of calm_outside plain_routes plain_register named_world] by auto
  moreover have "\<not> errors_Is (errorf ''bind: address already in use'') ServerClosed"
    "\<not> errors_Is (errorf ''bind: address already in use'') Canceled"
    by (simp_all add: errors_Is_def)
  then have "snd (main noisy_outside plain_routes plain_register named_world) \<noteq> 0"
    using exit_code_tells_the_end [of noisy_outside plain_routes plain_register named_world]
    by (simp add: noisy_outside_def)
  then have "fst (main noisy_outside plain_routes plain_register named_world) =
      ''fast-platform: server: listenAndServe failed: bind: address already in use'' @ [CHR 0x0A]
     \<and> snd (main noisy_outside plain_routes plain_register named_world) = 1"
    using exit_code_tells_the_end [of noisy_outside plain_routes plain_register named_world] noisy_run
    by (auto simp: noisy_outside_def)
  ultimately show ?thesis using calm_run(2) by (auto intro: prod_eqI)
qed

text \<open>C39: a consumer loop never takes the process down: whether it returns, fails or panics, exactly one line is
  logged before it and one after it, which says how it ended; an error after a cancelled context is a
  normal end.\<close>

theorem consumers_end_in_one_line:
  assumes "loop (add_log (Log Info ''consumer started'' [(''consumer'', name)]) w) = (r, w2)"
  shows "Consume True name ctx_Err loop w = add_log (last_line name r (ctx_Err w2 \<noteq> None)) w2
    \<and> (log_level (last_line name r (ctx_Err w2 \<noteq> None)) = Error \<longleftrightarrow>
         (\<exists>p. r = Panicked p) \<or> (\<exists>e. r = Returned (Some e)) \<and> ctx_Err w2 = None)
    \<and> Consume False name ctx_Err loop w = snd (loop w)"
proof (intro conjI)
  show "Consume True name ctx_Err loop w = add_log (last_line name r (ctx_Err w2 \<noteq> None)) w2"
    using assms by (rule Consume_with_telemetry)
  show "Consume False name ctx_Err loop w = snd (loop w)"
    by (rule Consume_without_telemetry)
  show "log_level (last_line name r (ctx_Err w2 \<noteq> None)) = Error \<longleftrightarrow>
         (\<exists>p. r = Panicked p) \<or> (\<exists>e. r = Returned (Some e)) \<and> ctx_Err w2 = None"
    by (auto simp: last_line_def split: run_result.splits option.splits)
qed

theorem consumers_end_in_one_line_witness:
  "logs (Consume True ''c'' (\<lambda>_. None) (\<lambda>w. (Panicked ''boom'', w)) (start_world (\<lambda>_. 0))) =
     [Log Info ''consumer started'' [(''consumer'', ''c'')],
      Log Error ''consumer panicked'' [(''consumer'', ''c''), (''panic'', ''boom'')]]"
  using consumers_end_in_one_line [of "\<lambda>w. (Panicked ''boom'', w)" "''c''" "start_world (\<lambda>_. 0)" "Panicked ''boom''" _ "\<lambda>_. None"]
  by (simp add: last_line_def start_world_def)

end
