(* ===== verification/Api.thy ===== *)
theory Api
  imports Interleaving Responses Process
begin

text \<open>
  The API as \<open>cmd/platform/main.go\<close> puts it together: the routes \<open>orders.Handler.Register\<close> and
  \<open>drivers.Handler.Register\<close> mount under \<open>/api/v1\<close>, the health probes, and one router around them. Its
  lemmas say what any request, whatever it asks for, can do to the tables and to the cache.
\<close>

section \<open>Handlers that keep the world in order\<close>

definition world_ok :: "runtime \<Rightarrow> world \<Rightarrow> bool" where
  "world_ok rt w \<longleftrightarrow> tables_ok (db w) \<and> cache_sound rt w"

definition grows :: "runtime \<Rightarrow> world \<Rightarrow> world \<Rightarrow> bool" where
  "grows rt w w' \<longleftrightarrow> world_ok rt w' \<and> extends (db w) (db w')"

lemma grows_same: "world_ok rt w \<Longrightarrow> db w' = db w \<Longrightarrow> cached w' = cached w \<Longrightarrow> grows rt w w'"
  unfolding grows_def world_ok_def using cache_sound_extends [of rt w w'] by simp

lemma grows_trans: "grows rt w w' \<Longrightarrow> grows rt w' w'' \<Longrightarrow> grows rt w w''"
  unfolding grows_def using extends_trans by blast

lemma grows_world_ok: "grows rt w w' \<Longrightarrow> world_ok rt w'"
  by (simp add: grows_def)

lemma grows_frame:
  assumes "grows rt w w1" "db w2 = db w1" "cached w2 = cached w1"
  shows "grows rt w w2"
  using grows_trans [OF assms(1)] grows_same [OF grows_world_ok [OF assms(1)] assms(2,3)] by blast

locale safe_handler =
  fixes rt :: runtime and h :: handler
  assumes keeps: "runtime_ok rt \<Longrightarrow> world_ok rt w \<Longrightarrow> h req w = (r, w') \<Longrightarrow> grows rt w w'"
begin

text \<open>In the chain, and with whatever the middlewares left in the context.\<close>

lemma endpoint_grows:
  assumes "runtime_ok rt" "world_ok rt (g_world c)"
  shows "grows rt (g_world c) (g_world (gin_of (endpoint h c)))"
  using keeps [OF assms] by (auto simp: endpoint_def split: prod.split)

end

section \<open>The three handlers\<close>

lemma abort_safe: "safe_handler rt (\<lambda>req. AbortError req err)"
proof
  fix w req r w'
  assume "world_ok rt w" "AbortError req err w = (r, w')"
  then show "grows rt w w'"
    using grows_same AbortError_frame [of req err w] by (metis snd_conv)
qed

lemma abort_grows: "grows rt w0 w \<Longrightarrow> AbortError req err w = (r, w') \<Longrightarrow> grows rt w0 w'"
  using AbortError_frame [of req err w] grows_frame by (metis snd_conv)

lemma Service_Requested_grows:
  assumes ok: "world_ok rt w" and tel: "tel_ok t"
    and s: "Service_Requested rt (riderService rt t c) carrier i w = (r, w')"
  shows "grows rt w w'"
proof -
  let ?k = "job_carrier t ''orders.requested'' carrier w"
  have "doRequested rt (riderService rt t c) ?k i w = (r, w')"
    using s tel by (simp add: Service_Requested_eq)
  then obtain st w1 where b: "requested_body rt (riderService rt t c) ?k i w = ((st, r), w1)"
    "db w' = db w1" "cached w' = cached w1"
    by (auto simp: doRequested_def split: prod.splits if_splits)
  have "grows rt w w1"
  proof (cases "TrimSpace (inp_ID i) = [] \<or> TrimSpace (inp_RiderID i) = []")
    case True
    then show ?thesis using b(1) ok grows_same by (auto simp: requested_body_def)
  next
    case False
    obtain shid wa where a: "(if inp_StatusHistoryID i = [] then new_uuid w else (inp_StatusHistoryID i, w)) = (shid, wa)"
      by fastforce
    obtain xid wb where x: "(if inp_OutboxID i = [] then new_uuid wa else (inp_OutboxID i, wa)) = (xid, wb)"
      by fastforce
    have wa: "db wa = db w \<and> cached wa = cached w"
      using a by (auto simp: new_uuid_def split: if_splits)
    have wb: "db wb = db wa \<and> cached wb = cached wa"
      using x by (auto simp: new_uuid_def split: if_splits)
    obtain i' r' w2 where q: "Database_Requested (pg_execute rt) i' wb = (r', w2)"
      "db w1 = db w2" "cached w1 = cached w2"
      using b(1) False a x
      by (auto simp: requested_body_def Let_def split: prod.splits sum.splits option.splits if_splits)
    have "tables_ok (db wb)" using ok wa wb by (simp add: world_ok_def)
    from pg_orders.requested_ok [OF this q(1)] have "grows rt w w2"
      using ok wa wb cache_sound_extends [of rt w w2] by (simp add: grows_def world_ok_def)
    then show ?thesis using q(2,3) by (rule grows_frame)
  qed
  then show ?thesis using b(2,3) by (rule grows_frame)
qed

lemma request_safe:
  assumes "tel_ok t"
  shows "safe_handler rt (Handler_request rt bind (Service_Requested rt (riderService rt t c)))"
proof
  fix w req r w'
  assume ok: "world_ok rt w"
    and h: "Handler_request rt bind (Service_Requested rt (riderService rt t c)) req w = (r, w')"
  show "grows rt w w'"
  proof (cases "bind (rq_body req)")
    case (Inl msg)
    then show ?thesis using h abort_grows [OF grows_same [OF ok refl refl]] by (simp add: Handler_request_def)
  next
    case (Inr inb)
    obtain ident riderID w2 where p: "post_ids req inb w = (ident, riderID, w2)"
      by (cases "post_ids req inb w")
    have g: "grows rt w w2" using post_ids_frame [OF p] ok by (simp add: grows_same)
    show ?thesis
    proof (cases "uuid_Parse rt ident = None \<or> uuid_Parse rt riderID = None")
      case True
      have "\<exists>e. AbortError req e w2 = (r, w')"
        using h Inr p True by (auto simp: Handler_request_def post_ids_def Let_def split: prod.splits if_splits)
      then show ?thesis using abort_grows [OF g] by blast
    next
      case False
      obtain r3 w3 where s: "Service_Requested rt (riderService rt t c) (rq_carrier req)
          (post_input inb ident riderID) w2 = (r3, w3)" by fastforce
      have g3: "grows rt w w3"
        using grows_trans [OF g Service_Requested_grows [OF grows_world_ok [OF g] assms s]] .
      then show ?thesis
        using h s abort_grows [OF g3, OF sym] Handler_request_bound [where bind = bind and svc = "Service_Requested rt (riderService rt t c)",
            OF Inr p, of rt] False
        by (cases r3) auto
    qed
  qed
qed

lemma get_keeps_tables:
  assumes "world_ok rt w" "known_cache c"
    and "Handler_get rt (Service_Get rt (riderService rt t c)) req w = (r, w')"
  shows "grows rt w w' \<and> db w' = db w"
proof -
  obtain r1 w1 where s: "Service_Get rt (riderService rt t c) (Param req ''orderId'') w = (r1, w1)"
    by fastforce
  have f: "db w1 = db w" "cache_sound rt w1"
    using rider_get_frame(1,2) [OF assms(2) _ _ s] assms(1) by (simp_all add: world_ok_def)
  then have g: "grows rt w w1" using assms(1) by (simp add: grows_def world_ok_def)
  have g0: "grows rt w w" using grows_same [OF assms(1)] by simp
  have "(\<exists>e. AbortError req e w = (r, w')) \<or> (\<exists>e. AbortError req e w1 = (r, w')) \<or> w' = w1"
    using assms(3) s by (auto simp: Handler_get_def Let_def split: option.splits sum.splits if_splits)
  then show ?thesis
    using abort_grows [OF g] abort_grows [OF g0] g f(1) AbortError_frame(1) by (metis snd_conv)
qed

lemma get_safe:
  assumes "known_cache c"
  shows "safe_handler rt (Handler_get rt (Service_Get rt (riderService rt t c)))"
  by unfold_locales (use get_keeps_tables [OF _ assms] in blast)

lemma Service_Accepted_grows:
  assumes rt: "runtime_ok rt" and ok: "world_ok rt w" and tel: "tel_ok t" and rd: "sound_reader rt rd"
    and s: "Service_Accepted rt (driverService rt t rd) carrier i w = (r, w')"
  shows "grows rt w w'"
proof -
  let ?k = "job_carrier t ''drivers.accepted'' carrier w"
  have "doAccepted rt (driverService rt t rd) ?k i w = (r, w')"
    using s tel by (simp add: Service_Accepted_eq)
  then obtain st w1 where b: "accepted_body rt (driverService rt t rd) ?k i w = ((st, r), w1)"
    "db w' = db w1" "cached w' = cached w1"
    by (auto simp: doAccepted_def split: prod.splits if_splits)
  have g0: "grows rt w w" using grows_same [OF ok] by simp
  have "grows rt w w1"
  proof (cases "uuid_Parse rt (acc_OrderID i) = None \<or> uuid_Parse rt (acc_DriverID i) = None")
    case True
    then show ?thesis using b(1) g0 by (auto simp: accepted_body_def split: if_splits)
  next
    case False
    obtain e wa where ec: "early_check (driverService rt t rd) (acc_OrderID i) w = (e, wa)" by fastforce
    have "db wa = db w" "cache_sound rt wa"
      using early_check_sound(1) [OF rt rd _ _ ec] ok by (simp_all add: world_ok_def)
    then have ga: "grows rt w wa" using ok by (simp add: grows_def world_ok_def)
    show ?thesis
    proof (cases e)
      case True
      then show ?thesis using b(1) ec False ga by (auto simp: accepted_body_def)
    next
      case no: False
      obtain i' r' w2 where q: "Database_Accepted (pg_execute rt) i' wa = (r', w2)"
        "db w1 = db w2" "cached w1 = cached w2"
        using b(1) False ec no
        by (auto simp: accepted_body_def Let_def split: prod.splits sum.splits if_splits)
      then obtain args r2 where e2: "pg_execute rt acceptedSQL args wa = (r2, w2)"
        by (auto simp: Database_Accepted_def split: prod.splits sum.splits if_splits)
      have "tables_ok (db wa)" using grows_world_ok [OF ga] by (simp add: world_ok_def)
      from pg_execute_ok [OF this e2] have "grows rt wa w2"
        using pg_execute_frame [OF e2] grows_world_ok [OF ga] cache_sound_extends [of rt wa w2]
        by (simp add: grows_def world_ok_def)
      then show ?thesis using grows_frame [OF grows_trans [OF ga] q(2,3)] by blast
    qed
  qed
  then show ?thesis using b(2,3) by (rule grows_frame)
qed

lemma accept_safe:
  assumes "tel_ok t" "sound_reader rt rd"
  shows "safe_handler rt (Handler_accept rt (Service_Accepted rt (driverService rt t rd)))"
proof
  fix w req r w'
  assume rt: "runtime_ok rt" and ok: "world_ok rt w"
    and h: "Handler_accept rt (Service_Accepted rt (driverService rt t rd)) req w = (r, w')"
  have g0: "grows rt w w" using grows_same [OF ok] by simp
  show "grows rt w w'"
  proof (cases "uuid_Parse rt (GetHeader req ''driver_id'') = None")
    case True
    then show ?thesis using h abort_grows [OF g0] by (auto simp: Handler_accept_def)
  next
    case False
    let ?w3 = "snd (new_uuid (snd (new_uuid (snd (new_uuid w)))))"
    have g3: "grows rt w ?w3" using ok by (intro grows_same) simp_all
    obtain i r4 w4 where s: "Service_Accepted rt (driverService rt t rd) (rq_carrier req) i ?w3 = (r4, w4)"
      and r: "(\<exists>e. AbortError req e w4 = (r, w')) \<or> w' = w4"
      using h False by (auto simp: Handler_accept_def Let_def split: prod.splits sum.splits)
    have "grows rt w w4"
      using grows_trans [OF g3 Service_Accepted_grows [OF rt grows_world_ok [OF g3] assms s]] .
    then show ?thesis using r abort_grows by blast
  qed
qed

interpretation abort: safe_handler rt "\<lambda>req. AbortError req err" for rt err
  by (rule abort_safe)

interpretation post: safe_handler rt
    "Handler_request rt bind (Service_Requested rt (riderService rt (Some plain_worker) c))" for rt bind c
  by (rule request_safe) (simp add: tel_ok_def)

interpretation get: safe_handler rt
    "Handler_get rt (Service_Get rt (riderService rt t (Some memory_cache)))" for rt t
  by (rule get_safe) simp

interpretation accept: safe_handler rt
    "Handler_accept rt (Service_Accepted rt (driverService rt (Some plain_worker)
       (Some (Service_Get rt (riderService rt t (Some memory_cache))))))" for rt t
  by (rule accept_safe) (simp_all add: tel_ok_def)

section \<open>The routes\<close>

definition orders_Register ::
    "runtime \<Rightarrow> (string \<Rightarrow> string + requestInput) \<Rightarrow> orders_handler \<Rightarrow> string \<Rightarrow> route list" where
  "orders_Register rt bind h prefix =
     [(''POST'', prefix @ ''/orders'', endpoint (Handler_request rt bind (service_Requested h))),
      (''GET'', prefix @ ''/orders/:orderId'', endpoint (Handler_get rt (service_Get h)))]"

definition drivers_Register :: "runtime \<Rightarrow> drivers_handler \<Rightarrow> string \<Rightarrow> route list" where
  "drivers_Register rt h prefix =
     [(''POST'', prefix @ ''/orders/:orderId/accept'', endpoint (Handler_accept rt (service_Accepted h)))]"

lemmas route_defs = orders_Register_def drivers_Register_def NewOrdersHandler_def NewDriversHandler_def

text \<open>
  The services of \<open>run\<close>, the two groups of routes, and the probes, whose handlers are the telemetry
  library's. \<open>api\<close> is a request's way through all of it.
\<close>

record wiring =
  wi_runtime :: runtime
  wi_bind :: "string \<Rightarrow> string + requestInput"
  wi_riders :: "(OrderOutput \<times> go_error option) worker option"
  wi_drivers :: "(DriverOrderOutput \<times> go_error option) worker option"
  wi_cache :: "view_cache option"
  wi_instrumentation :: "instrumentation option"
  wi_entropy :: entropy
  wi_find_route :: route_finder
  wi_probe :: "string \<Rightarrow> gin_handler"

definition api_routes :: "wiring \<Rightarrow> route list" where
  "api_routes wi =
     (let rt = wi_runtime wi;
          rider = riderService rt (wi_riders wi) (wi_cache wi);
          driver = driverService rt (wi_drivers wi) (Some (Service_Get rt rider))
      in orders_Register rt (wi_bind wi) (NewOrdersHandler (Service_Requested rt rider) (Service_Get rt rider)) ''/api/v1''
         @ drivers_Register rt (NewDriversHandler (Service_Accepted rt driver)) ''/api/v1''
         @ [(''GET'', ''/live'', wi_probe wi ''/live''), (''GET'', ''/ready'', wi_probe wi ''/ready''),
            (''GET'', ''/health'', wi_probe wi ''/health'')])"

definition api :: "wiring \<Rightarrow> Config \<Rightarrow> request \<Rightarrow> world \<Rightarrow> outcome" where
  "api wi cfg = serve (NewRouter cfg (wi_instrumentation wi) (wi_entropy wi)) (wi_find_route wi) (api_routes wi)"

text \<open>What registering the routes of the API writes to the log; gin's name for a handler is an argument.\<close>

definition api_register :: "wiring \<Rightarrow> (route \<Rightarrow> string) \<Rightarrow> Config \<Rightarrow> world \<Rightarrow> world" where
  "api_register wi name cfg =
     register_routes (NewRouter cfg (wi_instrumentation wi) (wi_entropy wi)) name (api_routes wi)"

text \<open>What the wiring relies on of the libraries, and that a probe only answers.\<close>

definition wiring_ok :: "wiring \<Rightarrow> bool" where
  "wiring_ok wi \<longleftrightarrow> runtime_ok (wi_runtime wi) \<and> tel_ok (wi_riders wi) \<and> tel_ok (wi_drivers wi)
     \<and> known_cache (wi_cache wi) \<and> telemetry_ok (wi_instrumentation wi) \<and> entropy_ok (wi_entropy wi)
     \<and> (\<forall>p. well_behaved (wi_probe wi p)
          \<and> (\<forall>c. g_world (gin_of (wi_probe wi p c)) = g_world c))"

definition keeps_world :: "runtime \<Rightarrow> gin_handler \<Rightarrow> bool" where
  "keeps_world rt h \<longleftrightarrow>
     (\<forall>c. world_ok rt (g_world c) \<longrightarrow> grows rt (g_world c) (g_world (gin_of (h c))))"

lemma keeps_world_endpoint: "runtime_ok rt \<Longrightarrow> safe_handler rt h \<Longrightarrow> keeps_world rt (endpoint h)"
  by (simp add: keeps_world_def safe_handler.endpoint_grows)

lemma recovered_grows: "grows rt w (g_world (gin_of r)) \<Longrightarrow> grows rt w (g_world (recovered ops r))"
  by (cases r) (auto simp: recovered_Panics intro: grows_frame)

lemma chain_grows:
  assumes "entropy_ok rand_Read" "telemetry_ok ins" "\<not> g_observed c" "keeps_world rt h"
    and "world_ok rt (g_world c)"
  shows "grows rt (g_world c) (g_world (gin_of (chain (rt_use (NewRouter cfg ins rand_Read)) h c)))"
proof -
  obtain ident w k where w: "db w = db (g_world c) \<and> cached w = cached (g_world c)"
    and e: "chain (rt_use (NewRouter cfg ins rand_Read)) h c =
       Done (chain_out (instrumented_by ins (g_request c))
         (let c1 = chain_in cfg (ins \<noteq> None) (instrumented_by ins (g_request c)) ident k w c
          in if cuts_off cfg (g_request c) then AbortWithStatus 204 c1
             else recovered (ins \<noteq> None) (h c1)))"
    using chain_runs [OF assms(1-3), of cfg] by metis
  define c1 where "c1 = chain_in cfg (ins \<noteq> None) (instrumented_by ins (g_request c)) ident k w c"
  have c1: "g_world c1 = w" by (simp add: c1_def chain_in_def)
  have g: "grows rt (g_world c) w" using w assms(5) by (simp add: grows_same)
  have "grows rt w (g_world (gin_of (h c1)))"
    using assms(4) grows_world_ok [OF g] by (simp add: keeps_world_def flip: c1)
  then have "grows rt (g_world c) (g_world (recovered (ins \<noteq> None) (h c1)))"
    using recovered_grows grows_trans [OF g] by blast
  then show ?thesis
    using g c1 unfolding e c1_def [symmetric] Let_def by (simp add: chain_out_def)
qed

lemma api_grows:
  assumes wi: "wiring_ok wi" and ok: "world_ok (wi_runtime wi) w"
  shows "grows (wi_runtime wi) w (g_world (gin_of (api wi cfg req w)))"
proof -
  let ?R = "NewRouter cfg (wi_instrumentation wi) (wi_entropy wi)" and ?rt = "wi_runtime wi"
  obtain h c where s: "api wi cfg req w = chain (rt_use ?R) h c"
    "h \<in> insert (rt_NoRoute ?R) (insert (rt_NoMethod ?R) ((\<lambda>(m, p, h). h) ` set (api_routes wi)))"
    "\<exists>ps fp st. c = (fresh (req\<lparr>rq_params := ps\<rparr>) w)\<lparr>g_full_path := fp, g_status := st\<rparr>"
    unfolding api_def by (rule serve_chain)
  have rt: "runtime_ok ?rt" "tel_ok (wi_riders wi)" "tel_ok (wi_drivers wi)" "known_cache (wi_cache wi)"
    using wi by (simp_all add: wiring_ok_def)
  have probe: "keeps_world ?rt (wi_probe wi p)" for p
    using wi by (auto simp: wiring_ok_def keeps_world_def intro: grows_same)
  have "keeps_world ?rt h"
    using s(2) probe request_safe [OF rt(2), of ?rt "wi_bind wi" "wi_cache wi"] get_safe [OF rt(4), of ?rt "wi_riders wi"]
      accept_safe [OF rt(3) sound_reader_rider(2) [OF rt(4), of ?rt "wi_riders wi"]] abort_safe [of ?rt]
    by (auto simp: api_routes_def route_defs NewRouter_def Let_def
        intro: keeps_world_endpoint [OF rt(1)])
  moreover have "\<not> g_observed c" "g_world c = w"
    using s(3) by (auto simp: fresh_def)
  ultimately show ?thesis
    using chain_grows [of "wi_entropy wi" "wi_instrumentation wi" c ?rt h cfg] wi ok s(1)
    by (simp add: wiring_ok_def)
qed

lemma api_answers:
  assumes "wiring_ok wi"
  obtains c where "api wi cfg req w = Done c" "response_ok cfg (wi_instrumentation wi) req c"
proof -
  have "\<forall>(m, p, h) \<in> set (api_routes wi). well_behaved h"
    using assms by (simp add: api_routes_def route_defs Let_def wiring_ok_def)
  then show ?thesis
    using router_response [of "wi_entropy wi" "wi_instrumentation wi" "api_routes wi" cfg "wi_find_route wi" req w]
      assms that by (auto simp: wiring_ok_def api_def)
qed

text \<open>
  A request whose route is found and that is no preflight gets its handler's answer. The handler sees the
  request as it came, with the parameters of the path, the pattern of the route and the trace context, in a
  world with the same tables and cache.
\<close>

lemma api_route:
  assumes wi: "wiring_ok wi"
    and r: "wi_find_route wi (map (\<lambda>(m, p, h). (m, p)) (api_routes wi)) (rq_method req) (rq_path req) = Matched p params"
      "find_handler (api_routes wi) (rq_method req) p = Some (endpoint h)" "\<not> cuts_off cfg req"
  shows "\<exists>c k pat w'. api wi cfg req w = Done c \<and> db w' = db w \<and> cached w' = cached w
    \<and> (let (resp, w1) = h (req\<lparr>rq_params := params, rq_pattern := pat, rq_carrier := k,
              rq_has_telemetry := (wi_instrumentation wi \<noteq> None)\<rparr>) w'
       in g_world c = w1 \<and> g_body c = [Doc (rs_body resp)] \<and> (0 < rs_status resp \<longrightarrow> g_status c = rs_status resp))"
proof -
  let ?ins = "wi_instrumentation wi"
  let ?R = "NewRouter cfg ?ins (wi_entropy wi)" and ?obs = "instrumented_by ?ins req"
  define c0 where "c0 = (fresh (req\<lparr>rq_params := params\<rparr>) w)\<lparr>g_full_path := p\<rparr>"
  have s: "api wi cfg req w = chain (rt_use ?R) (endpoint h) c0"
    using r(1,2) by (simp add: api_def serve_def c0_def)
  have c0: "\<not> g_observed c0" "g_request c0 = req\<lparr>rq_params := params\<rparr>" "\<not> g_written c0" "g_world c0 = w"
    "g_status c0 = 200" "g_body c0 = []"
    by (simp_all add: c0_def fresh_def)
  have obs: "instrumented_by ?ins (g_request c0) = ?obs" "\<not> cuts_off cfg (g_request c0)"
    using r(3) by (simp_all add: c0(2) instrumented_by_def cuts_off_def preflight_def)
  have ok: "entropy_ok (wi_entropy wi)" "telemetry_ok ?ins" using wi by (simp_all add: wiring_ok_def)
  obtain ident w' k where k0: "db w' = db (g_world c0) \<and> cached w' = cached (g_world c0)"
    "chain (rt_use ?R) (endpoint h) c0 = Done (chain_out (instrumented_by ?ins (g_request c0))
       (let c1 = chain_in cfg (?ins \<noteq> None) (instrumented_by ?ins (g_request c0)) ident k w' c0
        in if cuts_off cfg (g_request c0) then AbortWithStatus 204 c1
           else recovered (?ins \<noteq> None) (endpoint h c1)))"
    using chain_runs [OF ok c0(1), of cfg] by metis
  have k: "db w' = db w" "cached w' = cached w" "chain (rt_use ?R) (endpoint h) c0 = Done (chain_out ?obs
       (recovered (?ins \<noteq> None) (endpoint h (chain_in cfg (?ins \<noteq> None) ?obs ident k w' c0))))"
    using k0 c0(4) obs by (simp_all add: Let_def)
  define c1 where "c1 = chain_in cfg (?ins \<noteq> None) ?obs ident k w' c0"
  obtain pat where pat: "(with_pattern ?obs c0)\<lparr>rq_carrier := k\<rparr>
      = req\<lparr>rq_params := params, rq_pattern := pat, rq_carrier := k\<rparr>"
  proof -
    have "req\<lparr>rq_params := params, rq_carrier := k\<rparr>
        = req\<lparr>rq_params := params, rq_pattern := rq_pattern req, rq_carrier := k\<rparr>" by simp
    then show thesis
      using that [of "if ?obs \<and> g_full_path c0 \<noteq> [] then g_full_path c0 else rq_pattern req"]
      by (auto simp: with_pattern_def c0(2))
  qed
  have c1: "g_request c1 = req\<lparr>rq_params := params, rq_pattern := pat, rq_carrier := k\<rparr>" "g_world c1 = w'"
    "telemetryFromContext c1 = (?ins \<noteq> None)" "\<not> g_written c1" "g_status c1 = 200" "g_body c1 = []"
    using pat by (simp_all add: c1_def chain_in_def telemetryFromContext_def c0)
  obtain resp w1 where h: "h (req\<lparr>rq_params := params, rq_pattern := pat, rq_carrier := k,
      rq_has_telemetry := (?ins \<noteq> None)\<rparr>) w' = (resp, w1)" by fastforce
  have e: "endpoint h c1 = Done (gin_JSON (rs_status resp) (rs_body resp) (c1\<lparr>g_world := w1\<rparr>))"
    using h c1(1-3) by (simp add: endpoint_def)
  let ?c = "chain_out ?obs (gin_JSON (rs_status resp) (rs_body resp) (c1\<lparr>g_world := w1\<rparr>))"
  have "g_world ?c = w1" "g_body ?c = [Doc (rs_body resp)]" "0 < rs_status resp \<longrightarrow> g_status ?c = rs_status resp"
    using c1(4-6) by (simp_all add: chain_out_def writer_defs)
  moreover have "api wi cfg req w = Done ?c"
    using k(3) s e unfolding c1_def [symmetric] by simp
  ultimately show ?thesis
    using k(1,2) h by (intro exI [of _ ?c] exI [of _ k] exI [of _ pat] exI [of _ w']) simp
qed

definition api_handler :: "wiring \<Rightarrow> string \<Rightarrow> string \<Rightarrow> handler option" where
  "api_handler wi m p =
     (let rt = wi_runtime wi;
          rider = riderService rt (wi_riders wi) (wi_cache wi);
          driver = driverService rt (wi_drivers wi) (Some (Service_Get rt rider))
      in map_of
        [((''POST'', ''/api/v1/orders''), Handler_request rt (wi_bind wi) (Service_Requested rt rider)),
         ((''GET'', ''/api/v1/orders/:orderId''), Handler_get rt (Service_Get rt rider)),
         ((''POST'', ''/api/v1/orders/:orderId/accept''), Handler_accept rt (Service_Accepted rt driver))] (m, p))"

lemma api_handler_route: "api_handler wi m p = Some h \<Longrightarrow> find_handler (api_routes wi) m p = Some (endpoint h)"
  by (auto simp: api_handler_def api_routes_def route_defs Let_def split: if_splits)

text \<open>A run of the API: requests one after another.\<close>

definition api_run :: "wiring \<Rightarrow> Config \<Rightarrow> request list \<Rightarrow> world \<Rightarrow> world" where
  "api_run wi cfg reqs w = fold (\<lambda>req w. g_world (gin_of (api wi cfg req w))) reqs w"

lemma api_run_grows:
  assumes "wiring_ok wi" "world_ok (wi_runtime wi) w"
  shows "grows (wi_runtime wi) w (api_run wi cfg reqs w)"
  using assms(2)
proof (induction reqs arbitrary: w)
  case Nil
  then show ?case by (simp add: api_run_def grows_same)
next
  case (Cons req reqs)
  have g: "grows (wi_runtime wi) w (g_world (gin_of (api wi cfg req w)))"
    using api_grows [OF assms(1) Cons.prems] .
  show ?case
    using grows_trans [OF g Cons.IH [OF grows_world_ok [OF g]]] by (simp add: api_run_def)
qed

end
