(* ===== verification/Calls.thy ===== *)
theory Calls
  imports Interleaving
begin

text \<open>
  The three handlers cut where they wait for another process: what a call does when it arrives, after
  the early check has read the order, and after the database has answered. Each stage runs alone, so
  between two stages other requests may run.

  The stages are cut out of the code of \<open>Handler_request\<close>, \<open>Handler_get\<close> and \<open>Handler_accept\<close> with the
  services behind them; \<open>accept_in_stages\<close>, \<open>request_in_stages\<close> and \<open>get_in_stages\<close> say that one stage
  after the other is the handler, for any database and any order reader.
\<close>

section \<open>Accepting an order\<close>

text \<open>A call that is answered on arrival.\<close>

definition rejected :: "request \<Rightarrow> http_error \<Rightarrow> world \<Rightarrow> (response + 'i) \<times> world" where
  "rejected req e w = (case AbortError req (Some (HTTPErr e)) w of (resp, w') \<Rightarrow> (Inl resp, w'))"

lemma rejected_answers [simp]:
  "(case rejected req e w of (Inl resp, w1) \<Rightarrow> (resp, w1) | (Inr i, w1) \<Rightarrow> f i w1)
     = AbortError req (Some (HTTPErr e)) w"
  by (simp add: rejected_def split: prod.split)

text \<open>The header, the three new ids, and the two checks of \<open>doAccepted\<close> on ids.\<close>

definition accept_arrive :: "runtime \<Rightarrow> request \<Rightarrow> world \<Rightarrow> (response + AcceptedInput) \<times> world" where
  "accept_arrive rt req w =
     (let driverID = GetHeader req ''driver_id''
      in if uuid_Parse rt driverID = None
         then rejected req (ValidationError ''driver_id'' ''must be a UUID'') w
         else
           (let (acceptanceID, w1) = new_uuid w;
                (statusHistoryID, w2) = new_uuid w1;
                (outboxID, w3) = new_uuid w2
            in if uuid_Parse rt (Param req ''orderId'') = None
               then rejected req (ValidationError ''order_id'' ''must be a UUID'') w3
               else (Inr \<lparr>acc_OrderID = Param req ''orderId'', acc_DriverID = driverID,
                   acc_AcceptanceID = acceptanceID, acc_StatusHistoryID = statusHistoryID,
                   acc_OutboxID = outboxID, acc_Payload = NilPayload, acc_EventType = []\<rparr>, w3)))"

text \<open>With what the early check has read: a refusal, or the input with its event.\<close>

definition accept_checked ::
    "(string \<times> string) list \<Rightarrow> AcceptedInput \<Rightarrow> go_error + OrderView \<Rightarrow> world \<Rightarrow> go_error + AcceptedInput" where
  "accept_checked carrier input found w =
     (if (case found of Inr view \<Rightarrow> view_Status view \<noteq> ''requested'' | Inl _ \<Rightarrow> False)
      then Inl (HTTPErr order_not_acceptable)
      else Inr (input\<lparr>
        acc_Payload := InjectTraceContext carrier (Marshal_accepted
          \<lparr>oa_EventID = acc_OutboxID input, oa_EventVersion = 1, oa_OccurredAt = clock w,
           oa_OrderID = acc_OrderID input, oa_DriverID = acc_DriverID input\<rparr>),
        acc_EventType := OrderAccepted_MessageType (environ w)\<rparr>))"

text \<open>With the answer of the database: an error, or the affected rows.\<close>

definition accept_answered :: "request \<Rightarrow> AcceptedInput \<Rightarrow> go_error + int \<Rightarrow> world \<Rightarrow> response \<times> world" where
  "accept_answered req input res w =
     (case res of
        Inl err \<Rightarrow> AbortError req (Some (accepted_error err)) w
      | Inr rows \<Rightarrow>
          if rows = 0 then AbortError req (Some (HTTPErr order_not_acceptable)) w
          else (\<lparr>rs_status = 201, rs_body = DriverOrderOutput_json \<lparr>dout_ID = acc_OrderID input\<rparr>\<rparr>, w))"

lemma accepted_error_not_acceptable [simp]:
  "accepted_error (HTTPErr order_not_acceptable) = HTTPErr order_not_acceptable"
  by (simp add: accepted_error_def order_not_acceptable_def)

lemma accept_in_stages:
  "Handler_accept rt (Service_Accepted rt (NewDriverService None (Database_Accepted execute) (Some get))) req w =
     (case accept_arrive rt req w of
        (Inl resp, w1) \<Rightarrow> (resp, w1)
      | (Inr i, w1) \<Rightarrow>
          (case get (acc_OrderID i) w1 of (found, w2) \<Rightarrow>
            (case accept_checked (rq_carrier req) i found w2 of
               Inl e \<Rightarrow> AbortError req (Some e) w2
             | Inr i' \<Rightarrow>
                 (case execute acceptedSQL (accept_args i') w2 of (res, w3) \<Rightarrow> accept_answered req i' res w3))))"
proof (cases "uuid_Parse rt (GetHeader req ''driver_id'') = None")
  case True
  then show ?thesis by (simp add: Handler_accept_def accept_arrive_def Let_def)
next
  case False
  then obtain drv where header: "uuid_Parse rt (GetHeader req ''driver_id'') = Some drv" by blast
  obtain a w1 where 1: "new_uuid w = (a, w1)" by fastforce
  obtain h w2 where 2: "new_uuid w1 = (h, w2)" by fastforce
  obtain x w3 where 3: "new_uuid w2 = (x, w3)" by fastforce
  let ?i = "\<lparr>acc_OrderID = Param req ''orderId'', acc_DriverID = GetHeader req ''driver_id'',
      acc_AcceptanceID = a, acc_StatusHistoryID = h, acc_OutboxID = x, acc_Payload = NilPayload, acc_EventType = []\<rparr>"
  have handler: "Handler_accept rt svc req w =
      (case svc (rq_carrier req) ?i w3 of
         (Inl err, w4) \<Rightarrow> AbortError req (Some err) w4
       | (Inr order, w4) \<Rightarrow> (\<lparr>rs_status = 201, rs_body = DriverOrderOutput_json order\<rparr>, w4))" for svc
    using header by (simp add: Handler_accept_def Let_def 1 2 3)
  have arrive: "accept_arrive rt req w =
      (if uuid_Parse rt (Param req ''orderId'') = None
       then rejected req (ValidationError ''order_id'' ''must be a UUID'') w3 else (Inr ?i, w3))"
    using header by (simp add: accept_arrive_def Let_def 1 2 3)
  show ?thesis
  proof (cases "uuid_Parse rt (Param req ''orderId'') = None")
    case True
    then show ?thesis using header arrive
      by (simp add: handler Service_Accepted_def doAccepted_def accepted_body_def NewDriverService_def)
  next
    case False
    then obtain oid where order: "uuid_Parse rt (Param req ''orderId'') = Some oid" by blast
    obtain found w4 where g: "get (Param req ''orderId'') w3 = (found, w4)" by fastforce
    have arrive: "accept_arrive rt req w = (Inr ?i, w3)"
      using order by (simp add: arrive)
    have check: "early_check (NewDriverService None (Database_Accepted execute) (Some get)) (acc_OrderID ?i) w3
        = (case found of Inr view \<Rightarrow> view_Status view \<noteq> ''requested'' | Inl _ \<Rightarrow> False, w4)"
      using g by (auto simp: early_check_def NewDriverService_def split: sum.split)
    show ?thesis
    proof (cases "case found of Inr view \<Rightarrow> view_Status view \<noteq> ''requested'' | Inl _ \<Rightarrow> False")
      case refused: True
      then show ?thesis using header order check g arrive
        by (simp add: handler Service_Accepted_def doAccepted_def accepted_body_def accept_checked_def
            NewDriverService_def)
    next
      case passed: False
      obtain i' where i': "accept_checked (rq_carrier req) ?i found w4 = Inr i'" "acc_OrderID i' = acc_OrderID ?i"
        "i' = ?i\<lparr>acc_Payload := InjectTraceContext (rq_carrier req) (Marshal_accepted
          \<lparr>oa_EventID = x, oa_EventVersion = 1, oa_OccurredAt = clock w4,
           oa_OrderID = Param req ''orderId'', oa_DriverID = GetHeader req ''driver_id''\<rparr>),
          acc_EventType := OrderAccepted_MessageType (environ w4)\<rparr>"
        using passed by (simp add: accept_checked_def)
      obtain res w5 where e: "execute acceptedSQL (accept_args i') w4 = (res, w5)" by fastforce
      then have "Database_Accepted execute i' w4 =
          (case res of Inl err \<Rightarrow> (Inl err, w5)
           | Inr rows \<Rightarrow> if rows = 0 then (Inl (HTTPErr order_not_acceptable), w5)
               else (Inr \<lparr>drv_ID = acc_OrderID i'\<rparr>, w5))"
        by (simp add: Database_Accepted_def accept_args_def flip: order_not_acceptable_def split: sum.split)
      then have "accepted_body rt (NewDriverService None (Database_Accepted execute) (Some get)) (rq_carrier req) ?i w3 =
          (case res of Inl err \<Rightarrow> ((''error'', Inl (accepted_error err)), w5)
           | Inr rows \<Rightarrow> if rows = 0 then ((''error'', Inl (HTTPErr order_not_acceptable)), w5)
               else ((''success'', Inr \<lparr>dout_ID = acc_OrderID i'\<rparr>), w5))"
        using order header check passed i'(3)
        by (simp add: accepted_body_def Let_def NewDriverService_def DriverOrderOutput_of_def split: sum.split)
      then show ?thesis using header order i' g arrive e
        by (simp add: handler Service_Accepted_def doAccepted_def accept_answered_def NewDriverService_def
            split: sum.split)
    qed
  qed
qed

section \<open>Requesting an order\<close>

text \<open>The body, the ids, the checks of both layers, and the input with its event.\<close>

definition request_ready ::
    "runtime \<Rightarrow> (string \<times> string) list \<Rightarrow> OrderRequestedInput \<Rightarrow> world \<Rightarrow> OrderRequestedInput \<times> world" where
  "request_ready rt carrier input w =
     (let (shid, w1) = (if inp_StatusHistoryID input = [] then new_uuid w else (inp_StatusHistoryID input, w));
          (xid, w2) = (if inp_OutboxID input = [] then new_uuid w1 else (inp_OutboxID input, w1));
          event = \<lparr>or_EventID = xid, or_EventVersion = 1, or_OccurredAt = clock w2,
            or_OrderID = inp_ID input, or_RiderID = inp_RiderID input,
            or_PickupLatitude = inp_PickupLatitude input,
            or_PickupLongitude = inp_PickupLongitude input,
            or_DestinationLatitude = inp_DestinationLatitude input,
            or_DestinationLongitude = inp_DestinationLongitude input\<rparr>
      in (input\<lparr>inp_StatusHistoryID := shid, inp_OutboxID := xid,
            inp_Payload := InjectTraceContext carrier (Marshal_requested (fmt_float rt) event),
            inp_EventType := OrderRequested_MessageType (environ w2)\<rparr>, w2))"

definition request_arrive ::
    "runtime \<Rightarrow> (string \<Rightarrow> string + requestInput) \<Rightarrow> request \<Rightarrow> world
      \<Rightarrow> (response + OrderRequestedInput) \<times> world" where
  "request_arrive rt bind req w =
     (case bind (rq_body req) of
        Inl msg \<Rightarrow> rejected req (ValidationError ''body'' msg) w
      | Inr inb \<Rightarrow>
          (case post_ids req inb w of
             (ident, riderID, w1) \<Rightarrow>
               if uuid_Parse rt ident = None then rejected req (ValidationError ''id'' ''must be a UUID'') w1
               else if uuid_Parse rt riderID = None
               then rejected req (ValidationError ''rider_id'' ''must be a UUID'') w1
               else if TrimSpace ident = [] \<or> TrimSpace riderID = []
               then rejected req (ValidationError ''ride'' ''id and rider_id are required'') w1
               else (case request_ready rt (rq_carrier req) (post_input inb ident riderID) w1 of
                 (i, w2) \<Rightarrow> (Inr i, w2))))"

definition post_args :: "OrderRequestedInput \<Rightarrow> sql_arg list" where
  "post_args i = [AText (inp_ID i), AText (inp_RiderID i), AFloat (inp_PickupLatitude i),
     AFloat (inp_PickupLongitude i), AFloat (inp_DestinationLatitude i), AFloat (inp_DestinationLongitude i),
     AText (inp_StatusHistoryID i), AText (inp_OutboxID i), ABytes (inp_Payload i), AText (inp_EventType i)]"

definition request_answered ::
    "runtime \<Rightarrow> request \<Rightarrow> OrderRequestedInput \<Rightarrow> go_error + int \<Rightarrow> world \<Rightarrow> response \<times> world" where
  "request_answered rt req input res w =
     (case res of
        Inl err \<Rightarrow> AbortError req (Some (requested_error err)) w
      | Inr rows \<Rightarrow> (\<lparr>rs_status = 201, rs_body = OrderOutput_json (fmt_float rt) (output_of_input input)\<rparr>, w))"

lemma requested_body_stages:
  assumes "TrimSpace (inp_ID i) \<noteq> []" "TrimSpace (inp_RiderID i) \<noteq> []"
    and "request_ready rt carrier i w = (i', w2)" "execute requestedSQL (post_args i') w2 = (res, w3)"
  shows "Service_Requested rt (NewService None \<lparr>repo_Requested = Database_Requested execute, repo_Get = g\<rparr> c) carrier i w =
     (case res of Inl err \<Rightarrow> (Inl (requested_error err), w3) | Inr _ \<Rightarrow> (Inr (output_of_input i'), w3))"
proof -
  obtain h wa where a: "(if inp_StatusHistoryID i = [] then new_uuid w else (inp_StatusHistoryID i, w)) = (h, wa)"
    by fastforce
  obtain x wb where b: "(if inp_OutboxID i = [] then new_uuid wa else (inp_OutboxID i, wa)) = (x, wb)"
    by fastforce
  have r: "repo_Requested (orders_repo (NewService None \<lparr>repo_Requested = Database_Requested execute, repo_Get = g\<rparr> c)) i' w2 =
      (case res of Inl err \<Rightarrow> (Inl err, w3)
       | Inr _ \<Rightarrow> (Inr \<lparr>ord_ID = inp_ID i', ord_RiderID = inp_RiderID i',
           ord_PickupLatitude = inp_PickupLatitude i', ord_PickupLongitude = inp_PickupLongitude i',
           ord_DestinationLatitude = inp_DestinationLatitude i',
           ord_DestinationLongitude = inp_DestinationLongitude i'\<rparr>, w3))"
    using assms(4) by (simp add: NewService_def Database_Requested_def post_args_def split: sum.split)
  have i': "i' = i\<lparr>inp_StatusHistoryID := h, inp_OutboxID := x,
      inp_Payload := InjectTraceContext carrier (Marshal_requested (fmt_float rt)
        \<lparr>or_EventID = x, or_EventVersion = 1, or_OccurredAt = clock wb, or_OrderID = inp_ID i,
         or_RiderID = inp_RiderID i, or_PickupLatitude = inp_PickupLatitude i,
         or_PickupLongitude = inp_PickupLongitude i, or_DestinationLatitude = inp_DestinationLatitude i,
         or_DestinationLongitude = inp_DestinationLongitude i\<rparr>),
      inp_EventType := OrderRequested_MessageType (environ wb)\<rparr>" "w2 = wb"
    using assms(3) by (auto simp: request_ready_def Let_def a b)
  have "requested_body rt (NewService None \<lparr>repo_Requested = Database_Requested execute, repo_Get = g\<rparr> c) carrier i w =
      (case res of
         Inl err \<Rightarrow> ((case errors_As to_pg err of
             Some e \<Rightarrow> if isDuplicateOrder e then ''conflict'' else ''error'' | None \<Rightarrow> ''error'',
           Inl (requested_error err)), w3)
       | Inr _ \<Rightarrow> ((''success'', Inr (output_of_input i')), w3))"
    unfolding requested_body_def using assms(1,2) r [unfolded i']
    by (simp add: a b Let_def requested_error_def order_already_exists_def output_of_input_def
        OrderOutput_of_def i' NewService_def split: sum.split option.split)
  then show ?thesis
    by (simp add: Service_Requested_def doRequested_def NewService_def split: sum.split)
qed

lemma request_in_stages:
  "Handler_request rt bind (Service_Requested rt (NewService None \<lparr>repo_Requested = Database_Requested execute, repo_Get = g\<rparr> c)) req w =
     (case request_arrive rt bind req w of
        (Inl resp, w1) \<Rightarrow> (resp, w1)
      | (Inr i, w1) \<Rightarrow>
          (case execute requestedSQL (post_args i) w1 of (res, w2) \<Rightarrow> request_answered rt req i res w2))"
proof (cases "bind (rq_body req)")
  case (Inl msg)
  then show ?thesis by (simp add: Handler_request_def request_arrive_def)
next
  case (Inr inb)
  obtain ident riderID w1 where p: "post_ids req inb w = (ident, riderID, w1)"
    by (cases "post_ids req inb w")
  let ?svc = "Service_Requested rt (NewService None \<lparr>repo_Requested = Database_Requested execute, repo_Get = g\<rparr> c)"
  show ?thesis
  proof (cases "uuid_Parse rt ident = None \<or> uuid_Parse rt riderID = None")
    case True
    then show ?thesis using Inr p
      by (cases "req_ID inb = []"; cases "GetHeader req ''rider_id'' = []"; cases "req_RiderID inb = []")
        (auto simp: Handler_request_def request_arrive_def post_ids_def Let_def new_uuid_def)
  next
    case False
    then obtain u v where ids: "uuid_Parse rt ident = Some u" "uuid_Parse rt riderID = Some v" by auto
    have handler: "Handler_request rt bind ?svc req w =
        (case ?svc (rq_carrier req) (post_input inb ident riderID) w1 of
           (Inl err, w3) \<Rightarrow> AbortError req (Some err) w3
         | (Inr order, w3) \<Rightarrow> (\<lparr>rs_status = 201, rs_body = OrderOutput_json (fmt_float rt) order\<rparr>, w3))"
      using ids by (intro Handler_request_bound [of bind, OF Inr p]) simp_all
    show ?thesis
    proof (cases "TrimSpace ident = [] \<or> TrimSpace riderID = []")
      case True
      then have "?svc (rq_carrier req) (post_input inb ident riderID) w1
          = (Inl (HTTPErr (ValidationError ''ride'' ''id and rider_id are required'')), w1)"
        by (simp add: Service_Requested_def doRequested_def requested_body_def NewService_def post_input_def)
      then show ?thesis using handler ids True Inr p by (simp add: request_arrive_def)
    next
      case trim: False
      obtain i' w2 where i': "request_ready rt (rq_carrier req) (post_input inb ident riderID) w1 = (i', w2)"
        by fastforce
      obtain res w3 where e: "execute requestedSQL (post_args i') w2 = (res, w3)" by fastforce
      have "?svc (rq_carrier req) (post_input inb ident riderID) w1 =
          (case res of Inl err \<Rightarrow> (Inl (requested_error err), w3) | Inr _ \<Rightarrow> (Inr (output_of_input i'), w3))"
        using trim by (intro requested_body_stages [where execute = execute, OF _ _ i' e]) (simp_all add: post_input_def)
      then show ?thesis using handler ids trim Inr p i' e
        by (simp add: request_arrive_def request_answered_def split: sum.split)
    qed
  qed
qed

section \<open>Reading an order\<close>

definition get_arrive :: "runtime \<Rightarrow> request \<Rightarrow> world \<Rightarrow> (response + string) \<times> world" where
  "get_arrive rt req w =
     (if uuid_Parse rt (GetHeader req ''rider_id'') = None
      then rejected req (ValidationError ''rider_id'' ''must be a UUID'') w
      else (Inr (Param req ''orderId''), w))"

definition get_answered :: "runtime \<Rightarrow> request \<Rightarrow> go_error + OrderView \<Rightarrow> world \<Rightarrow> response \<times> world" where
  "get_answered rt req found w =
     (case found of
        Inl err \<Rightarrow> AbortError req (Some err) w
      | Inr view \<Rightarrow>
          if view_RiderID view \<noteq> GetHeader req ''rider_id''
          then AbortError req (Some (HTTPErr order_not_found)) w
          else (\<lparr>rs_status = 200, rs_body = OrderView_json (fmt_float rt) (fmt_time rt) view\<rparr>, w))"

lemma get_in_stages:
  "Handler_get rt get req w =
     (case get_arrive rt req w of
        (Inl resp, w1) \<Rightarrow> (resp, w1)
      | (Inr ident, w1) \<Rightarrow> (case get ident w1 of (found, w2) \<Rightarrow> get_answered rt req found w2))"
  by (cases "uuid_Parse rt (GetHeader req ''rider_id'')")
    (simp_all add: Handler_get_def get_arrive_def get_answered_def Let_def split: prod.split sum.split)

end
