(* ===== verification/Server.thy ===== *)
theory Server
  imports Calls "HOL-Library.Multiset"
begin

text \<open>
  The server with many HTTP calls in flight. A call moves through the stages of theory \<open>Calls\<close>; between
  two of its stages any other call may move. The database and the cache behind it are the system of
  theory \<open>Interleaving\<close>: planning and committing are two moves, a read may be answered by the cache, by
  a load that another call has started, or by the database, and it may fail.

  \<open>server_step\<close> is one event and \<open>serving\<close> are the states of all runs. The server refines the system
  below it, and \<open>srv_ok\<close> says what the replies that were sent have to do with what was committed.
\<close>

section \<open>Calls and replies\<close>

text \<open>A call that has its statement: an acceptance or a request.\<close>

datatype job = Accept request AcceptedInput | Post request OrderRequestedInput

fun job_stmt :: "job \<Rightarrow> sql" where
  "job_stmt (Accept req i) = acceptedSQL"
| "job_stmt (Post req i) = requestedSQL"

fun job_args :: "job \<Rightarrow> sql_arg list" where
  "job_args (Accept req i) = accept_args i"
| "job_args (Post req i) = post_args i"

fun job_answered :: "runtime \<Rightarrow> job \<Rightarrow> go_error + int \<Rightarrow> world \<Rightarrow> response \<times> world" where
  "job_answered rt (Accept req i) res w = accept_answered req i res w"
| "job_answered rt (Post req i) res w = request_answered rt req i res w"

datatype call =
    Checking request AcceptedInput
  | Ready job
  | Planned job delta
  | Reading request string

datatype reply =
    Rejected request response
  | Refused_reply request response
  | Job_reply job response
  | Read_reply request string response

record server =
  sys :: system
  calls :: "call list"
  sent :: "reply list"

text \<open>
  What reading an order may give. A view is in the cache, or being loaded by somebody, or the database's
  answer now; an order may be missing; the id may be malformed; and cache or database may fail with an
  error that is not a typed one.
\<close>

definition read_result :: "runtime \<Rightarrow> system \<Rightarrow> string \<Rightarrow> go_error + OrderView \<Rightarrow> bool" where
  "read_result rt s ident r \<longleftrightarrow>
     (case r of
        Inr v \<Rightarrow> map_of (cached (here s)) (view_key ident) = Some v \<or> (ident, v) \<in> set (loads s)
          \<or> (\<exists>oid. pg_uuid rt ident = Some oid \<and> select_view rt (db (here s)) oid = Some v)
      | Inl err \<Rightarrow> err = HTTPErr (ValidationError ''order_id'' ''must be a UUID'')
          \<or> err = HTTPErr order_not_found \<or> errors_As to_http err = None)"

text \<open>The errors of the database library are not the program's typed errors.\<close>

definition foreign_errors :: "runtime \<Rightarrow> bool" where
  "foreign_errors rt \<longleftrightarrow> (\<forall>e. errors_As to_http (lift_pg rt e) = None)"

lemma foreign_errors_plain [simp]: "foreign_errors plain_runtime"
  by (simp add: foreign_errors_def)

lemma read_error_foreign:
  assumes "errors_As to_http err = None" "err' = err \<or> err' = errorf (err_text err)"
  shows "errors_As to_http (if HasCode (Some err') ''ORDER_NOT_FOUND'' then HTTPErr order_not_found else err') = None
    \<or> (if HasCode (Some err') ''ORDER_NOT_FOUND'' then HTTPErr order_not_found else err') = HTTPErr order_not_found"
  using assms by auto

text \<open>A read that fails in the database is a 500, unless its text is taken for the service's own 404.\<close>

lemma lost_answer:
  assumes "foreign_errors rt" "read_error (lift_pg rt e) x"
  shows "fst (AbortError req (Some x) w) \<in>
     {\<lparr>rs_status = 404, rs_body = error_envelope ''ORDER_NOT_FOUND'' ''order not found''\<rparr>,
      \<lparr>rs_status = 500, rs_body = error_envelope ''INTERNAL_ERROR'' ''internal server error''\<rparr>}"
proof -
  have "errors_As to_http (lift_pg rt e) = None" using assms(1) by (simp add: foreign_errors_def)
  then have "errors_As to_http x = None \<or> x = HTTPErr order_not_found"
    using assms(2) read_error_foreign [of "lift_pg rt e"] unfolding read_error_def by auto
  then show ?thesis by (auto simp: AbortError_response MapError_def order_not_found_def)
qed

text \<open>The service's read gives no other results, without a cache or through any lawful one.\<close>

lemma Service_Get_read:
  assumes c: "known_cache c" and f: "foreign_errors rt"
    and g: "Service_Get rt (riderService rt t c) ident (here s) = (r, w')"
  shows "read_result rt s ident r"
proof (cases "uuid_Parse rt ident = None")
  case True
  then show ?thesis using g by (auto simp: Service_Get_def read_result_def)
next
  case False
  have load: "load_view (riderService rt t c) ident (here s) =
      (case pg_uuid rt ident of
         None \<Rightarrow> Inl (lift_pg rt invalid_text)
       | Some oid \<Rightarrow> (case lost_read rt (db (here s)) oid of
            Some e \<Rightarrow> Inl (lift_pg rt e)
          | None \<Rightarrow> (case select_view rt (db (here s)) oid of
               None \<Rightarrow> Inl (HTTPErr order_not_found) | Some v \<Rightarrow> Inr v)), here s)" for c
    using load_pg [of rt ident] by (auto simp: load_view_def Database_Get_def pg_query_view_def split: option.split)
  have e: "errors_As to_http (lift_pg rt e) = None" for e
    using f by (simp add: foreign_errors_def)
  have now: "read_result rt s ident (fst (load_view (riderService rt t c) ident (here s)))" for c
    using e by (auto simp: load read_result_def split: option.split)
  show ?thesis
  proof (cases c)
    case None
    then show ?thesis using g False now [of None] by (auto simp: Service_Get_def)
  next
    case (Some h)
    then have h: "view_cache h" using c by simp
    have g': "Service_Get rt (pg_orders.service rt (Some h)) ident (here s) = (r, w')"
      using g Some by (simp add: rider_get_tel)
    show ?thesis
    proof (rule cached_orders.service_get_cases [OF pg_behind [OF h] False g'], goal_cases)
      case (1 v e)
      then show ?thesis by (simp add: read_result_def)
    next
      case (2 v e until)
      then show ?thesis using now [of "Some h"] by (simp add: rider_load_tel)
    next
      case (3 err err' e')
      then have "err = HTTPErr order_not_found \<or> errors_As to_http err = None"
        using load [of "Some h"] e by (auto simp: rider_load_tel split: option.splits)
      then show ?thesis
        using 3(2,3) read_error_not_found read_error_foreign [of err err'] by (auto simp: read_result_def)
    qed
  qed
qed

section \<open>Moves\<close>

text \<open>
  \<open>move\<close>: a call in flight goes on. \<open>check\<close> and \<open>refuse\<close> are the early check; \<open>unheard\<close> and \<open>dropped\<close> are a
  connection that breaks after the statement was planned, with and without its commit.
\<close>

inductive move :: "runtime \<Rightarrow> server \<Rightarrow> server \<Rightarrow> bool" for rt where
  check:
    "calls s = cs @ Checking req i # cs' \<Longrightarrow> read_result rt (sys s) (acc_OrderID i) r \<Longrightarrow>
       accept_checked (rq_carrier req) i r (here (sys s)) = Inr i' \<Longrightarrow>
       move rt s (s\<lparr>calls := cs @ Ready (Accept req i') # cs'\<rparr>)"
| refuse:
    "calls s = cs @ Checking req i # cs' \<Longrightarrow> read_result rt (sys s) (acc_OrderID i) r \<Longrightarrow>
       accept_checked (rq_carrier req) i r (here (sys s)) = Inl e \<Longrightarrow>
       move rt s (s\<lparr>calls := cs @ cs',
         sent := sent s @ [Refused_reply req (fst (AbortError req (Some e) (here (sys s))))]\<rparr>)"
| plan_statement:
    "calls s = cs @ Ready j # cs' \<Longrightarrow>
       plan rt (clock (here (sys s))) (job_stmt j) (job_args j) (db (here (sys s))) = Inr d \<Longrightarrow>
       move rt s (s\<lparr>sys := (sys s)\<lparr>pending := pending (sys s) @ [d]\<rparr>, calls := cs @ Planned j d # cs'\<rparr>)"
| plan_error:
    "calls s = cs @ Ready j # cs' \<Longrightarrow>
       plan rt (clock (here (sys s))) (job_stmt j) (job_args j) (db (here (sys s))) = Inl e \<Longrightarrow>
       move rt s (s\<lparr>calls := cs @ cs',
         sent := sent s @ [Job_reply j (fst (job_answered rt j (Inl (lift_pg rt e)) (here (sys s))))]\<rparr>)"
| committed:
    "calls s = cs @ Planned j d # cs' \<Longrightarrow> pending (sys s) = ds @ d # ds' \<Longrightarrow>
       commit rt d (db (here (sys s))) = Inr t \<Longrightarrow>
       move rt s (s\<lparr>sys := (sys s)\<lparr>here := (here (sys s))\<lparr>db := t\<rparr>, pending := ds @ ds',
           answers := answers (sys s) @ [Wrote d]\<rparr>, calls := cs @ cs',
         sent := sent s @
           [Job_reply j (fst (job_answered rt j (Inr (int (length (outbox_events d)))) (here (sys s))))]\<rparr>)"
| refused:
    "calls s = cs @ Planned j d # cs' \<Longrightarrow> pending (sys s) = ds @ d # ds' \<Longrightarrow>
       commit rt d (db (here (sys s))) = Inl e \<Longrightarrow>
       move rt s (s\<lparr>sys := (sys s)\<lparr>pending := ds @ ds', answers := answers (sys s) @ [Failed d e]\<rparr>,
         calls := cs @ cs',
         sent := sent s @ [Job_reply j (fst (job_answered rt j (Inl (lift_pg rt e)) (here (sys s))))]\<rparr>)"
| unheard:
    "calls s = cs @ Planned j d # cs' \<Longrightarrow> pending (sys s) = ds @ d # ds' \<Longrightarrow>
       commit rt d (db (here (sys s))) = Inr t \<Longrightarrow> errors_As to_http err = None \<Longrightarrow>
       move rt s (s\<lparr>sys := (sys s)\<lparr>here := (here (sys s))\<lparr>db := t\<rparr>, pending := ds @ ds'\<rparr>,
         calls := cs @ cs',
         sent := sent s @ [Job_reply j (fst (job_answered rt j (Inl err) (here (sys s))))]\<rparr>)"
| dropped:
    "calls s = cs @ Planned j d # cs' \<Longrightarrow> pending (sys s) = ds @ d # ds' \<Longrightarrow>
       errors_As to_http err = None \<Longrightarrow>
       move rt s (s\<lparr>sys := (sys s)\<lparr>pending := ds @ ds'\<rparr>, calls := cs @ cs',
         sent := sent s @ [Job_reply j (fst (job_answered rt j (Inl err) (here (sys s))))]\<rparr>)"
| read_order:
    "calls s = cs @ Reading req ident # cs' \<Longrightarrow> read_result rt (sys s) ident r \<Longrightarrow>
       move rt s (s\<lparr>calls := cs @ cs',
         sent := sent s @ [Read_reply req ident (fst (get_answered rt req r (here (sys s))))]\<rparr>)"

inductive_cases moveE [consumes 1, case_names check refuse plan_statement plan_error committed refused
    unheard dropped read_order]: "move rt s s'"

text \<open>A call arrives: it is answered at once, or it is in flight.\<close>

definition admit :: "request \<Rightarrow> ('i \<Rightarrow> call) \<Rightarrow> (response + 'i) \<times> world \<Rightarrow> server \<Rightarrow> server" where
  "admit req f r s =
     (case r of
        (Inl resp, w) \<Rightarrow> s\<lparr>sys := (sys s)\<lparr>here := w\<rparr>, sent := sent s @ [Rejected req resp]\<rparr>
      | (Inr i, w) \<Rightarrow> s\<lparr>sys := (sys s)\<lparr>here := w\<rparr>, calls := calls s @ [f i]\<rparr>)"

inductive server_step :: "runtime \<Rightarrow> (string \<Rightarrow> string + requestInput) \<Rightarrow> server \<Rightarrow> server \<Rightarrow> bool"
  for rt bind where
  call_moves: "move rt s s' \<Longrightarrow> server_step rt bind s s'"
| accept_arrives:
    "server_step rt bind s (admit req (Checking req) (accept_arrive rt req (here (sys s))) s)"
| post_arrives:
    "server_step rt bind s (admit req (\<lambda>i. Ready (Post req i)) (request_arrive rt bind req (here (sys s))) s)"
| get_arrives:
    "server_step rt bind s (admit req (Reading req) (get_arrive rt req (here (sys s))) s)"
| background:
    "step rt (sys s) b \<Longrightarrow> pending b = pending (sys s) \<Longrightarrow> answers b = answers (sys s) \<Longrightarrow>
       server_step rt bind s (s\<lparr>sys := b\<rparr>)"

inductive serving :: "runtime \<Rightarrow> (string \<Rightarrow> string + requestInput) \<Rightarrow> server \<Rightarrow> bool" for rt bind where
  idle: "start_system (sys s) \<Longrightarrow> calls s = [] \<Longrightarrow> sent s = [] \<Longrightarrow> serving rt bind s"
| serve_next: "serving rt bind s \<Longrightarrow> server_step rt bind s s' \<Longrightarrow> serving rt bind s'"

section \<open>The server refines the system\<close>

lemma rejected_frame:
  assumes "rejected req e w = (r, w')"
  shows "db w' = db w \<and> cached w' = cached w"
proof -
  obtain x w1 where a: "AbortError req (Some (HTTPErr e)) w = (x, w1)" by fastforce
  then show ?thesis
    using assms AbortError_frame [of req "Some (HTTPErr e)" w, unfolded a] by (auto simp: rejected_def)
qed

lemma new_uuid_keeps: "new_uuid w = (u, w') \<Longrightarrow> db w' = db w \<and> cached w' = cached w"
  by (auto simp: new_uuid_def)

lemma arrive_frame:
  "accept_arrive rt req w = (r, w') \<Longrightarrow> db w' = db w \<and> cached w' = cached w"
  "request_arrive rt bind req w = (r2, w') \<Longrightarrow> db w' = db w \<and> cached w' = cached w"
  "get_arrive rt req w = (r3, w') \<Longrightarrow> db w' = db w \<and> cached w' = cached w"
proof -
  show "accept_arrive rt req w = (r, w') \<Longrightarrow> db w' = db w \<and> cached w' = cached w"
    by (auto simp: accept_arrive_def Let_def dest!: rejected_frame new_uuid_keeps split: prod.splits if_splits)
  show "request_arrive rt bind req w = (r2, w') \<Longrightarrow> db w' = db w \<and> cached w' = cached w"
    by (auto simp: request_arrive_def request_ready_def Let_def
        dest!: rejected_frame new_uuid_keeps post_ids_frame split: prod.splits if_splits sum.splits)
  show "get_arrive rt req w = (r3, w') \<Longrightarrow> db w' = db w \<and> cached w' = cached w"
    by (auto simp: get_arrive_def dest!: rejected_frame split: if_splits)
qed

lemma move_sys:
  assumes "move rt s s'"
  shows "sys s' = sys s \<or> step rt (sys s) (sys s')"
  using assms
proof (cases rule: moveE)
  case (plan_statement cs j cs' d)
  then show ?thesis using begin_statement [OF plan_statement(3)] by simp
next
  case (committed cs j d cs' ds ds' t)
  then show ?thesis using commit_statement [OF committed(3,4)] by simp
next
  case (refused cs j d cs' ds ds' e)
  then show ?thesis using fail_statement [OF refused(3,4)] by simp
next
  case (unheard cs j d cs' ds ds' t err)
  then show ?thesis using commit_unheard [OF unheard(3,4)] by simp
next
  case (dropped cs j d cs' ds ds' err)
  then show ?thesis using drop_statement [OF dropped(3)] by simp
qed simp_all

lemma admit_sys:
  assumes "db (snd r) = db (here (sys s)) \<and> cached (snd r) = cached (here (sys s))"
  shows "step rt (sys s) (sys (admit req f r s))"
  using assms elsewhere [of "snd r" "sys s" rt] by (auto simp: admit_def split: prod.splits sum.splits)

lemma server_step_sys:
  assumes "server_step rt bind s s'"
  shows "sys s' = sys s \<or> step rt (sys s) (sys s')"
  using assms
proof cases
  case call_moves
  then show ?thesis by (rule move_sys)
next
  case (accept_arrives req)
  then show ?thesis
    using admit_sys [of "accept_arrive rt req (here (sys s))" s rt req "Checking req"] arrive_frame(1) by (metis surjective_pairing)
next
  case (post_arrives req)
  then show ?thesis
    using admit_sys [of "request_arrive rt bind req (here (sys s))" s rt req] arrive_frame(2) by (metis surjective_pairing)
next
  case (get_arrives req)
  then show ?thesis
    using admit_sys [of "get_arrive rt req (here (sys s))" s rt req] arrive_frame(3) by (metis surjective_pairing)
next
  case (background b)
  then show ?thesis by simp
qed

lemma serving_reachable: "serving rt bind s \<Longrightarrow> reachable rt (sys s)"
proof (induction rule: serving.induct)
  case (serve_next s s')
  then show ?case using server_step_sys [OF serve_next(2)] by (metis next_state)
qed (rule start)

section \<open>What the statements of calls write\<close>

lemma accept_plan_facts:
  assumes "accepted_plan rt (accept_args i) t = Inr d"
  shows "wins oid (Wrote d) \<longleftrightarrow> outbox_events d \<noteq> [] \<and> pg_uuid rt (acc_OrderID i) = Some oid"
    and "outbox_events d \<noteq> [] \<Longrightarrow> \<exists>oid. pg_uuid rt (acc_OrderID i) = Some oid"
    and "outbox_events d \<noteq> [] \<Longrightarrow> pg_uuid rt (acc_DriverID i) = Some (delta_driver d)"
    and "\<not> makes oid (Wrote d)"
  using assms
  by (auto simp: accepted_plan_def accept_args_def wins_def makes_def delta_driver_def empty_tables_def
      split: option.splits if_splits)

lemma post_plan_facts:
  assumes "requested_plan rt now (post_args i) = Inr d"
  shows "makes oid (Wrote d) \<longleftrightarrow> pg_uuid rt (inp_ID i) = Some oid"
    and "\<exists>oid. pg_uuid rt (inp_ID i) = Some oid \<and> request_delta oid d"
    and "pg_uuid rt (inp_RiderID i) = Some (delta_rider d)"
    and "\<not> wins oid (Wrote d)"
  using assms
  by (auto simp: requested_plan_def post_args_def wins_def makes_def delta_rider_def request_delta_def
      split: option.splits)

text \<open>Only the number of affected rows makes a 201; an error never does.\<close>

lemma AbortError_foreign:
  "errors_As to_http err = None \<Longrightarrow> rs_status (fst (AbortError req (Some err) w)) = 500"
  by (simp add: AbortError_response MapError_def)

lemma foreign_error_cases:
  assumes "errors_As to_http err = None"
  shows "accepted_error err = err \<or> accepted_error err = HTTPErr order_already_accepted"
    and "requested_error err = err \<or> requested_error err = HTTPErr order_already_exists"
proof -
  have "to_http err = None"
    using assms by (cases err) simp_all
  then show "accepted_error err = err \<or> accepted_error err = HTTPErr order_already_accepted"
    by (simp add: accepted_error_def split: option.split)
  show "requested_error err = err \<or> requested_error err = HTTPErr order_already_exists"
    by (simp add: requested_error_def split: option.split)
qed

lemma job_error_status:
  assumes "errors_As to_http err = None"
  shows "rs_status (fst (job_answered rt j (Inl err) w)) \<noteq> 201"
proof (cases j)
  case (Accept req i)
  then show ?thesis
    using foreign_error_cases(1) [OF assms] AbortError_foreign [OF assms]
    by (auto simp: accept_answered_def AbortError_typed order_already_accepted_def)
next
  case (Post req i)
  then show ?thesis
    using foreign_error_cases(2) [OF assms] AbortError_foreign [OF assms]
    by (auto simp: request_answered_def AbortError_typed order_already_exists_def)
qed

lemma accept_rows_status:
  "rs_status (fst (accept_answered req i (Inr n) w)) = (if n = 0 then 409 else 201)"
  by (simp add: accept_answered_def AbortError_typed order_not_acceptable_def)

section \<open>The invariant\<close>

fun job_ok :: "job \<Rightarrow> bool" where
  "job_ok (Accept req i) \<longleftrightarrow> acc_OrderID i = Param req ''orderId'' \<and> acc_DriverID i = GetHeader req ''driver_id''"
| "job_ok (Post req i) \<longleftrightarrow> True"

fun call_ok :: "runtime \<Rightarrow> call \<Rightarrow> bool" where
  "call_ok rt (Checking req i) \<longleftrightarrow> job_ok (Accept req i)"
| "call_ok rt (Ready j) \<longleftrightarrow> job_ok j"
| "call_ok rt (Planned j d) \<longleftrightarrow> job_ok j \<and> (\<exists>now t. plan rt now (job_stmt j) (job_args j) t = Inr d)"
| "call_ok rt (Reading req ident) \<longleftrightarrow> ident = Param req ''orderId''"

fun call_deltas :: "call \<Rightarrow> delta list" where
  "call_deltas (Planned j d) = [d]"
| "call_deltas _ = []"

text \<open>A reply that gives an order to a driver, or creates one; and what a reply says is true.\<close>

fun gives :: "runtime \<Rightarrow> uuid \<Rightarrow> reply \<Rightarrow> bool" where
  "gives rt oid (Job_reply (Accept req i) resp) \<longleftrightarrow>
     rs_status resp = 201 \<and> pg_uuid rt (Param req ''orderId'') = Some oid"
| "gives rt oid _ \<longleftrightarrow> False"

fun creates :: "runtime \<Rightarrow> uuid \<Rightarrow> reply \<Rightarrow> bool" where
  "creates rt oid (Job_reply (Post req i) resp) \<longleftrightarrow> rs_status resp = 201 \<and> pg_uuid rt (inp_ID i) = Some oid"
| "creates rt oid _ \<longleftrightarrow> False"

fun reply_ok :: "runtime \<Rightarrow> system \<Rightarrow> reply \<Rightarrow> bool" where
  "reply_ok rt b (Rejected req resp) \<longleftrightarrow> True"
| "reply_ok rt b (Refused_reply req resp) \<longleftrightarrow>
     resp = \<lparr>rs_status = 409, rs_body = error_envelope ''ORDER_NOT_ACCEPTABLE''
               ''order is not in the requested state''\<rparr>
     \<and> (\<exists>oid r d. pg_uuid rt (Param req ''orderId'') = Some oid \<and> abs_tables (db (here b)) oid = Some (Taken r d))"
| "reply_ok rt b (Job_reply (Accept req i) resp) \<longleftrightarrow>
     (rs_status resp = 201 \<longrightarrow>
       (\<exists>d oid. Wrote d \<in> set (answers b) \<and> wins oid (Wrote d) \<and> pg_uuid rt (Param req ''orderId'') = Some oid
          \<and> pg_uuid rt (GetHeader req ''driver_id'') = Some (delta_driver d)))"
| "reply_ok rt b (Job_reply (Post req i) resp) \<longleftrightarrow>
     (rs_status resp = 201 \<longrightarrow>
       (\<exists>d oid. Wrote d \<in> set (answers b) \<and> request_delta oid d \<and> pg_uuid rt (inp_ID i) = Some oid
          \<and> pg_uuid rt (inp_RiderID i) = Some (delta_rider d)))"
| "reply_ok rt b (Read_reply req ident resp) \<longleftrightarrow> ident = Param req ''orderId'' \<and>
     (rs_status resp = 200 \<longrightarrow>
       (\<exists>v oid. rs_body resp = OrderView_json (fmt_float rt) (fmt_time rt) v \<and> pg_uuid rt ident = Some oid
          \<and> past_view rt (db (here b)) oid v \<and> view_RiderID v = GetHeader req ''rider_id''))"

definition srv_ok :: "runtime \<Rightarrow> server \<Rightarrow> bool" where
  "srv_ok rt s \<longleftrightarrow> mset (concat (map call_deltas (calls s))) = mset (pending (sys s))
     \<and> (\<forall>c \<in> set (calls s). call_ok rt c)
     \<and> (\<forall>r \<in> set (sent s). reply_ok rt (sys s) r)
     \<and> (\<forall>oid. length (filter (gives rt oid) (sent s)) \<le> length (filter (wins oid) (answers (sys s))))
     \<and> (\<forall>oid. length (filter (creates rt oid) (sent s)) \<le> length (filter (makes oid) (answers (sys s))))"

lemma reply_ok_mono:
  assumes "reply_ok rt b r" "extends (db (here b)) (db (here b'))" "set (answers b) \<subseteq> set (answers b')"
  shows "reply_ok rt b' r"
  using assms past_view_extends [OF _ assms(2)] abs_tables_extends [OF assms(2)]
  by (cases "(rt, b, r)" rule: reply_ok.cases) (fastforce+)

text \<open>One event: the calls change, some replies are sent and the system below has answered them.\<close>

lemma srv_ok_event:
  assumes s: "srv_ok rt s"
    and b: "extends (db (here (sys s))) (db (here (sys s')))" "answers (sys s') = answers (sys s) @ as"
    and c: "mset (concat (map call_deltas (calls s'))) = mset (pending (sys s'))"
      "\<forall>c \<in> set (calls s'). call_ok rt c"
    and r: "sent s' = sent s @ rs" "\<forall>r \<in> set rs. reply_ok rt (sys s') r"
      "\<And>oid. length (filter (gives rt oid) rs) \<le> length (filter (wins oid) as)"
      "\<And>oid. length (filter (creates rt oid) rs) \<le> length (filter (makes oid) as)"
  shows "srv_ok rt s'"
proof -
  have "reply_ok rt (sys s') r" if "r \<in> set (sent s)" for r
    using s that b reply_ok_mono [of rt "sys s" r "sys s'"] by (auto simp: srv_ok_def)
  moreover have "length (filter (gives rt oid) (sent s')) \<le> length (filter (wins oid) (answers (sys s')))"
    "length (filter (creates rt oid) (sent s')) \<le> length (filter (makes oid) (answers (sys s')))" for oid
    using s r(3,4) [of oid] by (simp_all add: srv_ok_def r(1) b(2) add_mono)
  ultimately show ?thesis
    using c r(1,2) by (auto simp: srv_ok_def)
qed

lemma plan_job_facts:
  assumes "job_ok j" "plan rt now (job_stmt j) (job_args j) t = Inr d"
  shows "length (filter (gives rt oid) [Job_reply j (fst (job_answered rt j (Inr (int (length (outbox_events d)))) w))])
      \<le> length (filter (wins oid) [Wrote d])"
    and "length (filter (creates rt oid) [Job_reply j (fst (job_answered rt j (Inr (int (length (outbox_events d)))) w))])
      \<le> length (filter (makes oid) [Wrote d])"
    and "Wrote d \<in> set (answers b) \<Longrightarrow>
      reply_ok rt b (Job_reply j (fst (job_answered rt j (Inr (int (length (outbox_events d)))) w)))"
proof -
  show "length (filter (gives rt oid) [Job_reply j (fst (job_answered rt j (Inr (int (length (outbox_events d)))) w))])
      \<le> length (filter (wins oid) [Wrote d])"
    using assms accept_plan_facts(1) [of rt _ t d oid]
    by (cases j) (auto simp: plan_def accept_rows_status)
  show "length (filter (creates rt oid) [Job_reply j (fst (job_answered rt j (Inr (int (length (outbox_events d)))) w))])
      \<le> length (filter (makes oid) [Wrote d])"
    using assms post_plan_facts(1) [of rt now _ d oid] by (cases j) (auto simp: plan_def)
  assume w: "Wrote d \<in> set (answers b)"
  show "reply_ok rt b (Job_reply j (fst (job_answered rt j (Inr (int (length (outbox_events d)))) w)))"
  proof (cases j)
    case (Accept req i)
    then have p: "accepted_plan rt (accept_args i) t = Inr d"
      using assms(2) by (simp add: plan_def)
    show ?thesis
      using Accept assms(1) w accept_plan_facts [OF p] by (auto simp: accept_rows_status)
  next
    case (Post req i)
    then have "requested_plan rt now (post_args i) = Inr d"
      using assms(2) by (simp add: plan_def)
    then show ?thesis
      using Post w post_plan_facts(2,3) by fastforce
  qed
qed

lemma error_reply:
  assumes "errors_As to_http err = None"
  shows "\<not> gives rt oid (Job_reply j (fst (job_answered rt j (Inl err) w)))"
    and "\<not> creates rt oid (Job_reply j (fst (job_answered rt j (Inl err) w)))"
    and "reply_ok rt b (Job_reply j (fst (job_answered rt j (Inl err) w)))"
  using job_error_status [OF assms, of rt j w] by (cases j; simp)+

lemma read_result_past:
  assumes "sys_ok rt b" "read_result rt b ident (Inr v)"
  shows "\<exists>oid. pg_uuid rt ident = Some oid \<and> past_view rt (db (here b)) oid v"
proof -
  have ok: "tables_ok (db (here b))" "cache_sound rt (here b)"
    "\<forall>(ident, v) \<in> set (loads b). \<exists>oid. pg_uuid rt ident = Some oid \<and> past_view rt (db (here b)) oid v"
    using assms(1) by (simp_all add: sys_ok_def)
  from assms(2) consider "map_of (cached (here b)) (view_key ident) = Some v" | "(ident, v) \<in> set (loads b)"
    | oid where "pg_uuid rt ident = Some oid" "select_view rt (db (here b)) oid = Some v"
    by (auto simp: read_result_def)
  then show ?thesis
  proof cases
    case 1
    then show ?thesis using ok(2) by (auto simp: cache_sound_def)
  next
    case 2
    then show ?thesis using ok(3) by blast
  next
    case 3
    then show ?thesis using past_view_now [OF ok(1)] by blast
  qed
qed

lemma read_reply:
  assumes "sys_ok rt b" "read_result rt b (Param req ''orderId'') r"
  shows "reply_ok rt b (Read_reply req (Param req ''orderId'') (fst (get_answered rt req r w)))"
proof (cases r)
  case (Inl err)
  then have "err = HTTPErr (ValidationError ''order_id'' ''must be a UUID'')
      \<or> err = HTTPErr order_not_found \<or> errors_As to_http err = None"
    using assms(2) by (simp add: read_result_def)
  then show ?thesis
    using Inl AbortError_foreign [of err req w]
    by (auto simp: get_answered_def AbortError_typed ValidationError_def order_not_found_def)
next
  case (Inr v)
  then obtain oid where "pg_uuid rt (Param req ''orderId'') = Some oid" "past_view rt (db (here b)) oid v"
    using read_result_past assms by blast
  then show ?thesis
    using Inr by (auto simp: get_answered_def AbortError_typed order_not_found_def)
qed

lemma refuse_reply:
  assumes "runtime_ok rt" "sys_ok rt b" "read_result rt b (acc_OrderID i) r"
    and "accept_checked carrier i r w0 = Inl e" "acc_OrderID i = Param req ''orderId''"
  shows "reply_ok rt b (Refused_reply req (fst (AbortError req (Some e) w)))"
proof -
  obtain v where v: "r = Inr v" "view_Status v \<noteq> ''requested''" "e = HTTPErr order_not_acceptable"
    using assms(4) by (auto simp: accept_checked_def split: sum.splits if_splits)
  obtain oid where oid: "pg_uuid rt (acc_OrderID i) = Some oid" "past_view rt (db (here b)) oid v"
    using read_result_past [OF assms(2)] assms(3) v(1) by blast
  moreover have "tables_ok (db (here b))" using assms(2) by (simp add: sys_ok_def)
  ultimately have "\<exists>r d. abs_tables (db (here b)) oid = Some (Taken r d)"
    using past_view_not_requested(3) [OF assms(1) _ _ v(2)] by blast
  then show ?thesis
    using oid(1) assms(5) v(3) by (simp add: AbortError_response MapError_def order_not_acceptable_def)
qed

lemma move_srv_ok:
  assumes rt: "runtime_ok rt" "foreign_errors rt" and b: "sys_ok rt (sys s)" and s: "srv_ok rt s"
    and m: "move rt s s'"
  shows "srv_ok rt s'"
proof -
  have calls: "mset (concat (map call_deltas (calls s))) = mset (pending (sys s))" "\<forall>c \<in> set (calls s). call_ok rt c"
    using s by (simp_all add: srv_ok_def)
  have ex: "extends (db (here (sys s))) (db (here (sys s')))"
    using move_sys [OF m] step_extends [OF rt(1) b] by auto
  note event = srv_ok_event [OF s ex]
  have foreign: "errors_As to_http (lift_pg rt e) = None" for e
    using rt(2) by (simp add: foreign_errors_def)
  from m show ?thesis
  proof (cases rule: moveE)
    case (check cs req i cs' r i')
    then have "job_ok (Accept req i')"
      using calls(2) by (auto simp: accept_checked_def split: if_splits)
    then show ?thesis
      using check calls by (intro event [of "[]" "[]"]) auto
  next
    case (refuse cs req i cs' r e)
    then have "acc_OrderID i = Param req ''orderId''" using calls(2) by simp
    then have "reply_ok rt (sys s) (Refused_reply req (fst (AbortError req (Some e) (here (sys s)))))"
      using refuse_reply [OF rt(1) b] refuse(3,4) by simp
    then show ?thesis
      using refuse calls
      by (intro event [of "[]" "[Refused_reply req (fst (AbortError req (Some e) (here (sys s))))]"]) auto
  next
    case (plan_statement cs j cs' d)
    then show ?thesis
      using calls by (intro event [of "[]" "[]"]) auto
  next
    case (plan_error cs j cs' e)
    then show ?thesis
      using calls error_reply [OF foreign]
      by (intro event [of "[]" "[Job_reply j (fst (job_answered rt j (Inl (lift_pg rt e)) (here (sys s))))]"]) auto
  next
    case (committed cs j d cs' ds ds' t)
    then have j: "job_ok j" "\<exists>now t0. plan rt now (job_stmt j) (job_args j) t0 = Inr d"
      using calls(2) by auto
    then obtain now t0 where p: "plan rt now (job_stmt j) (job_args j) t0 = Inr d" by blast
    show ?thesis
      using committed calls plan_job_facts [OF j(1) p]
      by (intro event [of "[Wrote d]" "[Job_reply j (fst (job_answered rt j
            (Inr (int (length (outbox_events d)))) (here (sys s))))]"]) auto
  next
    case (refused cs j d cs' ds ds' e)
    then show ?thesis
      using calls error_reply [OF foreign]
      by (intro event [of "[Failed d e]" "[Job_reply j (fst (job_answered rt j (Inl (lift_pg rt e)) (here (sys s))))]"]) auto
  next
    case (unheard cs j d cs' ds ds' t err)
    then show ?thesis
      using calls error_reply [OF unheard(5)]
      by (intro event [of "[]" "[Job_reply j (fst (job_answered rt j (Inl err) (here (sys s))))]"]) auto
  next
    case (dropped cs j d cs' ds ds' err)
    then show ?thesis
      using calls error_reply [OF dropped(4)]
      by (intro event [of "[]" "[Job_reply j (fst (job_answered rt j (Inl err) (here (sys s))))]"]) auto
  next
    case (read_order cs req ident cs' r)
    then have "ident = Param req ''orderId''"
      using calls(2) by simp
    then show ?thesis
      using read_order calls read_reply [OF b, of req r]
      by (intro event [of "[]" "[Read_reply req ident (fst (get_answered rt req r (here (sys s))))]"]) auto
  qed
qed

lemma admit_srv_ok:
  assumes s: "srv_ok rt s" and r: "db (snd r) = db (here (sys s)) \<and> cached (snd r) = cached (here (sys s))"
    and f: "\<And>i w. r = (Inr i, w) \<Longrightarrow> call_ok rt (f i) \<and> call_deltas (f i) = []"
  shows "srv_ok rt (admit req f r s)"
proof -
  have calls: "mset (concat (map call_deltas (calls s))) = mset (pending (sys s))" "\<forall>c \<in> set (calls s). call_ok rt c"
    using s by (simp_all add: srv_ok_def)
  obtain x w where x: "r = (x, w)" by fastforce
  show ?thesis
  proof (cases x)
    case (Inl resp)
    then show ?thesis
      using calls r x by (intro srv_ok_event [OF s, of _ "[]" "[Rejected req resp]"]) (auto simp: admit_def)
  next
    case (Inr i)
    then show ?thesis
      using calls r x f by (intro srv_ok_event [OF s, of _ "[]" "[]"]) (auto simp: admit_def)
  qed
qed

lemma arrive_calls_ok:
  "accept_arrive rt req w = (Inr i, w1) \<Longrightarrow> call_ok rt (Checking req i)"
  "get_arrive rt req w = (Inr ident, w1) \<Longrightarrow> call_ok rt (Reading req ident)"
  by (auto simp: accept_arrive_def get_arrive_def rejected_def Let_def split: if_splits prod.splits)

lemma server_step_ok:
  assumes rt: "runtime_ok rt" "foreign_errors rt" and b: "sys_ok rt (sys s)" and s: "srv_ok rt s"
    and m: "server_step rt bind s s'"
  shows "srv_ok rt s'"
  using m
proof cases
  case call_moves
  then show ?thesis by (rule move_srv_ok [OF rt b s])
next
  case (accept_arrives req)
  then show ?thesis
    using arrive_frame(1) [OF surjective_pairing] arrive_calls_ok(1)
    by (auto intro!: admit_srv_ok [OF s])
next
  case (post_arrives req)
  then show ?thesis
    using arrive_frame(2) [OF surjective_pairing] by (auto intro!: admit_srv_ok [OF s])
next
  case (get_arrives req)
  then show ?thesis
    using arrive_frame(3) [OF surjective_pairing] arrive_calls_ok(2)
    by (auto intro!: admit_srv_ok [OF s])
next
  case (background b')
  have "mset (concat (map call_deltas (calls s))) = mset (pending (sys s))" "\<forall>c \<in> set (calls s). call_ok rt c"
    using s by (simp_all add: srv_ok_def)
  then show ?thesis
    using background step_extends [OF rt(1) b background(2)]
    by (intro srv_ok_event [OF s, of _ "[]" "[]"]) auto
qed

lemma serving_ok:
  assumes "serving rt bind s" "runtime_ok rt" "foreign_errors rt"
  shows "sys_ok rt (sys s)" and "srv_ok rt s"
proof -
  show "sys_ok rt (sys s)"
    using reachable_ok [OF serving_reachable] assms(1,2) by blast
  show "srv_ok rt s"
    using assms
  proof (induction rule: serving.induct)
    case (idle s)
    then show ?case by (simp add: srv_ok_def start_system_def)
  next
    case (serve_next s s')
    have "sys_ok rt (sys s)"
      using reachable_ok [OF serving_reachable [OF serve_next(1)]] assms(2) by blast
    then show ?case using server_step_ok serve_next by blast
  qed
qed

lemma wins_once:
  assumes "sys_ok rt b"
  shows "length (filter (wins oid) (answers b)) \<le> 1" "length (filter (makes oid) (answers b)) \<le> 1"
    and "Wrote d \<in> set (answers b) \<Longrightarrow> wins oid (Wrote d) \<Longrightarrow>
      \<exists>r. abs_tables (db (here b)) oid = Some (Taken r (delta_driver d))"
    and "Wrote d \<in> set (answers b) \<Longrightarrow> request_delta oid d \<Longrightarrow>
      \<exists>rd. abs_tables (db (here b)) oid = Some rd \<and> rider rd = delta_rider d"
proof -
  have t: "tables_ok (db (here b))" and n: "length (filter (wins oid) (answers b)) \<le> n_acceptances (db (here b)) oid"
    "length (filter (makes oid) (answers b)) \<le> n_orders (db (here b)) oid"
    and a: "\<forall>x \<in> set (answers b). answer_true (db (here b)) x"
    using assms by (simp_all add: sys_ok_def)
  have "n_acceptances (db (here b)) oid \<le> 1" "n_orders (db (here b)) oid \<le> 1"
    using t by (cases rule: order_ok_cases [of "db (here b)" oid]; simp)+
  with n show "length (filter (wins oid) (answers b)) \<le> 1" "length (filter (makes oid) (answers b)) \<le> 1"
    by linarith+
  show "Wrote d \<in> set (answers b) \<Longrightarrow> wins oid (Wrote d) \<Longrightarrow>
      \<exists>r. abs_tables (db (here b)) oid = Some (Taken r (delta_driver d))"
    "Wrote d \<in> set (answers b) \<Longrightarrow> request_delta oid d \<Longrightarrow>
      \<exists>rd. abs_tables (db (here b)) oid = Some rd \<and> rider rd = delta_rider d"
    using a by (force simp: answer_true_def)+
qed

text \<open>A planned acceptance that the constraints refuse is one that has rows.\<close>

lemma planned_accept_delta:
  assumes ok: "sys_ok rt (sys s)" "srv_ok rt s" and rf: "\<And>t d. refuse rt t d = None"
    and c: "Planned (Accept req i) d \<in> set (calls s)" "commit rt d (db (here (sys s))) = Inl e"
  obtains oid where "accept_delta oid d" "pg_uuid rt (Param req ''orderId'') = Some oid"
    "hist (db (here (sys s))) oid \<noteq> []"
proof -
  obtain t where j: "acc_OrderID i = Param req ''orderId''" "accepted_plan rt (accept_args i) t = Inr d"
    using ok(2) c(1) by (fastforce simp: srv_ok_def plan_def)
  have "set_mset (mset (concat (map call_deltas (calls s)))) = set_mset (mset (pending (sys s)))"
    using ok(2) by (simp add: srv_ok_def)
  moreover have "d \<in> set (concat (map call_deltas (calls s)))" using c(1) by force
  ultimately have "d \<in> set (pending (sys s))" by simp
  then have w: "wf_delta (db (here (sys s))) d" using ok(1) by (simp add: sys_ok_def)
  have "d \<noteq> empty_tables" using c(2) rf by (auto simp: commit_def split: if_splits)
  moreover have "\<not> request_delta oid d" for oid
    using accept_plan_facts(4) [OF j(2), of oid] makes_Wrote [of oid d] request_delta_counts [of oid d oid]
    by (auto simp: row_counts_def)
  ultimately obtain oid where oid: "accept_delta oid d" "hist (db (here (sys s))) oid \<noteq> []"
    using w by (auto simp: wf_delta_def)
  then have "wins oid (Wrote d)" using wins_accept [OF w] by simp
  then show thesis
    using that oid j(1) accept_plan_facts(1) [OF j(2)] by simp
qed

end
