(* ===== verification/Progress.thy ===== *)
theory Progress
  imports Server
begin

text \<open>
  What the server gets done. Every call in flight can move on and has at most three moves left, so the
  calls end whatever they meet, each with one of the \<open>documented\<close> answers; and every run of a call while the
  others rest (\<open>within\<close>, \<open>solo\<close>) succeeds where it may: a new order is created, a waiting order is given to the
  driver who asks. Such a run is that of the handler (\<open>served_as\<close>).
\<close>

section \<open>Every call ends\<close>

text \<open>The moves a call has left at most.\<close>

fun weight :: "call \<Rightarrow> nat" where
  "weight (Checking req i) = 3"
| "weight (Ready j) = 2"
| "weight (Planned j d) = 1"
| "weight (Reading req ident) = 1"

definition work :: "server \<Rightarrow> nat" where
  "work s = sum_list (map weight (calls s))"

lemma move_work:
  assumes "move rt s s'"
  shows "Suc (work s') \<le> work s" and "length (sent s') + length (calls s') = length (sent s) + length (calls s)"
  using assms by (cases rule: moveE; simp add: work_def)+

lemma moves_work:
  "(move rt ^^ n) s s' \<Longrightarrow> n + work s' \<le> work s
     \<and> length (sent s') + length (calls s') = length (sent s) + length (calls s)"
proof (induction n arbitrary: s')
  case (Suc n)
  then obtain s1 where "(move rt ^^ n) s s1" "move rt s1 s'" by auto
  then show ?case using Suc.IH [of s1] move_work [of rt s1 s'] by auto
qed simp

lemma work_bound: "work s \<le> 3 * length (calls s)"
proof -
  have "weight c \<le> 3" for c by (cases c) simp_all
  then have "sum_list (map weight cs) \<le> 3 * length cs" for cs
    by (induction cs) (auto intro: add_mono)
  then show ?thesis by (simp add: work_def)
qed

lemma moves_srv_ok:
  assumes rt: "runtime_ok rt" "foreign_errors rt" and s: "sys_ok rt (sys s)" "srv_ok rt s"
  shows "(move rt ^^ n) s s' \<Longrightarrow> sys_ok rt (sys s') \<and> srv_ok rt s'"
proof (induction n arbitrary: s')
  case (Suc n)
  then obtain s1 where s1: "(move rt ^^ n) s s1" "move rt s1 s'" by auto
  have ok: "sys_ok rt (sys s1)" "srv_ok rt s1"
    using Suc.IH [OF s1(1)] by simp_all
  then show ?case
    using move_srv_ok [OF rt ok s1(2)] move_sys [OF s1(2)] step_ok [OF rt(1) ok(1)] by metis
qed (use s in simp)

lemma some_move:
  assumes "srv_ok rt s" "calls s \<noteq> []"
  shows "\<exists>s'. move rt s s'"
proof -
  obtain c cs where c: "calls s = [] @ c # cs"
    using assms(2) by (cases "calls s") auto
  have failing: "read_result rt (sys s) ident (Inl (errorf ''timeout''))" for ident
    by (simp add: read_result_def)
  show ?thesis
  proof (cases c)
    case (Checking req i)
    then show ?thesis
      using check [of s "[]", OF _ failing] c by (fastforce simp: accept_checked_def)
  next
    case (Ready j)
    then show ?thesis
      using plan_statement [of s "[]" j cs rt] plan_error [of s "[]" j cs rt] c
      by (cases "plan rt (clock (here (sys s))) (job_stmt j) (job_args j) (db (here (sys s)))") auto
  next
    case (Planned j d)
    then have "mset (pending (sys s)) = mset (d # concat (map call_deltas cs))"
      using assms(1) c by (simp add: srv_ok_def)
    then have "d \<in> set (pending (sys s))"
      by (metis list.set_intros(1) set_mset_mset)
    then obtain ds ds' where "pending (sys s) = ds @ d # ds'"
      by (metis split_list)
    then show ?thesis
      using committed [of s "[]" j d cs ds ds' rt] refused [of s "[]" j d cs ds ds' rt] c Planned
      by (cases "commit rt d (db (here (sys s)))") auto
  next
    case (Reading req ident)
    then show ?thesis
      using read_order [of s "[]", OF _ failing] c by fastforce
  qed
qed

lemma moves_end:
  assumes "runtime_ok rt" "foreign_errors rt" "sys_ok rt (sys s)" "srv_ok rt s"
  shows "\<exists>n s'. (move rt ^^ n) s s' \<and> calls s' = []"
  using assms
proof (induction "work s" arbitrary: s rule: less_induct)
  case less
  show ?case
  proof (cases "calls s = []")
    case True
    then show ?thesis by (metis relpowp_0_I)
  next
    case False
    then obtain s1 where m: "move rt s s1"
      using some_move less.prems(4) by blast
    have b: "sys_ok rt (sys s1)"
      using move_sys [OF m] step_ok [OF less.prems(1,3)] less.prems(3) by metis
    have "work s1 < work s" using move_work(1) [OF m] by simp
    from less.hyps [OF this less.prems(1,2) b move_srv_ok [OF less.prems m]]
    obtain n s' where "(move rt ^^ n) s1 s'" "calls s' = []" by blast
    then show ?thesis using m by (metis relpowp_Suc_I2)
  qed
qed

section \<open>What is answered\<close>

text \<open>The answers of the API, by the kind of the call.\<close>

fun documented :: "runtime \<Rightarrow> reply \<Rightarrow> bool" where
  "documented rt (Rejected req resp) \<longleftrightarrow>
     (\<exists>f m. resp = \<lparr>rs_status = 400, rs_body = error_envelope ''VALIDATION_ERROR'' (''field '' @ Quote f @ '' '' @ m)\<rparr>)"
| "documented rt (Refused_reply req resp) \<longleftrightarrow>
     resp = \<lparr>rs_status = 409, rs_body = error_envelope ''ORDER_NOT_ACCEPTABLE'' ''order is not in the requested state''\<rparr>"
| "documented rt (Job_reply (Accept req i) resp) \<longleftrightarrow> resp \<in>
     {\<lparr>rs_status = 201, rs_body = DriverOrderOutput_json \<lparr>dout_ID = Param req ''orderId''\<rparr>\<rparr>,
      \<lparr>rs_status = 409, rs_body = error_envelope ''ORDER_NOT_ACCEPTABLE'' ''order is not in the requested state''\<rparr>,
      \<lparr>rs_status = 409, rs_body = error_envelope ''ORDER_ALREADY_ACCEPTED'' ''order has already been accepted''\<rparr>,
      \<lparr>rs_status = 500, rs_body = error_envelope ''INTERNAL_ERROR'' ''internal server error''\<rparr>}"
| "documented rt (Job_reply (Post req i) resp) \<longleftrightarrow> resp \<in>
     {\<lparr>rs_status = 201, rs_body = OrderOutput_json (fmt_float rt) (output_of_input i)\<rparr>,
      \<lparr>rs_status = 409, rs_body = error_envelope ''ORDER_ALREADY_EXISTS'' ''an order with this id already exists''\<rparr>,
      \<lparr>rs_status = 500, rs_body = error_envelope ''INTERNAL_ERROR'' ''internal server error''\<rparr>}"
| "documented rt (Read_reply req ident resp) \<longleftrightarrow>
     (\<exists>v. resp = \<lparr>rs_status = 200, rs_body = OrderView_json (fmt_float rt) (fmt_time rt) v\<rparr>
        \<and> view_RiderID v = GetHeader req ''rider_id'')
     \<or> resp \<in>
      {\<lparr>rs_status = 400, rs_body = error_envelope ''VALIDATION_ERROR''
          (''field '' @ Quote ''order_id'' @ '' must be a UUID'')\<rparr>,
       \<lparr>rs_status = 404, rs_body = error_envelope ''ORDER_NOT_FOUND'' ''order not found''\<rparr>,
       \<lparr>rs_status = 500, rs_body = error_envelope ''INTERNAL_ERROR'' ''internal server error''\<rparr>}"

lemma AbortError_internal:
  "errors_As to_http err = None \<Longrightarrow> fst (AbortError req (Some err) w) =
     \<lparr>rs_status = 500, rs_body = error_envelope ''INTERNAL_ERROR'' ''internal server error''\<rparr>"
  by (simp add: AbortError_response MapError_def)

lemma rejected_documented:
  "rejected req (ValidationError f m) w = (Inl resp, w') \<Longrightarrow> documented rt (Rejected req resp)"
  by (auto simp: rejected_def AbortError_def ValidationError_def Let_def split: prod.splits)

lemma arrive_documented:
  "accept_arrive rt req w = (Inl resp, w') \<Longrightarrow> documented rt (Rejected req resp)"
  "request_arrive rt bind req w = (Inl resp, w') \<Longrightarrow> documented rt (Rejected req resp)"
  "get_arrive rt req w = (Inl resp, w') \<Longrightarrow> documented rt (Rejected req resp)"
  using rejected_documented
  by (auto simp: accept_arrive_def request_arrive_def get_arrive_def Let_def simp del: documented.simps
      split: prod.splits if_splits sum.splits)

lemma job_error_documented:
  assumes "errors_As to_http err = None"
  shows "documented rt (Job_reply j (fst (job_answered rt j (Inl err) w)))"
proof (cases j)
  case (Accept req i)
  then show ?thesis
    using foreign_error_cases(1) [OF assms] AbortError_internal [OF assms]
    by (auto simp: accept_answered_def AbortError_typed order_already_accepted_def)
next
  case (Post req i)
  then show ?thesis
    using foreign_error_cases(2) [OF assms] AbortError_internal [OF assms]
    by (auto simp: request_answered_def AbortError_typed order_already_exists_def)
qed

lemma job_rows_documented:
  "job_ok j \<Longrightarrow> documented rt (Job_reply j (fst (job_answered rt j (Inr n) w)))"
  by (cases j) (simp_all add: accept_answered_def request_answered_def AbortError_typed order_not_acceptable_def)

lemma read_documented:
  assumes "read_result rt b ident r"
  shows "documented rt (Read_reply req ident (fst (get_answered rt req r w)))"
proof (cases r)
  case (Inl err)
  then show ?thesis
    using assms AbortError_internal [of err req w]
    by (auto simp: read_result_def get_answered_def AbortError_typed ValidationError_def order_not_found_def)
next
  case (Inr v)
  then show ?thesis by (auto simp: get_answered_def AbortError_typed order_not_found_def)
qed

lemma move_documented:
  assumes "foreign_errors rt" "srv_ok rt s" "move rt s s'" "\<forall>r \<in> set (sent s). documented rt r"
  shows "\<forall>r \<in> set (sent s'). documented rt r"
proof -
  have ok: "call_ok rt c" if "c \<in> set (calls s)" for c
    using assms(2) that by (simp add: srv_ok_def)
  have foreign: "errors_As to_http (lift_pg rt e) = None" for e
    using assms(1) by (simp add: foreign_errors_def)
  from assms(3) show ?thesis
  proof (cases rule: moveE)
    case (refuse cs req i cs' r e)
    then have "documented rt (Refused_reply req (fst (AbortError req (Some e) (here (sys s)))))"
      by (auto simp: accept_checked_def AbortError_typed order_not_acceptable_def split: if_splits)
    then show ?thesis using refuse(1) assms(4) by (simp del: documented.simps)
  next
    case (plan_error cs j cs' e)
    then show ?thesis using assms(4) job_error_documented [OF foreign] by (simp del: documented.simps)
  next
    case (committed cs j d cs' ds ds' t)
    then have "job_ok j" using ok [of "Planned j d"] by simp
    then show ?thesis using committed(1) assms(4) job_rows_documented by (simp del: documented.simps)
  next
    case (refused cs j d cs' ds ds' e)
    then show ?thesis using assms(4) job_error_documented [OF foreign] by (simp del: documented.simps)
  next
    case (unheard cs j d cs' ds ds' t err)
    then show ?thesis using assms(4) job_error_documented by (simp del: documented.simps)
  next
    case (dropped cs j d cs' ds ds' err)
    then show ?thesis using assms(4) job_error_documented by (simp del: documented.simps)
  next
    case (read_order cs req ident cs' r)
    then show ?thesis using assms(4) read_documented by (simp del: documented.simps)
  qed (use assms(4) in simp_all)
qed

lemma admit_sent:
  "(\<forall>r \<in> set (sent s). documented rt r) \<Longrightarrow>
    (\<And>resp w. a = (Inl resp, w) \<Longrightarrow> documented rt (Rejected req resp)) \<Longrightarrow>
    \<forall>r \<in> set (sent (admit req f a s)). documented rt r"
  by (auto simp: admit_def simp del: documented.simps split: prod.split sum.split)

lemma serving_documented:
  assumes "serving rt bind s" "runtime_ok rt" "foreign_errors rt"
  shows "\<forall>r \<in> set (sent s). documented rt r"
  using assms(1)
proof (induction rule: serving.induct)
  case (serve_next s s')
  from serve_next(2) show ?case
  proof cases
    case call_moves
    then show ?thesis
      using move_documented [OF assms(3) serving_ok(2) [OF serve_next(1) assms(2,3)]] serve_next.IH by blast
  next
    case (accept_arrives req)
    then show ?thesis using admit_sent [OF serve_next.IH] arrive_documented(1) by blast
  next
    case (post_arrives req)
    then show ?thesis using admit_sent [OF serve_next.IH] arrive_documented(2) by blast
  next
    case (get_arrives req)
    then show ?thesis using admit_sent [OF serve_next.IH] arrive_documented(3) by blast
  next
    case (background b)
    then show ?thesis using serve_next.IH by simp
  qed
qed simp

text \<open>Whose call, and whose reply.\<close>

fun job_request :: "job \<Rightarrow> request" where
  "job_request (Accept req i) = req"
| "job_request (Post req i) = req"

fun call_request :: "call \<Rightarrow> request" where
  "call_request (Checking req i) = req"
| "call_request (Ready j) = job_request j"
| "call_request (Planned j d) = job_request j"
| "call_request (Reading req ident) = req"

fun reply_request :: "reply \<Rightarrow> request" where
  "reply_request (Rejected req resp) = req"
| "reply_request (Refused_reply req resp) = req"
| "reply_request (Job_reply j resp) = job_request j"
| "reply_request (Read_reply req ident resp) = req"

lemma moves_requests:
  "(move rt ^^ n) s s' \<Longrightarrow> mset (map reply_request (sent s') @ map call_request (calls s'))
     = mset (map reply_request (sent s) @ map call_request (calls s))"
proof (induction n arbitrary: s')
  case (Suc n)
  then obtain s1 where s1: "(move rt ^^ n) s s1" "move rt s1 s'" by auto
  from s1(2) have "mset (map reply_request (sent s') @ map call_request (calls s'))
     = mset (map reply_request (sent s1) @ map call_request (calls s1))"
    by (cases rule: moveE) simp_all
  then show ?case using Suc.IH [OF s1(1)] by simp
qed simp

section \<open>A call that runs alone\<close>

text \<open>
  \<open>within k st P s\<close>: every run of \<open>st\<close> from \<open>s\<close> comes to a state with \<open>P\<close> in at most \<open>k\<close> steps, and is stuck
  nowhere before.
\<close>

fun within :: "nat \<Rightarrow> ('s \<Rightarrow> 's \<Rightarrow> bool) \<Rightarrow> ('s \<Rightarrow> bool) \<Rightarrow> 's \<Rightarrow> bool" where
  "within 0 st P s \<longleftrightarrow> P s"
| "within (Suc k) st P s \<longleftrightarrow> P s \<or> (\<exists>s'. st s s') \<and> (\<forall>s'. st s s' \<longrightarrow> within k st P s')"

lemma within_now: "P s \<Longrightarrow> within k st P s"
  by (cases k) simp_all

lemma within_weaken: "within k st P s \<Longrightarrow> (\<And>s. P s \<Longrightarrow> Q s) \<Longrightarrow> within k st Q s"
  by (induction k arbitrary: s) auto

lemma within_run: "within k st P s \<Longrightarrow> \<exists>n s'. n \<le> k \<and> (st ^^ n) s s' \<and> P s'"
proof (induction k arbitrary: s)
  case 0
  then show ?case by (intro exI [of _ 0]) auto
next
  case (Suc k)
  show ?case
  proof (cases "P s")
    case True
    then show ?thesis by (intro exI [of _ 0]) auto
  next
    case False
    then obtain s1 where s1: "st s s1" "within k st P s1" using Suc.prems by auto
    obtain n s' where "n \<le> k" "(st ^^ n) s1 s'" "P s'" using Suc.IH [OF s1(2)] by blast
    then show ?thesis using s1(1) by (intro exI [of _ "Suc n"] exI [of _ s']) (use relpowp_Suc_I2 in fastforce)
  qed
qed

text \<open>
  \<open>solo rt cs\<close>: the moves of the one call that is in flight besides \<open>cs\<close>, while the connection to the
  database holds: what was planned is answered. The call may read whatever a read may give.
\<close>

definition heard :: "server \<Rightarrow> server \<Rightarrow> bool" where
  "heard s s' \<longleftrightarrow> length (pending (sys s)) + length (answers (sys s))
     \<le> length (pending (sys s')) + length (answers (sys s'))"

definition solo :: "runtime \<Rightarrow> call list \<Rightarrow> server \<Rightarrow> server \<Rightarrow> bool" where
  "solo rt cs s s' \<longleftrightarrow> move rt s s' \<and> heard s s' \<and> (calls s' = cs \<or> (\<exists>c. calls s' = cs @ [c]))"

lemma removed_last:
  assumes "cs @ [c] = xs @ m # ys" "xs @ ys = cs \<or> (\<exists>c'. xs @ ys = cs @ [c'])"
  shows "m = c \<and> xs @ ys = cs"
proof (cases ys rule: rev_cases)
  case (snoc zs z)
  have "length (xs @ ys) = length cs" using arg_cong [OF assms(1), of length] by simp
  then have e: "xs @ ys = cs" using assms(2) by (metis append_eq_append_conv length_append_singleton n_not_Suc_n)
  have "add_mset c (mset cs) = add_mset m (mset (xs @ ys))"
    using arg_cong [OF assms(1), of mset] by simp
  then show ?thesis by (simp add: e del: mset_append)
qed (use assms in auto)

lemma moved_last:
  assumes "cs @ [c] = xs @ m # ys" "m' \<noteq> m" "xs @ m' # ys = cs \<or> (\<exists>c'. xs @ m' # ys = cs @ [c'])"
  shows "m = c \<and> xs @ m' # ys = cs @ [m']"
proof (cases ys rule: rev_cases)
  case (snoc zs z)
  have "length (xs @ m' # ys) = length (cs @ [c])" using arg_cong [OF assms(1), of length] by simp
  then obtain c' where "xs @ m' # zs @ [z] = cs @ [c']" using assms(3) snoc by auto
  moreover have "cs = xs @ m # zs" using assms(1) snoc by simp
  ultimately show ?thesis using assms(2) by simp
qed (use assms in auto)

lemma solo_cases [consumes 2, case_names check refuse plan plan_error committed refused read]:
  assumes "calls s = cs @ [c]" "solo rt cs s s'"
  obtains req i r i' where "c = Checking req i" "read_result rt (sys s) (acc_OrderID i) r"
      "accept_checked (rq_carrier req) i r (here (sys s)) = Inr i'" "s' = s\<lparr>calls := cs @ [Ready (Accept req i')]\<rparr>"
  | req i r e where "c = Checking req i" "read_result rt (sys s) (acc_OrderID i) r"
      "accept_checked (rq_carrier req) i r (here (sys s)) = Inl e"
      "s' = s\<lparr>calls := cs, sent := sent s @ [Refused_reply req (fst (AbortError req (Some e) (here (sys s))))]\<rparr>"
  | j d where "c = Ready j" "plan rt (clock (here (sys s))) (job_stmt j) (job_args j) (db (here (sys s))) = Inr d"
      "s' = s\<lparr>sys := (sys s)\<lparr>pending := pending (sys s) @ [d]\<rparr>, calls := cs @ [Planned j d]\<rparr>"
  | j e where "c = Ready j" "plan rt (clock (here (sys s))) (job_stmt j) (job_args j) (db (here (sys s))) = Inl e"
      "s' = s\<lparr>calls := cs, sent := sent s @ [Job_reply j (fst (job_answered rt j (Inl (lift_pg rt e)) (here (sys s))))]\<rparr>"
  | j d t where "c = Planned j d" "commit rt d (db (here (sys s))) = Inr t" "calls s' = cs" "db (here (sys s')) = t"
      "sent s' = sent s @ [Job_reply j (fst (job_answered rt j (Inr (int (length (outbox_events d)))) (here (sys s))))]"
  | j d e where "c = Planned j d" "commit rt d (db (here (sys s))) = Inl e" "calls s' = cs" "here (sys s') = here (sys s)"
      "sent s' = sent s @ [Job_reply j (fst (job_answered rt j (Inl (lift_pg rt e)) (here (sys s))))]"
  | req ident r where "c = Reading req ident" "read_result rt (sys s) ident r"
      "s' = s\<lparr>calls := cs, sent := sent s @ [Read_reply req ident (fst (get_answered rt req r (here (sys s))))]\<rparr>"
proof -
  have m: "move rt s s'" and l: "calls s' = cs \<or> (\<exists>c. calls s' = cs @ [c])" and h: "heard s s'"
    using assms(2) by (auto simp: solo_def)
  note removed = removed_last [of cs c] and moved = moved_last [of cs c]
  from m show thesis
  proof (cases rule: moveE)
    case (check xs req i ys r i')
    then have "Checking req i = c \<and> xs @ Ready (Accept req i') # ys = cs @ [Ready (Accept req i')]"
      using moved [of xs "Checking req i" ys "Ready (Accept req i')"] assms(1) l by auto
    then show thesis using that(1) [of req i r i'] check by simp
  next
    case (refuse xs req i ys r e)
    then have "Checking req i = c \<and> xs @ ys = cs" using removed [of xs _ ys] assms(1) l by auto
    then show thesis using that(2) [of req i r e] refuse by simp
  next
    case (plan_statement xs j ys d)
    then have "Ready j = c \<and> xs @ Planned j d # ys = cs @ [Planned j d]"
      using moved [of xs "Ready j" ys "Planned j d"] assms(1) l by auto
    then show thesis using that(3) [of j d] plan_statement by simp
  next
    case (plan_error xs j ys e)
    then have "Ready j = c \<and> xs @ ys = cs" using removed [of xs _ ys] assms(1) l by auto
    then show thesis using that(4) [of j e] plan_error by simp
  next
    case (committed xs j d ys ds ds' t)
    then have "Planned j d = c \<and> xs @ ys = cs" using removed [of xs _ ys] assms(1) l by auto
    then show thesis using that(5) [of j d t] committed by simp
  next
    case (refused xs j d ys ds ds' e)
    then have "Planned j d = c \<and> xs @ ys = cs" using removed [of xs _ ys] assms(1) l by auto
    then show thesis using that(6) [of j d e] refused by simp
  next
    case (unheard xs j d ys ds ds' t err)
    then show thesis using h by (simp add: heard_def)
  next
    case (dropped xs j d ys ds ds' err)
    then show thesis using h by (simp add: heard_def)
  next
    case (read_order xs req ident ys r)
    then have "Reading req ident = c \<and> xs @ ys = cs" using removed [of xs _ ys] assms(1) l by auto
    then show thesis using that(7) [of req ident r] read_order by simp
  qed
qed

text \<open>A call that has its statement, served alone, ends as the statement run at once would.\<close>

definition job_done :: "runtime \<Rightarrow> job \<Rightarrow> call list \<Rightarrow> server \<Rightarrow> go_error + int \<Rightarrow> tables \<Rightarrow> server \<Rightarrow> bool" where
  "job_done rt j cs s res t s' \<longleftrightarrow> calls s' = cs \<and> db (here (sys s')) = t
     \<and> sent s' = sent s @ [Job_reply j (fst (job_answered rt j res (here (sys s))))]"

lemma planned_solo:
  assumes c: "calls s = cs @ [Planned j d]" and p: "pending (sys s) = ds @ [d]"
    and e: "(case commit rt d (db (here (sys s))) of Inl e \<Rightarrow> res = Inl (lift_pg rt e) \<and> t = db (here (sys s))
      | Inr t' \<Rightarrow> res = Inr (int (length (outbox_events d))) \<and> t = t')"
  shows "within 1 (solo rt cs) (job_done rt j cs s res t) s"
proof -
  have "\<exists>s'. solo rt cs s s'"
    using committed [OF c p] refused [OF c p]
    by (cases "commit rt d (db (here (sys s)))") (force simp: solo_def heard_def p)+
  moreover have "job_done rt j cs s res t s'" if "solo rt cs s s'" for s'
    using c that e by (cases rule: solo_cases) (auto simp: job_done_def)
  ultimately show ?thesis by simp
qed

lemma job_solo:
  assumes c: "calls s = cs @ [Ready j]" and e: "pg_execute rt (job_stmt j) (job_args j) (here (sys s)) = (res, w')"
  shows "within 2 (solo rt cs) (job_done rt j cs s res (db w')) s"
proof (cases "plan rt (clock (here (sys s))) (job_stmt j) (job_args j) (db (here (sys s)))")
  case (Inl err)
  then have r: "res = Inl (lift_pg rt err)" "w' = here (sys s)"
    using e by (simp_all add: pg_execute_def)
  have "\<exists>s'. solo rt cs s s'"
    using plan_error [OF c Inl] by (force simp: solo_def heard_def)
  moreover have "job_done rt j cs s res (db w') s'" if "solo rt cs s s'" for s'
    using c that Inl r by (cases rule: solo_cases) (auto simp: job_done_def)
  ultimately show ?thesis by (simp add: numeral_2_eq_2 within_now)
next
  case (Inr d)
  have "\<exists>s'. solo rt cs s s'"
    using plan_statement [OF c Inr] by (force simp: solo_def heard_def)
  moreover have "within 1 (solo rt cs) (job_done rt j cs s res (db w')) s'" if "solo rt cs s s'" for s'
    using c that
  proof (cases rule: solo_cases)
    case (plan j' d')
    then have s': "s' = s\<lparr>sys := (sys s)\<lparr>pending := pending (sys s) @ [d]\<rparr>, calls := cs @ [Planned j d]\<rparr>"
      using Inr by simp
    have "within 1 (solo rt cs) (job_done rt j cs s' res (db w')) s'"
      by (rule planned_solo [where d = d and ds = "pending (sys s)"])
        (use Inr e in \<open>auto simp: s' pg_execute_def split: sum.splits\<close>)
    then show ?thesis by (rule within_weaken) (simp add: job_done_def s')
  qed (use Inr in simp_all)
  ultimately show ?thesis by (simp add: numeral_2_eq_2)
qed


lemma moves_server_steps: "(move rt)\<^sup>*\<^sup>* s s' \<Longrightarrow> (server_step rt bind)\<^sup>*\<^sup>* s s'"
  by (rule rtranclp_mono [THEN predicate2D]) (auto intro: call_moves)

lemma serving_steps: "serving rt bind s \<Longrightarrow> (server_step rt bind)\<^sup>*\<^sup>* s s' \<Longrightarrow> serving rt bind s'"
  by (rotate_tac, induction rule: rtranclp_induct) (auto intro: serve_next)

lemma solo_reaches:
  assumes "server_step rt bind s s1" "within k (solo rt cs) P s1"
  shows "\<exists>s'. (server_step rt bind)\<^sup>*\<^sup>* s s' \<and> P s'"
proof -
  obtain n s' where s': "(solo rt cs ^^ n) s1 s'" "P s'"
    using within_run [OF assms(2)] by blast
  have "(solo rt cs)\<^sup>*\<^sup>* s1 s'" using s'(1) by (rule relpowp_imp_rtranclp)
  then have "(move rt)\<^sup>*\<^sup>* s1 s'"
    by (rule rtranclp_mono [THEN predicate2D, rotated]) (auto simp: solo_def)
  then show ?thesis
    using assms(1) s'(2) moves_server_steps by (meson converse_rtranclp_into_rtranclp)
qed

text \<open>Reading does not depend on what else the arrival of a call changes.\<close>

lemma admit_sel:
  assumes "db (snd r) = db (here (sys s)) \<and> cached (snd r) = cached (here (sys s))"
  shows "read_result rt (sys (admit req f r s)) ident found \<longleftrightarrow> read_result rt (sys s) ident found"
    and "here (sys (admit req f r s)) = snd r"
  using assms by (auto simp: admit_def read_result_def split: prod.split sum.split)

lemma accept_arrive_input:
  assumes "runtime_ok rt" "uuid_Parse rt (Param req ''orderId'') \<noteq> None"
    and "uuid_Parse rt (GetHeader req ''driver_id'') \<noteq> None"
    and "pg_uuid rt (Param req ''orderId'') = Some oid" "pg_uuid rt (GetHeader req ''driver_id'') = Some drv"
  obtains i w' where "accept_arrive rt req w = (Inr i, w')" "accept_input rt i oid drv"
    "acc_OrderID i = Param req ''orderId''" "db w' = db w" "cached w' = cached w"
proof -
  have "\<exists>i w'. accept_arrive rt req w = (Inr i, w') \<and> accept_input rt i oid drv
      \<and> acc_OrderID i = Param req ''orderId'' \<and> db w' = db w \<and> cached w' = cached w"
    using assms(2-5) runtime_okD(2) [OF assms(1)]
    by (auto simp: accept_arrive_def accept_input_def new_uuid_def Let_def)
  then show thesis using that by blast
qed

text \<open>
  With a view that says \<open>requested\<close>, or after a failing read, the early check passes, and the database can
  read the arguments.
\<close>

lemma accept_checked_passes:
  assumes "\<And>v. found = Inr v \<Longrightarrow> view_Status v = ''requested''" "accept_input rt i oid drv"
  obtains i' where "accept_checked carrier i found w = Inr i'"
    "parsed_accept rt (accept_args i') = Some (oid, drv)" "acc_OrderID i' = acc_OrderID i"
proof -
  obtain j where "pg_jsonb (InjectTraceContext carrier (Marshal_accepted
      \<lparr>oa_EventID = acc_OutboxID i, oa_EventVersion = 1, oa_OccurredAt = clock w,
       oa_OrderID = acc_OrderID i, oa_DriverID = acc_DriverID i\<rparr>)) = Some j"
    using pg_jsonb_accepted by blast
  then have "\<exists>i'. accept_checked carrier i found w = Inr i' \<and> acc_OrderID i' = acc_OrderID i
      \<and> parsed_accept rt (accept_args i') = Some (oid, drv)"
    using assms
    by (cases found) (auto simp: accept_checked_def parsed_accept_def accept_args_def accept_input_def)
  then show thesis using that by blast
qed

text \<open>Whatever the early check reads of a waiting order, it passes.\<close>

lemma waiting_read:
  assumes "runtime_ok rt" "sys_ok rt b" "pg_uuid rt ident = Some oid"
    and "abs_tables (db (here b)) oid = Some (Waiting r)" "read_result rt b ident (Inr v)"
  shows "view_Status v = ''requested''"
proof (rule ccontr)
  assume n: "view_Status v \<noteq> ''requested''"
  have "tables_ok (db (here b))" using assms(2) by (simp add: sys_ok_def)
  moreover have "past_view rt (db (here b)) oid v"
    using read_result_past [OF assms(2,5)] assms(3) by auto
  ultimately show False
    using past_view_not_requested(3) [OF assms(1) _ _ n] assms(4) by fastforce
qed

lemma accept_planned:
  assumes rt: "runtime_ok rt" and b: "sys_ok rt (sys s)"
    and p: "uuid_Parse rt (Param req ''orderId'') \<noteq> None" "uuid_Parse rt (GetHeader req ''driver_id'') \<noteq> None"
      "pg_uuid rt (Param req ''orderId'') = Some oid" "pg_uuid rt (GetHeader req ''driver_id'') = Some drv"
    and r: "abs_tables (db (here (sys s))) oid = Some (Waiting r)"
  shows "\<exists>s' i d. (server_step rt bind)\<^sup>*\<^sup>* s s' \<and> calls s' = calls s @ [Planned (Accept req i) d]
    \<and> pending (sys s') = pending (sys s) @ [d] \<and> db (here (sys s')) = db (here (sys s)) \<and> sent s' = sent s
    \<and> accept_delta oid d \<and> delta_driver d = drv"
proof -
  have ok: "tables_ok (db (here (sys s)))"
    using b by (simp add: sys_ok_def)
  obtain i w where a: "accept_arrive rt req (here (sys s)) = (Inr i, w)" "accept_input rt i oid drv"
    "acc_OrderID i = Param req ''orderId''" "db w = db (here (sys s))" "cached w = cached (here (sys s))"
    using accept_arrive_input [OF rt p, of "here (sys s)"] by blast
  define s1 where "s1 = admit req (Checking req) (accept_arrive rt req (here (sys s))) s"
  have s1: "server_step rt bind s s1" "calls s1 = calls s @ Checking req i # []" "here (sys s1) = w" "sent s1 = sent s"
    "pending (sys s1) = pending (sys s)"
    using accept_arrives [of rt bind s req] by (simp_all add: s1_def admit_def a(1))
  obtain v where v: "select_view rt (db w) oid = Some v"
    using select_view_None [OF ok rt, of oid] r a(4) by auto
  then have "view_Status v = ''requested''"
    using select_view_ride [OF ok rt, of oid v] a(4) r by auto
  then obtain i' where i': "accept_checked (rq_carrier req) i (Inr v) w = Inr i'"
    "parsed_accept rt (accept_args i') = Some (oid, drv)" "acc_OrderID i' = acc_OrderID i"
    using accept_checked_passes [OF _ a(2), of "Inr v"] by auto
  have "read_result rt (sys s1) (acc_OrderID i) (Inr v)"
    using v s1(3) a(3) p(3) by (simp add: read_result_def)
  from check [OF s1(2) this, unfolded s1(3), OF i'(1)]
  obtain s2 where s2: "move rt s1 s2" "calls s2 = calls s @ Ready (Accept req i') # []" "here (sys s2) = w"
    "sent s2 = sent s" "pending (sys s2) = pending (sys s)"
    using s1(3,4,5) by fastforce
  obtain d where d: "accepted_plan rt (accept_args i') (db w) = Inr d"
    "guard (db w) oid \<Longrightarrow> accept_delta oid d \<and> delta_driver d = drv"
    using accepted_plan_parsed [OF ok i'(2)] a(4) by metis
  have g: "guard (db w) oid" using guard_abs [OF ok] r a(4) by simp
  have "plan rt (clock (here (sys s2))) (job_stmt (Accept req i')) (job_args (Accept req i')) (db (here (sys s2))) = Inr d"
    using d(1) s2(3) by (simp add: plan_def)
  from plan_statement [OF s2(2) this] obtain s3 where s3: "move rt s2 s3"
    "calls s3 = calls s @ [Planned (Accept req i') d]" "pending (sys s3) = pending (sys s) @ [d]"
    "here (sys s3) = w" "sent s3 = sent s"
    using s2(3-5) by fastforce
  have "(server_step rt bind)\<^sup>*\<^sup>* s s3"
    using s1(1) call_moves [OF s2(1)] call_moves [OF s3(1)]
    by (meson converse_rtranclp_into_rtranclp r_into_rtranclp)
  then show ?thesis using s3(2-5) a(4) d(2) [OF g] by metis
qed

lemma accept_delta_commits:
  assumes rt: "\<And>t d. refuse rt t d = None" and ok: "tables_ok t" and d: "accept_delta oid d"
  shows "abs_tables t oid = Some (Waiting r) \<Longrightarrow> \<exists>t'. commit rt d t = Inr t' \<and> tables_ok t'
      \<and> abs_tables t' = (abs_tables t)(oid \<mapsto> Taken r (delta_driver d))"
    and "abs_tables t oid = Some (Taken r drv) \<Longrightarrow>
      commit rt d t = Inl (unique_violation (reported rt [history_key, acceptance_key]))"
proof -
  assume r: "abs_tables t oid = Some (Waiting r)"
  have h: "hist t oid = [(1, 1)]" using hist_of_abs(1) [OF ok r] .
  have c: "commit rt d t = Inr (insert_rows d t)"
    using violations_accept_ok [OF ok d] h by (simp add: commit_def rt)
  have "wf_delta t d" using d h by (auto simp: wf_delta_def)
  then show "\<exists>t'. commit rt d t = Inr t' \<and> tables_ok t' \<and> abs_tables t' = (abs_tables t)(oid \<mapsto> Taken r (delta_driver d))"
    using c commit_tables_ok [OF ok _ c] abs_tables_accept [OF ok d r] by blast
next
  assume r: "abs_tables t oid = Some (Taken r drv)"
  then show "commit rt d t = Inl (unique_violation (reported rt [history_key, acceptance_key]))"
    using violations_accept_ok [OF ok d] hist_of_abs(2) [OF ok r] by (simp add: commit_def rt)
qed

lemma accept_alone:
  assumes rt: "runtime_ok rt" "\<And>t d. refuse rt t d = None" and b: "sys_ok rt (sys s)"
    and p: "uuid_Parse rt (Param req ''orderId'') \<noteq> None" "uuid_Parse rt (GetHeader req ''driver_id'') \<noteq> None"
      "pg_uuid rt (Param req ''orderId'') = Some oid" "pg_uuid rt (GetHeader req ''driver_id'') = Some drv"
    and r: "abs_tables (db (here (sys s))) oid = Some (Waiting r)"
  shows "within 3 (solo rt (calls s))
     (\<lambda>s'. calls s' = calls s
        \<and> (\<exists>i. sent s' = sent s @ [Job_reply (Accept req i)
             \<lparr>rs_status = 201, rs_body = DriverOrderOutput_json \<lparr>dout_ID = Param req ''orderId''\<rparr>\<rparr>])
        \<and> abs_tables (db (here (sys s'))) = (abs_tables (db (here (sys s))))(oid \<mapsto> Taken r drv))
     (admit req (Checking req) (accept_arrive rt req (here (sys s))) s)" (is "within 3 ?st ?P ?s1")
proof -
  have ok: "tables_ok (db (here (sys s)))"
    using b by (simp add: sys_ok_def)
  obtain i w where a: "accept_arrive rt req (here (sys s)) = (Inr i, w)" "accept_input rt i oid drv"
    "acc_OrderID i = Param req ''orderId''" "db w = db (here (sys s))" "cached w = cached (here (sys s))"
    using accept_arrive_input [OF rt(1) p, of "here (sys s)"] by blast
  have s1: "calls ?s1 = calls s @ [Checking req i]" "here (sys ?s1) = w" "sent ?s1 = sent s"
    by (simp_all add: a(1) admit_def)
  have rd: "read_result rt (sys ?s1) (acc_OrderID i) found \<longleftrightarrow> read_result rt (sys s) (Param req ''orderId'') found" for found
    unfolding a(3) by (rule admit_sel) (simp add: a)
  have "\<exists>s'. ?st ?s1 s'"
    using check [OF s1(1), of rt "Inl (errorf ''timeout'')"]
    by (force simp: solo_def heard_def accept_checked_def read_result_def)
  moreover have "within 2 ?st ?P s2" if "?st ?s1 s2" for s2
  proof -
    have passes: "\<exists>i'. accept_checked (rq_carrier req) i found w = Inr i' \<and> acc_OrderID i' = Param req ''orderId''
        \<and> parsed_accept rt (accept_args i') = Some (oid, drv)"
      if "read_result rt (sys ?s1) (acc_OrderID i) found" for found
      using accept_checked_passes [OF _ a(2), of found "rq_carrier req" w] a(3)
        waiting_read [OF rt(1) b p(3) r] that unfolding rd by metis
    from s1(1) that obtain i' where i': "s2 = ?s1\<lparr>calls := calls s @ [Ready (Accept req i')]\<rparr>"
      "parsed_accept rt (accept_args i') = Some (oid, drv)" "acc_OrderID i' = Param req ''orderId''"
    proof (cases rule: solo_cases)
      case (check req' i2 found i')
      then show ?thesis using passes [of found] that s1(2) by auto
    next
      case (refuse req' i2 found e)
      then show ?thesis using passes [of found] s1(2) by auto
    qed simp_all
    obtain d t' where d: "accepted_plan rt (accept_args i') (db (here (sys s))) = Inr d" "commit rt d (db (here (sys s))) = Inr t'"
      "abs_tables t' = (case spec_accept oid drv (abs_tables (db (here (sys s)))) of
          None \<Rightarrow> abs_tables (db (here (sys s))) | Some m \<Rightarrow> m)"
      "length (outbox_events d) = (if spec_accept oid drv (abs_tables (db (here (sys s)))) = None then 0 else 1)"
      by (rule accept_refines [OF ok rt(2) i'(2)]) (rule that, assumption+)
    have sp: "spec_accept oid drv (abs_tables (db (here (sys s)))) = Some ((abs_tables (db (here (sys s))))(oid \<mapsto> Taken r drv))"
      using r by (simp add: spec_accept_def)
    have e: "pg_execute rt (job_stmt (Accept req i')) (job_args (Accept req i')) (here (sys s2)) = (Inr 1, w\<lparr>db := t'\<rparr>)"
      using d sp i'(1) s1(2) a(4) by (simp add: pg_execute_def plan_def)
    have "within 2 ?st (job_done rt (Accept req i') (calls s) s2 (Inr 1) t') s2"
      using job_solo [OF _ e, of "calls s"] i'(1) by simp
    then show ?thesis
      by (rule within_weaken) (use i' d(3) sp s1(3) in \<open>auto simp: job_done_def accept_answered_def\<close>)
  qed
  ultimately show ?thesis by (simp add: numeral_3_eq_3 numeral_2_eq_2)
qed

text \<open>
  Two drivers who pass the check and the guard together: whoever commits first wins, and the other's
  statement is refused by the constraints.
\<close>

lemma two_drivers_race:
  assumes rt: "runtime_ok rt" "\<And>t d. refuse rt t d = None" "foreign_errors rt" and s: "serving rt bind s"
    and p: "uuid_Parse rt (Param req ''orderId'') \<noteq> None" "uuid_Parse rt (GetHeader req ''driver_id'') \<noteq> None"
      "pg_uuid rt (Param req ''orderId'') = Some oid" "pg_uuid rt (GetHeader req ''driver_id'') = Some drv"
    and q: "uuid_Parse rt (Param req2 ''orderId'') \<noteq> None" "uuid_Parse rt (GetHeader req2 ''driver_id'') \<noteq> None"
      "pg_uuid rt (Param req2 ''orderId'') = Some oid" "pg_uuid rt (GetHeader req2 ''driver_id'') = Some drv2"
    and r: "abs_tables (db (here (sys s))) oid = Some (Waiting r)"
  obtains s' i2 d2 where "serving rt bind s'" "calls s' = calls s @ [Planned (Accept req2 i2) d2]"
    "abs_tables (db (here (sys s'))) oid = Some (Taken r drv)"
    "commit rt d2 (db (here (sys s'))) = Inl (unique_violation (reported rt [history_key, acceptance_key]))"
proof -
  note ok = serving_ok [OF s rt(1,3)]
  obtain s1 i d where s1: "(server_step rt bind)\<^sup>*\<^sup>* s s1" "calls s1 = calls s @ [Planned (Accept req i) d]"
    "pending (sys s1) = pending (sys s) @ [d]" "db (here (sys s1)) = db (here (sys s))"
    "accept_delta oid d" "delta_driver d = drv"
    using accept_planned [OF rt(1) ok(1) p r] by blast
  note v1 = serving_steps [OF s s1(1)]
  have r1: "abs_tables (db (here (sys s1))) oid = Some (Waiting r)" using r s1(4) by simp
  obtain s2 i2 d2 where s2: "(server_step rt bind)\<^sup>*\<^sup>* s1 s2"
    "calls s2 = calls s @ Planned (Accept req i) d # [Planned (Accept req2 i2) d2]"
    "pending (sys s2) = pending (sys s) @ d # [d2]" "db (here (sys s2)) = db (here (sys s))" "accept_delta oid d2"
    using accept_planned [OF rt(1) serving_ok(1) [OF v1 rt(1,3)] q r1, of bind] s1(2-4) by auto
  note v2 = serving_steps [OF v1 s2(1)]
  have t2: "tables_ok (db (here (sys s2)))" using serving_ok(1) [OF v2 rt(1,3)] by (simp add: sys_ok_def)
  have r2: "abs_tables (db (here (sys s2))) oid = Some (Waiting r)" using r s2(4) by simp
  obtain t where t: "commit rt d (db (here (sys s2))) = Inr t" "tables_ok t" "abs_tables t oid = Some (Taken r drv)"
    using accept_delta_commits(1) [OF rt(2) t2 s1(5) r2] s1(6) by auto
  from committed [OF s2(2,3) t(1)] obtain s3 where s3: "move rt s2 s3"
    "calls s3 = calls s @ [Planned (Accept req2 i2) d2]" "db (here (sys s3)) = t"
    by fastforce
  show thesis
    using that [OF serve_next [OF v2 call_moves [OF s3(1)]] s3(2)] s3(3) t
      accept_delta_commits(2) [OF rt(2) t(2) s2(5) t(3)] by simp
qed

lemma request_arrive_args:
  assumes "runtime_ok rt" "request_arrive rt bind req w = (Inr i, w')"
    and "pg_uuid rt (inp_ID i) = Some oid" "pg_uuid rt (inp_RiderID i) = Some r"
  shows "\<exists>d. requested_plan rt now (post_args i) = Inr d \<and> request_delta oid d \<and> delta_rider d = r"
proof -
  obtain h x e c where "inp_StatusHistoryID i = uuid_string h" "inp_OutboxID i = uuid_string x"
    "inp_Payload i = InjectTraceContext c (Marshal_requested (fmt_float rt) e)"
    using assms(2)
    by (auto simp: request_arrive_def request_ready_def new_uuid_def rejected_def Let_def post_input_def
        split: sum.splits prod.splits if_splits)
  moreover obtain j where "pg_jsonb (InjectTraceContext c (Marshal_requested (fmt_float rt) e)) = Some j"
    using pg_jsonb_event by blast
  ultimately show ?thesis
    using assms(3,4) runtime_okD(2) [OF assms(1)]
    by (simp add: requested_plan_def post_args_def request_delta_def delta_rider_def)
qed

lemma post_alone:
  assumes rt: "runtime_ok rt" "\<And>t d. refuse rt t d = None" and b: "sys_ok rt (sys s)"
    and a: "request_arrive rt bind req (here (sys s)) = (Inr i, w)"
    and p: "pg_uuid rt (inp_ID i) = Some oid" "pg_uuid rt (inp_RiderID i) = Some r"
    and n: "abs_tables (db (here (sys s))) oid = None"
  shows "within 2 (solo rt (calls s))
     (\<lambda>s'. calls s' = calls s
        \<and> sent s' = sent s @ [Job_reply (Post req i)
             \<lparr>rs_status = 201, rs_body = OrderOutput_json (fmt_float rt) (output_of_input i)\<rparr>]
        \<and> abs_tables (db (here (sys s'))) = (abs_tables (db (here (sys s))))(oid \<mapsto> Waiting r))
     (admit req (\<lambda>i. Ready (Post req i)) (request_arrive rt bind req (here (sys s))) s)" (is "within 2 ?st ?P ?s1")
proof -
  have ok: "tables_ok (db (here (sys s)))"
    using b by (simp add: sys_ok_def)
  have w: "db w = db (here (sys s))"
    using arrive_frame(2) [OF a] by simp
  have s1: "calls ?s1 = calls s @ [Ready (Post req i)]" "here (sys ?s1) = w" "sent ?s1 = sent s"
    by (simp_all add: admit_def a)
  obtain d where d: "requested_plan rt (clock w) (post_args i) = Inr d" "request_delta oid d" "delta_rider d = r"
    using request_arrive_args [OF rt(1) a p] by blast
  have c: "commit rt d (db (here (sys s))) = Inr (insert_rows d (db (here (sys s))))"
    using violations_request_ok [OF ok d(2)] abs_tables_hist(1) [OF ok, of oid] n by (simp add: commit_def rt(2))
  have e: "pg_execute rt (job_stmt (Post req i)) (job_args (Post req i)) (here (sys ?s1)) =
      (Inr (int (length (outbox_events d))), w\<lparr>db := insert_rows d (db (here (sys s)))\<rparr>)"
    using d(1) c s1(2) w by (simp add: pg_execute_def plan_def)
  have "within 2 ?st (job_done rt (Post req i) (calls s) ?s1 (Inr (int (length (outbox_events d))))
      (insert_rows d (db (here (sys s))))) ?s1"
    using job_solo [OF s1(1) e] by simp
  then show ?thesis
    by (rule within_weaken)
      (use s1(3) abs_tables_request [OF ok d(2) n] d(3) in \<open>auto simp: job_done_def request_answered_def\<close>)
qed

section \<open>A call that runs alone is its handler\<close>

text \<open>
  Where nothing happens in between, the stages of a call and the moves of its statement are the handler of
  theory \<open>Orders\<close> or \<open>Drivers\<close> over the services of \<open>cmd/platform/main.go\<close>, with what the read of the order
  gave; and that may be whatever the service's read gives, with a lawful cache or without
  (\<open>Service_Get_read\<close>).
\<close>

fun reply_response :: "reply \<Rightarrow> response" where
  "reply_response (Rejected req resp) = resp"
| "reply_response (Refused_reply req resp) = resp"
| "reply_response (Job_reply j resp) = resp"
| "reply_response (Read_reply req ident resp) = resp"

definition served_as :: "server \<Rightarrow> response \<times> world \<Rightarrow> server \<Rightarrow> bool" where
  "served_as s out s' \<longleftrightarrow> calls s' = calls s \<and> (\<exists>r. sent s' = sent s @ [r] \<and> reply_response r = fst out)
     \<and> db (here (sys s')) = db (snd out)"

lemma job_answered_same:
  "fst (job_answered rt j res w) = fst (job_answered rt j res w')"
  "db (snd (job_answered rt j res w)) = db w"
  by (cases j; auto simp: accept_answered_def request_answered_def AbortError_response split: sum.split)+

lemma get_answered_same:
  "fst (get_answered rt req r w) = fst (get_answered rt req r w')" "db (snd (get_answered rt req r w)) = db w"
  by (auto simp: get_answered_def AbortError_response split: sum.split)

lemma job_done_served:
  assumes "job_done rt j (calls s) s1 res (db w') s'" "sent s1 = sent s"
  shows "served_as s (job_answered rt j res w') s'"
  using assms job_answered_same [of rt j res] unfolding job_done_def served_as_def
  by (metis reply_response.simps(3))

lemma post_served:
  "within 2 (solo rt (calls s))
     (served_as s (Handler_request rt bind (Service_Requested rt (riderService rt None c)) req (here (sys s))))
     (admit req (\<lambda>i. Ready (Post req i)) (request_arrive rt bind req (here (sys s))) s)"
proof -
  obtain x w where a: "request_arrive rt bind req (here (sys s)) = (x, w)" by fastforce
  show ?thesis
  proof (cases x)
    case (Inl resp)
    show ?thesis
      unfolding riderService_eq request_in_stages a
      by (rule within_now) (simp add: Inl admit_def served_as_def)
  next
    case (Inr i)
    obtain res w2 where e: "pg_execute rt requestedSQL (post_args i) w = (res, w2)" by fastforce
    define s1 where "s1 = admit req (\<lambda>i. Ready (Post req i)) (x, w) s"
    have s1: "calls s1 = calls s @ [Ready (Post req i)]" "here (sys s1) = w" "sent s1 = sent s"
      by (simp_all add: s1_def admit_def Inr)
    have "within 2 (solo rt (calls s)) (job_done rt (Post req i) (calls s) s1 res (db w2)) s1"
      by (rule job_solo [OF s1(1)]) (use s1(2) e in simp)
    then show ?thesis
      unfolding riderService_eq request_in_stages a s1_def [symmetric]
      by (rule within_weaken) (use job_done_served [OF _ s1(3)] Inr e in fastforce)
  qed
qed

lemma get_served:
  "within 1 (solo rt (calls s))
     (\<lambda>s'. \<exists>found. read_result rt (sys s) (Param req ''orderId'') found
        \<and> served_as s (Handler_get rt (\<lambda>_ w. (found, w)) req (here (sys s))) s')
     (admit req (Reading req) (get_arrive rt req (here (sys s))) s)"
proof -
  obtain x w where a: "get_arrive rt req (here (sys s)) = (x, w)" by fastforce
  have failing: "read_result rt b ident (Inl (errorf ''timeout''))" for ident b
    by (simp add: read_result_def)
  show ?thesis
  proof (cases x)
    case (Inl resp)
    show ?thesis
      unfolding get_in_stages a
      by (rule within_now) (use failing in \<open>auto simp: Inl admit_def served_as_def\<close>)
  next
    case (Inr ident)
    then have i: "ident = Param req ''orderId''" "db w = db (here (sys s))" "cached w = cached (here (sys s))"
      using a arrive_frame(3) [OF a] by (auto simp: get_arrive_def rejected_def split: if_splits prod.splits)
    define s1 where "s1 = admit req (Reading req) (x, w) s"
    have s1: "calls s1 = calls s @ [Reading req ident]" "here (sys s1) = w" "sent s1 = sent s"
      by (simp_all add: s1_def admit_def Inr)
    have rd: "read_result rt (sys s1) ident r \<longleftrightarrow> read_result rt (sys s) ident r" for r
      unfolding s1_def by (rule admit_sel) (simp add: i)
    have "\<exists>s'. solo rt (calls s) s1 s'"
      using read_order [OF s1(1) failing] by (force simp: solo_def heard_def)
    moreover have "\<exists>found. read_result rt (sys s) (Param req ''orderId'') found
        \<and> served_as s (get_answered rt req found w) s'" if "solo rt (calls s) s1 s'" for s'
      using s1(1) that
    proof (cases rule: solo_cases)
      case (read req' ident' r)
      then have "served_as s (get_answered rt req r w) s'"
        using s1(1-3) get_answered_same(2) [of rt req r w] by (simp add: served_as_def)
      then show ?thesis using read i rd by auto
    qed simp_all
    ultimately show ?thesis
      unfolding get_in_stages a s1_def [symmetric] by (simp add: Inr)
  qed
qed

lemma accept_served:
  "within 3 (solo rt (calls s))
     (\<lambda>s'. \<exists>found. read_result rt (sys s) (Param req ''orderId'') found
        \<and> served_as s (Handler_accept rt (Service_Accepted rt (driverService rt None (Some (\<lambda>_ w. (found, w)))))
              req (here (sys s))) s')
     (admit req (Checking req) (accept_arrive rt req (here (sys s))) s)"
proof -
  obtain x w where a: "accept_arrive rt req (here (sys s)) = (x, w)" by fastforce
  have failing: "read_result rt b ident (Inl (errorf ''timeout''))" for ident b
    by (simp add: read_result_def)
  show ?thesis
  proof (cases x)
    case (Inl resp)
    show ?thesis
      unfolding driverService_eq accept_in_stages a
      by (rule within_now) (use failing in \<open>auto simp: Inl admit_def served_as_def\<close>)
  next
    case (Inr i)
    then have i: "acc_OrderID i = Param req ''orderId''" "db w = db (here (sys s))" "cached w = cached (here (sys s))"
      using a arrive_frame(1) [OF a] by (auto simp: accept_arrive_def Let_def rejected_def split: if_splits prod.splits)
    define s1 where "s1 = admit req (Checking req) (x, w) s"
    have s1: "calls s1 = calls s @ [Checking req i]" "here (sys s1) = w" "sent s1 = sent s"
      by (simp_all add: s1_def admit_def Inr)
    have rd: "read_result rt (sys s1) (acc_OrderID i) r \<longleftrightarrow> read_result rt (sys s) (Param req ''orderId'') r" for r
      unfolding s1_def i(1) by (rule admit_sel) (simp add: i)
    let ?P = "\<lambda>s'. \<exists>found. read_result rt (sys s) (Param req ''orderId'') found
        \<and> served_as s (Handler_accept rt (Service_Accepted rt (driverService rt None (Some (\<lambda>_ w. (found, w)))))
              req (here (sys s))) s'"
    have h: "Handler_accept rt (Service_Accepted rt (driverService rt None (Some (\<lambda>_ w. (found, w))))) req (here (sys s)) =
       (case accept_checked (rq_carrier req) i found w of
          Inl e \<Rightarrow> AbortError req (Some e) w
        | Inr i' \<Rightarrow> (case pg_execute rt acceptedSQL (accept_args i') w of (res, w3) \<Rightarrow> accept_answered req i' res w3))" for found
      unfolding driverService_eq accept_in_stages a by (simp add: Inr)
    have "\<exists>s'. solo rt (calls s) s1 s'"
      using check [OF s1(1) failing] by (force simp: solo_def heard_def accept_checked_def)
    moreover have "within 2 (solo rt (calls s)) ?P s2" if "solo rt (calls s) s1 s2" for s2
      using s1(1) that
    proof (cases rule: solo_cases)
      case (check req' i2 r i')
      then have i': "accept_checked (rq_carrier req) i r w = Inr i'"
        "s2 = s1\<lparr>calls := calls s @ [Ready (Accept req i')]\<rparr>" "read_result rt (sys s) (Param req ''orderId'') r"
        using s1 rd by auto
      obtain res w2 where e: "pg_execute rt acceptedSQL (accept_args i') w = (res, w2)" by fastforce
      have "within 2 (solo rt (calls s)) (job_done rt (Accept req i') (calls s) s2 res (db w2)) s2"
        by (rule job_solo) (use i'(2) s1(2) e in simp_all)
      then show ?thesis
      proof (rule within_weaken)
        fix s'
        assume "job_done rt (Accept req i') (calls s) s2 res (db w2) s'"
        from job_done_served [OF this] have "served_as s (accept_answered req i' res w2) s'"
          using i'(2) s1(3) by simp
        then show "?P s'" using i'(1,3) e by (intro exI [of _ r]) (simp add: h)
      qed
    next
      case (refuse req' i2 r e)
      then have e: "accept_checked (rq_carrier req) i r w = Inl e" "read_result rt (sys s) (Param req ''orderId'') r"
        "served_as s (AbortError req (Some e) w) s2"
        using s1 rd i by (auto simp: served_as_def)
      have "?P s2" by (rule exI [of _ r]) (simp only: h e sum.case simp_thms)
      show ?thesis by (rule within_now) fact
    qed simp_all
    ultimately show ?thesis
      unfolding a s1_def [symmetric] by (simp add: numeral_3_eq_3 numeral_2_eq_2)
  qed
qed

section \<open>Runs of the server are runs of the rides\<close>

lemma server_step_rides:
  assumes "runtime_ok rt" "serving rt bind s" "server_step rt bind s s'"
  shows "ride_move (abs_tables (db (here (sys s)))) (abs_tables (db (here (sys s'))))"
  using server_step_sys [OF assms(3)]
    step_simulates [OF assms(1) reachable_ok [OF serving_reachable [OF assms(2)] assms(1)], of "sys s'"]
  by (auto simp: ride_move_def)

lemma serving_relpow: "(server_step rt bind ^^ n) s s' \<Longrightarrow> serving rt bind s \<Longrightarrow> serving rt bind s'"
  using serving_steps by (metis relpowp_imp_rtranclp)

lemma server_run_rides:
  assumes "runtime_ok rt" "serving rt bind s"
  shows "(server_step rt bind ^^ n) s s' \<Longrightarrow>
    (ride_move ^^ n) (abs_tables (db (here (sys s)))) (abs_tables (db (here (sys s'))))"
proof (induction n arbitrary: s')
  case (Suc n)
  then obtain s1 where s1: "(server_step rt bind ^^ n) s s1" "server_step rt bind s1 s'" by auto
  show ?case
    using Suc.IH [OF s1(1)] server_step_rides [OF assms(1) serving_relpow [OF s1(1) assms(2)] s1(2)] by auto
qed simp

lemma ride_moves_grow: "(ride_move ^^ n) m m' \<Longrightarrow> m \<le> m'"
  by (induction n arbitrary: m') (auto dest: ride_move_grows intro: order_trans)

end
