(* ===== verification/Freshness.thy ===== *)
theory Freshness
  imports RiderService
begin

text \<open>
  How old an answer of the cached read may be. \<open>meanwhile\<close> is what may happen between two reads of a process:
  other reads through its cache, and anything that only appends to the tables, lets time pass and drops
  entries. \<open>fresh_entries\<close> is the invariant of the entries: each was loaded at most a time to live before it
  expires.
\<close>

section \<open>Views of a span of time\<close>

text \<open>The view was the order's at a moment between two states of the tables.\<close>

definition view_between :: "runtime \<Rightarrow> tables \<Rightarrow> tables \<Rightarrow> uuid \<Rightarrow> OrderView \<Rightarrow> bool" where
  "view_between rt t t' oid v \<longleftrightarrow>
     (\<exists>t0. tables_ok t0 \<and> extends t t0 \<and> extends t0 t' \<and> select_view rt t0 oid = Some v)"

lemma view_between_now:
  "tables_ok t' \<Longrightarrow> extends t t' \<Longrightarrow> select_view rt t' oid = Some v \<Longrightarrow> view_between rt t t' oid v"
  unfolding view_between_def using extends_refl by blast

lemma view_between_extends: "view_between rt t t' oid v \<Longrightarrow> extends t' t2 \<Longrightarrow> view_between rt t t2 oid v"
  unfolding view_between_def using extends_trans by blast

inductive meanwhile :: "runtime \<Rightarrow> view_cache \<Rightarrow> world \<Rightarrow> world \<Rightarrow> bool" for rt g where
  nothing: "meanwhile rt g w w"
| reads: "meanwhile rt g w w1 \<Longrightarrow> Service_Get rt (riderService rt t (Some g)) ident w1 = (r, w2) \<Longrightarrow> meanwhile rt g w w2"
| elsewhere: "meanwhile rt g w w1 \<Longrightarrow> tables_ok (db w2) \<Longrightarrow> extends (db w1) (db w2) \<Longrightarrow> clock w1 \<le> clock w2 \<Longrightarrow>
    map_of (cached w2) \<subseteq>\<^sub>m map_of (cached w1) \<Longrightarrow> cached_until w2 = cached_until w1 \<Longrightarrow> meanwhile rt g w w2"

section \<open>A read through a cache that keeps the time to live\<close>

lemma ttl_get_cases:
  assumes "keeps_ttl g" "uuid_Parse rt ident \<noteq> None" "Service_Get rt (riderService rt t (Some g)) ident w = (r, w')"
  obtains (found) v e where "clock w < cached_until w (view_key ident)" "map_of (cached w) (view_key ident) = Some v"
      "r = Inr v" "w' = w\<lparr>cached := e\<rparr>" "map_of e \<subseteq>\<^sub>m map_of (cached w)"
  | (filled) v e where "fst (load_view (riderService rt t (Some g)) ident w) = Inr v" "r = Inr v"
      "w' = w\<lparr>cached := e, cached_until := (cached_until w)(view_key ident := clock w + viewTTL)\<rparr>"
      "map_of e \<subseteq>\<^sub>m (map_of (cached w))(view_key ident \<mapsto> v)"
  | (failed) err e where "r = Inl err" "w' = w\<lparr>cached := e\<rparr>" "map_of e \<subseteq>\<^sub>m map_of (cached w)"
proof -
  let ?load = "load_view (riderService rt t (Some g)) ident"
  obtain r0 where c: "g (view_key ident) ?load viewTTL w = (r0, w')"
    and r: "r = (case r0 of Inr v \<Rightarrow> Inr v
      | Inl err \<Rightarrow> Inl (if HasCode (Some err) ''ORDER_NOT_FOUND'' then HTTPErr order_not_found else err))"
    using assms(2,3) by (auto simp: Service_Get_def split: prod.splits sum.splits if_splits)
  have "?load (w\<lparr>cached := e\<rparr>) = (fst (?load w), w\<lparr>cached := e\<rparr>)" for e
    unfolding rider_load_tel by (rule pg_orders.load_uncached)
  from assms(1) c this show ?thesis
    by (cases rule: keeps_ttl_cases) (use r that in auto)
qed

text \<open>
  The invariant, seen from a moment \<open>w0\<close>: what expires more than a time to live after \<open>w0\<close> was loaded after it.
\<close>

definition fresh_entries :: "runtime \<Rightarrow> world \<Rightarrow> world \<Rightarrow> bool" where
  "fresh_entries rt w0 w \<longleftrightarrow> clock w0 \<le> clock w \<and> tables_ok (db w) \<and> extends (db w0) (db w) \<and>
     (\<forall>ident v. map_of (cached w) (view_key ident) = Some v \<longrightarrow>
        cached_until w (view_key ident) \<le> clock w + viewTTL \<and>
        (clock w0 + viewTTL < cached_until w (view_key ident) \<longrightarrow>
          (\<exists>oid. pg_uuid rt ident = Some oid \<and> view_between rt (db w0) (db w) oid v)))"

lemma fresh_entries_now:
  assumes "tables_ok (db w)"
    and "\<And>ident v. map_of (cached w) (view_key ident) = Some v \<Longrightarrow> cached_until w (view_key ident) \<le> clock w + viewTTL"
  shows "fresh_entries rt w w"
  using assms by (fastforce simp: fresh_entries_def)

lemma fresh_entries_drop:
  assumes f: "fresh_entries rt w0 w" and w: "tables_ok (db w2)" "extends (db w) (db w2)" "clock w \<le> clock w2"
    "map_of (cached w2) \<subseteq>\<^sub>m map_of (cached w)" "cached_until w2 = cached_until w"
  shows "fresh_entries rt w0 w2"
proof -
  note e = map_le_Some [OF w(4)]
  have "cached_until w2 (view_key ident) \<le> clock w2 + viewTTL \<and>
      (clock w0 + viewTTL < cached_until w2 (view_key ident) \<longrightarrow>
        (\<exists>oid. pg_uuid rt ident = Some oid \<and> view_between rt (db w0) (db w2) oid v))"
    if "map_of (cached w2) (view_key ident) = Some v" for ident v
    using f e [OF that] w(3,5) view_between_extends [OF _ w(2)] by (fastforce simp: fresh_entries_def)
  moreover have "extends (db w0) (db w2)"
    using f w(2) extends_trans by (auto simp: fresh_entries_def)
  ultimately show ?thesis using f w(1,3) by (simp add: fresh_entries_def)
qed

lemma load_now:
  assumes "tables_ok (db w)" "fst (load_view (riderService rt t c) ident w) = Inr v"
  shows "\<exists>oid. pg_uuid rt ident = Some oid \<and> select_view rt (db w) oid = Some v"
proof -
  obtain w1 where "load_view (pg_orders.service rt c) ident w = (Inr v, w1)"
    using assms(2) unfolding rider_load_tel by (metis prod.collapse)
  from pg_orders.load_value [OF this] show ?thesis
    by (auto simp: find_view_def split: option.splits)
qed

lemma fresh_entries_read:
  assumes f: "fresh_entries rt w0 w" and g: "keeps_ttl g"
    and r: "Service_Get rt (riderService rt t (Some g)) ident w = (r, w2)"
  shows "fresh_entries rt w0 w2"
proof (cases "uuid_Parse rt ident = None")
  case True
  then show ?thesis using r f by (auto simp: Service_Get_def)
next
  case False
  have ok: "tables_ok (db w)" "extends (db w0) (db w)" "clock w0 \<le> clock w" using f by (simp_all add: fresh_entries_def)
  from g False r show ?thesis
  proof (cases rule: ttl_get_cases)
    case (found v e)
    then show ?thesis using fresh_entries_drop [OF f, of w2] ok by simp
  next
    case (failed err e)
    then show ?thesis using fresh_entries_drop [OF f, of w2] ok by simp
  next
    case (filled v e)
    obtain oid where oid: "pg_uuid rt ident = Some oid" "view_between rt (db w0) (db w) oid v"
      using load_now [OF ok(1) filled(1)] view_between_now [OF ok(1,2)] by blast
    have "cached_until w2 (view_key i) \<le> clock w2 + viewTTL \<and>
        (clock w0 + viewTTL < cached_until w2 (view_key i) \<longrightarrow>
          (\<exists>oid. pg_uuid rt i = Some oid \<and> view_between rt (db w0) (db w2) oid v'))"
      if m: "map_of (cached w2) (view_key i) = Some v'" for i v'
    proof -
      have "((map_of (cached w))(view_key ident \<mapsto> v)) (view_key i) = Some v'"
        using map_le_Some [OF filled(4), of "view_key i" v'] m filled(3) by simp
      then show ?thesis using oid f filled(3) by (cases "i = ident") (simp_all add: fresh_entries_def)
    qed
    then show ?thesis using ok filled(3) by (simp add: fresh_entries_def)
  qed
qed

lemma fresh_entries_meanwhile:
  assumes "meanwhile rt g w w'" "keeps_ttl g"
  shows "fresh_entries rt w0 w \<Longrightarrow> fresh_entries rt w0 w'"
  using assms(1)
proof (induction rule: meanwhile.induct)
  case (reads w w1 t ident r w2)
  then show ?case using fresh_entries_read [OF _ assms(2)] by blast
next
  case (elsewhere w w1 w2)
  then show ?case using fresh_entries_drop [of rt w0 w1 w2] by blast
qed

text \<open>
  From an empty cache on: what is read was the order's at a moment after any \<open>w0\<close> that is a time to live ago.
\<close>

lemma read_since:
  assumes g: "keeps_ttl g" and s: "tables_ok (db ws)" "cached ws = []" "meanwhile rt g ws w0" "meanwhile rt g w0 w"
    and late: "clock w0 + viewTTL \<le> clock w" and u: "uuid_Parse rt ident \<noteq> None" "pg_uuid rt ident = Some oid"
    and r: "Service_Get rt (riderService rt t (Some g)) ident w = (Inr v, w')"
  shows "view_between rt (db w0) (db w) oid v"
proof -
  have "fresh_entries rt ws w0"
    using fresh_entries_meanwhile [OF s(3) g fresh_entries_now [OF s(1)]] s(2) by simp
  then have "fresh_entries rt w0 w0"
    by (intro fresh_entries_now) (auto simp: fresh_entries_def)
  then have f: "fresh_entries rt w0 w"
    by (rule fresh_entries_meanwhile [OF s(4) g])
  then have ok: "tables_ok (db w)" "extends (db w0) (db w)" by (simp_all add: fresh_entries_def)
  from g u(1) r show ?thesis
  proof (cases rule: ttl_get_cases)
    case (found v' e)
    then show ?thesis using f late u(2) by (fastforce simp: fresh_entries_def)
  next
    case (filled v' e)
    then show ?thesis using load_now [OF ok(1) filled(1)] view_between_now [OF ok] u(2) by auto
  qed simp
qed

lemma meanwhile_sound:
  assumes "meanwhile rt g w w'" "view_cache g"
  shows "tables_ok (db w) \<and> cache_sound rt w \<Longrightarrow> tables_ok (db w') \<and> cache_sound rt w' \<and> extends (db w) (db w')"
  using assms(1)
proof (induction rule: meanwhile.induct)
  case (reads w w1 t ident r w2)
  then show ?case using rider_get_frame(1,2) [of "Some g" rt w1] assms(2) by fastforce
next
  case (elsewhere w w1 w2)
  then have 1: "tables_ok (db w1) \<and> cache_sound rt w1 \<and> extends (db w) (db w1)" by blast
  have "cache_sound rt (w1\<lparr>cached := cached w2\<rparr>)"
    by (rule cache_sound_drop [of rt w1]) (use 1 elsewhere in simp_all)
  then have "cache_sound rt w2"
    by (rule cache_sound_extends) (use elsewhere in simp_all)
  then show ?case using 1 elsewhere extends_trans by blast
qed simp

end
