(* ===== verification/Payloads.thy ===== *)
theory Payloads
  imports DriversCorrect
begin

text \<open>
  What the trace context of a call decides: the payload of its event, and nothing else. \<open>forget\<close> takes the
  payloads out of the outbox; two calls that differ only in their carriers give the same answer and, but for
  the payloads, leave the same world.
\<close>

definition forget_payloads :: "tables \<Rightarrow> tables" where
  "forget_payloads t = t\<lparr>outbox_events := map (\<lambda>x. x\<lparr>x_payload := None\<rparr>) (outbox_events t)\<rparr>"

definition forget :: "world \<Rightarrow> world" where
  "forget w = w\<lparr>db := forget_payloads (db w)\<rparr>"

lemma forget_payloads_sel [simp]:
  "orders (forget_payloads t) = orders t" "order_status_history (forget_payloads t) = order_status_history t"
  "order_acceptances (forget_payloads t) = order_acceptances t"
  "outbox_events (forget_payloads t) = map (\<lambda>x. x\<lparr>x_payload := None\<rparr>) (outbox_events t)"
  by (simp_all add: forget_payloads_def)

lemma forget_payloads_insert: "forget_payloads (insert_rows d t) = insert_rows (forget_payloads d) (forget_payloads t)"
  by (rule tables.equality) simp_all

lemma violations_forget: "violations (forget_payloads d) t = violations d t"
  by (simp add: violations_def)

lemma length_forget: "length (outbox_events (forget_payloads d)) = length (outbox_events d)"
  by simp

text \<open>Plans that agree but for the payloads are committed alike.\<close>

lemma execute_forget:
  assumes rf: "\<And>t d. refuse rt t d = None"
    and p: "map_sum id forget_payloads (plan rt (clock w) stmt args (db w))
      = map_sum id forget_payloads (plan rt (clock w) stmt args' (db w))"
  shows "fst (pg_execute rt stmt args w) = fst (pg_execute rt stmt args' w)
    \<and> forget (snd (pg_execute rt stmt args w)) = forget (snd (pg_execute rt stmt args' w))"
proof (cases "plan rt (clock w) stmt args (db w)")
  case (Inl e)
  then have "plan rt (clock w) stmt args' (db w) = Inl e"
    using p by (cases "plan rt (clock w) stmt args' (db w)") simp_all
  then show ?thesis using Inl by (simp add: pg_execute_def)
next
  case (Inr d)
  then obtain d' where d': "plan rt (clock w) stmt args' (db w) = Inr d'" "forget_payloads d = forget_payloads d'"
    using p by (cases "plan rt (clock w) stmt args' (db w)") simp_all
  have "violations d (db w) = violations d' (db w)"
    using violations_forget d'(2) by metis
  moreover have "length (outbox_events d) = length (outbox_events d')"
    using length_forget d'(2) by metis
  moreover have "forget_payloads (insert_rows d (db w)) = forget_payloads (insert_rows d' (db w))"
    using d'(2) by (simp add: forget_payloads_insert)
  ultimately show ?thesis
    using Inr d'(1) by (simp add: pg_execute_def commit_def rf forget_def)
qed

lemma requested_plan_forget:
  assumes "pg_jsonb p \<noteq> None" "pg_jsonb p' \<noteq> None"
  shows "map_sum id forget_payloads (requested_plan rt now
      [AText a1, AText a2, AFloat a3, AFloat a4, AFloat a5, AFloat a6, AText a7, AText a8, ABytes p, AText a10])
    = map_sum id forget_payloads (requested_plan rt now
      [AText a1, AText a2, AFloat a3, AFloat a4, AFloat a5, AFloat a6, AText a7, AText a8, ABytes p', AText a10])"
  using assms by (auto simp: requested_plan_def forget_payloads_def split: option.split)

lemma accepted_plan_forget:
  assumes "pg_jsonb p \<noteq> None" "pg_jsonb p' \<noteq> None"
  shows "map_sum id forget_payloads (accepted_plan rt
      [AText a1, AText a2, AText a3, AText a4, AText a5, ABytes p, AText a7] t)
    = map_sum id forget_payloads (accepted_plan rt
      [AText a1, AText a2, AText a3, AText a4, AText a5, ABytes p', AText a7] t)"
  using assms by (auto simp: accepted_plan_def forget_payloads_def split: option.split)

lemma Database_Requested_forget:
  assumes "\<And>t d. refuse rt t d = None" "pg_jsonb p \<noteq> None" "pg_jsonb p' \<noteq> None"
  shows "fst (Database_Requested (pg_execute rt) (i\<lparr>inp_Payload := p\<rparr>) w)
      = fst (Database_Requested (pg_execute rt) (i\<lparr>inp_Payload := p'\<rparr>) w)
    \<and> forget (snd (Database_Requested (pg_execute rt) (i\<lparr>inp_Payload := p\<rparr>) w))
      = forget (snd (Database_Requested (pg_execute rt) (i\<lparr>inp_Payload := p'\<rparr>) w))"
proof -
  let ?args = "\<lambda>p. [AText (inp_ID i), AText (inp_RiderID i), AFloat (inp_PickupLatitude i), AFloat (inp_PickupLongitude i),
      AFloat (inp_DestinationLatitude i), AFloat (inp_DestinationLongitude i), AText (inp_StatusHistoryID i),
      AText (inp_OutboxID i), ABytes p, AText (inp_EventType i)]"
  have "fst (pg_execute rt requestedSQL (?args p) w) = fst (pg_execute rt requestedSQL (?args p') w)
    \<and> forget (snd (pg_execute rt requestedSQL (?args p) w)) = forget (snd (pg_execute rt requestedSQL (?args p') w))"
    using requested_plan_forget [OF assms(2,3)] by (intro execute_forget [OF assms(1)]) (simp add: plan_def)
  moreover obtain r1 w1 r2 w2 where "pg_execute rt requestedSQL (?args p) w = (r1, w1)"
    "pg_execute rt requestedSQL (?args p') w = (r2, w2)" by fastforce
  ultimately show ?thesis
    by (cases r1) (auto simp: Database_Requested_def)
qed

lemma Database_Accepted_forget:
  assumes "\<And>t d. refuse rt t d = None" "pg_jsonb p \<noteq> None" "pg_jsonb p' \<noteq> None"
  shows "fst (Database_Accepted (pg_execute rt) (i\<lparr>acc_Payload := p\<rparr>) w)
      = fst (Database_Accepted (pg_execute rt) (i\<lparr>acc_Payload := p'\<rparr>) w)
    \<and> forget (snd (Database_Accepted (pg_execute rt) (i\<lparr>acc_Payload := p\<rparr>) w))
      = forget (snd (Database_Accepted (pg_execute rt) (i\<lparr>acc_Payload := p'\<rparr>) w))"
proof -
  let ?args = "\<lambda>p. [AText (acc_AcceptanceID i), AText (acc_OrderID i), AText (acc_DriverID i),
     AText (acc_StatusHistoryID i), AText (acc_OutboxID i), ABytes p, AText (acc_EventType i)]"
  have "fst (pg_execute rt acceptedSQL (?args p) w) = fst (pg_execute rt acceptedSQL (?args p') w)
    \<and> forget (snd (pg_execute rt acceptedSQL (?args p) w)) = forget (snd (pg_execute rt acceptedSQL (?args p') w))"
    using accepted_plan_forget [OF assms(2,3)] by (intro execute_forget [OF assms(1)]) (simp add: plan_def)
  moreover obtain r1 w1 r2 w2 where "pg_execute rt acceptedSQL (?args p) w = (r1, w1)"
    "pg_execute rt acceptedSQL (?args p') w = (r2, w2)" by fastforce
  ultimately show ?thesis
    by (cases r1) (auto simp: Database_Accepted_def)
qed

section \<open>Calls in another context\<close>

lemma doRequested_carrier:
  assumes rf: "\<And>t d. refuse rt t d = None"
  shows "fst (doRequested rt (riderService rt None c) k i w) = fst (doRequested rt (riderService rt None c) k' i w)
    \<and> forget (snd (doRequested rt (riderService rt None c) k i w))
      = forget (snd (doRequested rt (riderService rt None c) k' i w))"
proof (cases "TrimSpace (inp_ID i) = [] \<or> TrimSpace (inp_RiderID i) = []")
  case True
  then show ?thesis by (auto simp: doRequested_def requested_body_def)
next
  case False
  obtain h w1 where 1: "(if inp_StatusHistoryID i = [] then new_uuid w else (inp_StatusHistoryID i, w)) = (h, w1)"
    by fastforce
  obtain x w2 where 2: "(if inp_OutboxID i = [] then new_uuid w1 else (inp_OutboxID i, w1)) = (x, w2)"
    by fastforce
  let ?e = "\<lparr>or_EventID = x, or_EventVersion = 1, or_OccurredAt = clock w2, or_OrderID = inp_ID i,
      or_RiderID = inp_RiderID i, or_PickupLatitude = inp_PickupLatitude i, or_PickupLongitude = inp_PickupLongitude i,
      or_DestinationLatitude = inp_DestinationLatitude i, or_DestinationLongitude = inp_DestinationLongitude i\<rparr>"
  let ?p = "\<lambda>k. InjectTraceContext k (Marshal_requested (fmt_float rt) ?e)"
  let ?i = "i\<lparr>inp_StatusHistoryID := h, inp_OutboxID := x, inp_EventType := OrderRequested_MessageType (environ w2)\<rparr>"
  let ?out = "\<lambda>r. case r of
      Inl err \<Rightarrow> Inl (requested_error err) | Inr order \<Rightarrow> Inr (OrderOutput_of order)"
  have out: "doRequested rt (riderService rt None c) k i w =
      (case Database_Requested (pg_execute rt) (?i\<lparr>inp_Payload := ?p k\<rparr>) w2 of (r, w3) \<Rightarrow> (?out r, w3))" for k
  proof -
    have i: "i\<lparr>inp_StatusHistoryID := h, inp_OutboxID := x, inp_Payload := p,
        inp_EventType := OrderRequested_MessageType (environ w2)\<rparr> = ?i\<lparr>inp_Payload := p\<rparr>" for p
      by (cases i) simp
    obtain r w3 where r: "Database_Requested (pg_execute rt) (?i\<lparr>inp_Payload := ?p k\<rparr>) w2 = (r, w3)" by fastforce
    show ?thesis
      unfolding doRequested_def requested_body_def if_not_P [OF False] 1 2 Let_def prod.case i riderService_sel r
      by (cases r) (simp_all add: requested_error_def order_already_exists_def split: option.split)
  qed
  show ?thesis
    using Database_Requested_forget [OF rf, of "?p k" "?p k'" ?i w2] pg_jsonb_event
    unfolding out by (simp add: case_prod_beta)
qed

lemma doAccepted_carrier:
  assumes rf: "\<And>t d. refuse rt t d = None"
  shows "fst (doAccepted rt (driverService rt None rd) k i w) = fst (doAccepted rt (driverService rt None rd) k' i w)
    \<and> forget (snd (doAccepted rt (driverService rt None rd) k i w))
      = forget (snd (doAccepted rt (driverService rt None rd) k' i w))"
proof (cases "uuid_Parse rt (acc_OrderID i) = None \<or> uuid_Parse rt (acc_DriverID i) = None")
  case True
  then show ?thesis by (auto simp: doAccepted_def accepted_body_def)
next
  case False
  then obtain u v where ids: "uuid_Parse rt (acc_OrderID i) = Some u" "uuid_Parse rt (acc_DriverID i) = Some v" by auto
  obtain b w1 where ec: "early_check (driverService rt None rd) (acc_OrderID i) w = (b, w1)" by fastforce
  let ?p = "\<lambda>k. InjectTraceContext k (Marshal_accepted \<lparr>oa_EventID = acc_OutboxID i, oa_EventVersion = 1,
      oa_OccurredAt = clock w1, oa_OrderID = acc_OrderID i, oa_DriverID = acc_DriverID i\<rparr>)"
  let ?i = "i\<lparr>acc_EventType := OrderAccepted_MessageType (environ w1)\<rparr>"
  let ?out = "\<lambda>r. case r of
      Inl err \<Rightarrow> Inl (accepted_error err) | Inr order \<Rightarrow> Inr (DriverOrderOutput_of order)"
  have out: "doAccepted rt (driverService rt None rd) k i w =
      (if b then (Inl (HTTPErr order_not_acceptable), w1)
       else case Database_Accepted (pg_execute rt) (?i\<lparr>acc_Payload := ?p k\<rparr>) w1 of (r, w3) \<Rightarrow> (?out r, w3))" for k
  proof -
    have i: "i\<lparr>acc_Payload := p, acc_EventType := OrderAccepted_MessageType (environ w1)\<rparr> = ?i\<lparr>acc_Payload := p\<rparr>" for p
      by (cases i) simp
    obtain r w3 where r: "Database_Accepted (pg_execute rt) (?i\<lparr>acc_Payload := ?p k\<rparr>) w1 = (r, w3)" by fastforce
    show ?thesis
      using ids ec r by (cases b; cases r) (simp_all add: doAccepted_def accepted_body_def Let_def i)
  qed
  show ?thesis
    using Database_Accepted_forget [OF rf, of "?p k" "?p k'" ?i w1] pg_jsonb_accepted
    unfolding out by (simp add: case_prod_beta)
qed

lemma forget_quiet: "forget (quiet w) = quiet (forget w)"
  by (simp add: forget_def quiet_def)

text \<open>So the wired services answer and write alike with telemetry and without, but for the payloads.\<close>

lemma riderService_untold: "riderService rt t c\<lparr>tel := None\<rparr> = riderService rt None c"
  by (simp add: riderService_def NewService_def)

lemma driverService_untold: "driverService rt t rd\<lparr>dtel := None\<rparr> = driverService rt None rd"
  by (simp add: driverService_def NewDriverService_def)

lemma requested_with_telemetry:
  assumes "tel_ok t" "\<And>t d. refuse rt t d = None"
  shows "fst (Service_Requested rt (riderService rt t c) k i w) = fst (Service_Requested rt (riderService rt None c) k i w)
    \<and> quiet (forget (snd (Service_Requested rt (riderService rt t c) k i w)))
      = quiet (forget (snd (Service_Requested rt (riderService rt None c) k i w)))"
proof -
  let ?j = "job_carrier t ''orders.requested'' k w"
  have e: "Service_Requested rt (riderService rt t c) k i w = doRequested rt (riderService rt t c) ?j i w"
    "Service_Requested rt (riderService rt None c) k i w = doRequested rt (riderService rt None c) k i w"
    using assms(1) by (simp_all add: Service_Requested_eq tel_ok_def)
  show ?thesis
    using doRequested_silent [of rt "riderService rt t c" ?j i w] doRequested_carrier [OF assms(2), of c ?j i w k]
    unfolding e riderService_untold forget_quiet [symmetric] by (metis forget_quiet)
qed

lemma accepted_with_telemetry:
  assumes "tel_ok t" "\<And>t d. refuse rt t d = None"
  shows "fst (Service_Accepted rt (driverService rt t rd) k i w) = fst (Service_Accepted rt (driverService rt None rd) k i w)
    \<and> quiet (forget (snd (Service_Accepted rt (driverService rt t rd) k i w)))
      = quiet (forget (snd (Service_Accepted rt (driverService rt None rd) k i w)))"
proof -
  let ?j = "job_carrier t ''drivers.accepted'' k w"
  have e: "Service_Accepted rt (driverService rt t rd) k i w = doAccepted rt (driverService rt t rd) ?j i w"
    "Service_Accepted rt (driverService rt None rd) k i w = doAccepted rt (driverService rt None rd) k i w"
    using assms(1) by (simp_all add: Service_Accepted_eq tel_ok_def)
  show ?thesis
    using doAccepted_silent [of rt "driverService rt t rd" ?j i w] doAccepted_carrier [OF assms(2), of rd ?j i w k]
    unfolding e driverService_untold forget_quiet [symmetric] by (metis forget_quiet)
qed

end
