(* ===== verification/Examples.thy ===== *)
theory Examples
  imports Api Progress Freshness Payloads
begin

text \<open>
  Closed states for concrete instances: one order, requested by a rider and then raced for by two
  drivers, as states of the system of theory \<open>Interleaving\<close>; and the same tables as worlds for the
  service calls and the handlers. All of it runs on \<open>plain_runtime\<close>.
\<close>

section \<open>The race for an order\<close>

abbreviation the_order :: uuid where "the_order \<equiv> 7"
abbreviation the_rider :: uuid where "the_rider \<equiv> 171"
abbreviation driver_a :: uuid where "driver_a \<equiv> 21"
abbreviation driver_b :: uuid where "driver_b \<equiv> 22"

definition request_args :: "sql_arg list" where
  "request_args = [AText (uuid_string the_order), AText (uuid_string the_rider), AFloat 0, AFloat 0,
     AFloat 0, AFloat 0, AText (uuid_string 31), AText (uuid_string 32), ABytes NilPayload, AText ''t'']"

definition accept_args_of :: "uuid \<Rightarrow> sql_arg list" where
  "accept_args_of drv = [AText (uuid_string (40 + drv)), AText (uuid_string the_order), AText (uuid_string drv),
     AText (uuid_string (50 + drv)), AText (uuid_string (60 + drv)), ABytes NilPayload, AText ''t'']"

definition request_rows :: delta where
  "request_rows = \<lparr>orders = [\<lparr>r_id = the_order, r_rider_id = the_rider, r_pickup_latitude = 0,
       r_pickup_longitude = 0, r_destination_latitude = 0, r_destination_longitude = 0, r_created_at = 0\<rparr>],
     order_status_history = [\<lparr>h_id = 31, h_order_id = the_order, h_sequence = 1, h_status_id = 1\<rparr>],
     order_acceptances = [],
     outbox_events = [\<lparr>x_id = 32, x_aggregate_type = ''order'', x_aggregate_id = the_order,
       x_event_type = ''t'', x_event_version = 1, x_payload = None\<rparr>]\<rparr>"

definition accept_rows :: "uuid \<Rightarrow> delta" where
  "accept_rows drv = \<lparr>orders = [],
     order_status_history = [\<lparr>h_id = 50 + drv, h_order_id = the_order, h_sequence = 2, h_status_id = 3\<rparr>],
     order_acceptances = [\<lparr>a_id = 40 + drv, a_order_id = the_order, a_driver_id = drv\<rparr>],
     outbox_events = [\<lparr>x_id = 60 + drv, x_aggregate_type = ''order'', x_aggregate_id = the_order,
       x_event_type = ''t'', x_event_version = 1, x_payload = None\<rparr>]\<rparr>"

definition waiting_tables :: tables where
  "waiting_tables = request_rows"

definition taken_tables :: tables where
  "taken_tables = insert_rows (accept_rows driver_a) request_rows"

lemmas example_defs = request_rows_def accept_rows_def waiting_tables_def taken_tables_def

lemma start_world_sel [simp]:
  "db (start_world r) = empty_tables" "cached (start_world r) = []" "clock (start_world r) = 0"
  "rand (start_world r) = r" "drawn (start_world r) = 0" "environ (start_world r) = []"
  "logs (start_world r) = []"
  by (simp_all add: start_world_def)

definition empty_world :: world where
  "empty_world = start_world (\<lambda>n. of_nat (100 + n))"

lemma empty_world_sel [simp]:
  "db empty_world = empty_tables" "cached empty_world = []" "clock empty_world = 0"
  "environ empty_world = []" "logs empty_world = []"
  by (simp_all add: empty_world_def)

definition waiting_world :: world where
  "waiting_world = empty_world\<lparr>db := waiting_tables\<rparr>"

definition taken_world :: world where
  "taken_world = empty_world\<lparr>db := taken_tables\<rparr>"

lemma plan_request_example: "plan plain_runtime 0 requestedSQL request_args empty_tables = Inr request_rows"
  by (simp add: plan_def requested_plan_def request_args_def request_rows_def)

lemma next_sequence_example: "next_sequence waiting_tables the_order = 2"
  by (simp add: next_sequence_def example_defs)

lemma guard_example: "guard waiting_tables the_order" "\<not> guard taken_tables the_order"
  by (simp_all add: guard_def has_status_def example_defs)

lemma plan_accept_example:
  "plan plain_runtime 0 acceptedSQL (accept_args_of drv) waiting_tables = Inr (accept_rows drv)"
  by (simp add: plan_def accepted_plan_def accept_args_of_def guard_example next_sequence_example)
    (simp add: accept_rows_def)

lemma commit_request_example: "commit plain_runtime request_rows empty_tables = Inr waiting_tables"
  by (simp add: commit_def violations_def example_defs insert_rows_def)

lemma commit_accept_example:
  "commit plain_runtime (accept_rows driver_a) waiting_tables = Inr taken_tables"
  "commit plain_runtime (accept_rows driver_b) taken_tables = Inl (unique_violation history_key)"
  by (simp_all add: commit_def violations_def example_defs)

lemma request_rows_delta: "request_delta the_order request_rows"
  by (simp add: request_delta_def request_rows_def)

lemma accept_rows_delta: "accept_delta the_order (accept_rows drv)"
  by (simp add: accept_delta_def accept_rows_def)

lemma example_tables_ok [simp]: "tables_ok waiting_tables" "tables_ok taken_tables"
proof -
  show w: "tables_ok waiting_tables"
    using commit_tables_ok [OF tables_ok_empty _ commit_request_example] request_rows_delta
    by (auto simp: wf_delta_def)
  have "hist waiting_tables the_order \<noteq> []"
    by (simp add: hist_def example_defs)
  then show "tables_ok taken_tables"
    using commit_tables_ok [OF w _ commit_accept_example(1)] accept_rows_delta
    by (auto simp: wf_delta_def)
qed

lemma example_rides [simp]:
  "abs_tables waiting_tables the_order = Some (Waiting the_rider)"
  "abs_tables taken_tables the_order = Some (Taken the_rider driver_a)"
  "abs_tables empty_tables oid = None"
  by (simp_all add: abs_tables_def example_defs)

lemma example_worlds [simp]:
  "db waiting_world = waiting_tables" "cached waiting_world = []"
  "db taken_world = taken_tables" "cached taken_world = []"
  "clock waiting_world = 0" "environ waiting_world = []"
  "cache_sound rt waiting_world" "cache_sound rt taken_world" "cache_sound rt empty_world"
  by (simp_all add: waiting_world_def taken_world_def cache_sound_empty)

text \<open>The states of the race: both drivers plan on the waiting order, then both try to commit.\<close>

definition race0 :: system where
  "race0 = \<lparr>here = empty_world, pending = [], loads = [], answers = []\<rparr>"

definition race2 :: system where
  "race2 = \<lparr>here = waiting_world, pending = [], loads = [], answers = [Wrote request_rows]\<rparr>"

definition race4 :: system where
  "race4 = \<lparr>here = waiting_world, pending = [accept_rows driver_a, accept_rows driver_b], loads = [],
     answers = [Wrote request_rows]\<rparr>"

definition race5 :: system where
  "race5 = \<lparr>here = taken_world, pending = [accept_rows driver_b], loads = [],
     answers = [Wrote request_rows, Wrote (accept_rows driver_a)]\<rparr>"

lemma driver_a_wins: "wins the_order (Wrote (accept_rows driver_a))"
  by (simp add: wins_def accept_rows_def)

lemma race2_reachable: "reachable plain_runtime race2"
proof -
  let ?s1 = "race0\<lparr>pending := [request_rows]\<rparr>"
  have "reachable plain_runtime race0"
    by (rule reachable.start) (simp add: start_system_def race0_def)
  moreover have "step plain_runtime race0 (race0\<lparr>pending := pending race0 @ [request_rows]\<rparr>)"
    by (rule step.begin_statement [where stmt = requestedSQL and args = request_args])
      (simp add: race0_def plan_request_example)
  ultimately have "reachable plain_runtime ?s1"
    by (simp add: race0_def reachable.next_state)
  moreover have "step plain_runtime ?s1 (?s1\<lparr>here := (here ?s1)\<lparr>db := waiting_tables\<rparr>, pending := [] @ [],
      answers := answers ?s1 @ [Wrote request_rows]\<rparr>)"
    by (rule step.commit_statement) (simp_all add: race0_def commit_request_example)
  ultimately show ?thesis
    by (simp add: race0_def race2_def waiting_world_def reachable.next_state)
qed

lemma race4_reachable: "reachable plain_runtime race4"
proof -
  let ?s3 = "race2\<lparr>pending := [accept_rows driver_a]\<rparr>"
  have "step plain_runtime race2 (race2\<lparr>pending := pending race2 @ [accept_rows driver_a]\<rparr>)"
    by (rule step.begin_statement [where stmt = acceptedSQL and args = "accept_args_of driver_a"])
      (simp add: race2_def plan_accept_example)
  with race2_reachable have "reachable plain_runtime ?s3"
    by (simp add: race2_def reachable.next_state)
  moreover have "step plain_runtime ?s3 (?s3\<lparr>pending := pending ?s3 @ [accept_rows driver_b]\<rparr>)"
    by (rule step.begin_statement [where stmt = acceptedSQL and args = "accept_args_of driver_b"])
      (simp add: race2_def plan_accept_example)
  ultimately show ?thesis
    by (simp add: race2_def race4_def reachable.next_state)
qed

lemma race4_step: "step plain_runtime race4 race5"
proof -
  have "step plain_runtime race4 (race4\<lparr>here := (here race4)\<lparr>db := taken_tables\<rparr>, pending := [] @ [accept_rows driver_b],
      answers := answers race4 @ [Wrote (accept_rows driver_a)]\<rparr>)"
    by (rule step.commit_statement) (simp_all add: race4_def commit_accept_example)
  then show ?thesis
    by (simp add: race4_def race5_def waiting_world_def taken_world_def)
qed

lemma race5_reachable: "reachable plain_runtime race5"
  using race4_reachable race4_step by (rule reachable.next_state)

text \<open>The early check of a driver who comes late is refused.\<close>

definition taken_view :: OrderView where
  "taken_view = \<lparr>view_ID = uuid_string the_order, view_RiderID = uuid_string the_rider,
     view_PickupLatitude = 0, view_PickupLongitude = 0, view_DestinationLatitude = 0,
     view_DestinationLongitude = 0, view_Status = ''accepted'', view_CreatedAt = 0\<rparr>"

lemma taken_view_example: "select_view plain_runtime taken_tables the_order = Some taken_view"
  by (simp add: select_view_def example_defs plain_runtime_def taken_view_def)

lemma late_check_example:
  "wired_check plain_runtime None (uuid_string the_order) taken_world = (True, taken_world)"
  by (simp add: wired_check_def early_check_def Service_Get_def load_view_def Database_Get_def
      pg_query_view_def taken_view_example) (simp add: taken_view_def)

definition race6 :: system where
  "race6 = race5\<lparr>answers := answers race5 @ [Refused the_order]\<rparr>"

lemma race6_reachable: "reachable plain_runtime race6"
proof -
  have "step plain_runtime race5 (race5\<lparr>here := taken_world,
      answers := answers race5 @ (if True then [Refused the_order] else [])\<rparr>)"
    by (rule step.check_order [where c = None and ident = "uuid_string the_order"])
      (simp_all add: race5_def late_check_example)
  with race5_reachable show ?thesis
    by (simp add: race5_def race6_def reachable.next_state)
qed

section \<open>Calls and requests\<close>

definition request_example :: OrderRequestedInput where
  "request_example = \<lparr>inp_ID = uuid_string the_order, inp_RiderID = uuid_string the_rider,
     inp_PickupLatitude = 0, inp_PickupLongitude = 0, inp_DestinationLatitude = 0,
     inp_DestinationLongitude = 0, inp_StatusHistoryID = [], inp_OutboxID = [], inp_Payload = NilPayload,
     inp_EventType = []\<rparr>"

lemma request_example_input: "request_input plain_runtime request_example the_order the_rider"
  by (simp add: request_input_def request_example_def)

definition accept_example :: "uuid \<Rightarrow> AcceptedInput" where
  "accept_example drv = \<lparr>acc_OrderID = uuid_string the_order, acc_DriverID = uuid_string drv,
     acc_AcceptanceID = uuid_string (40 + drv), acc_StatusHistoryID = uuid_string (50 + drv),
     acc_OutboxID = uuid_string (60 + drv), acc_Payload = NilPayload, acc_EventType = []\<rparr>"

lemma accept_example_input: "accept_input plain_runtime (accept_example drv) the_order drv"
  by (simp add: accept_input_def accept_example_def)

text \<open>Requests of the rider, with the header \<open>rider_id\<close> as given.\<close>

definition rider_request :: "string \<Rightarrow> string \<Rightarrow> request" where
  "rider_request m header = \<lparr>rq_method = m, rq_path = ''/api/v1/orders'', rq_pattern = [],
     rq_headers = [(''rider_id'', header)], rq_params = [(''orderId'', uuid_string the_order)],
     rq_body = [], rq_carrier = [], rq_has_telemetry = False\<rparr>"

definition get_example :: request where
  "get_example = rider_request ''GET'' (uuid_string the_rider)"

definition post_example :: request where
  "post_example = rider_request ''POST'' (uuid_string the_rider)"

definition body_example :: requestInput where
  "body_example = \<lparr>req_ID = uuid_string the_order, req_RiderID = [], req_PickupLatitude = 0,
     req_PickupLongitude = 0, req_DestinationLatitude = 0, req_DestinationLongitude = 0\<rparr>"

lemma rider_request_sel [simp]:
  "GetHeader (rider_request m h) ''rider_id'' = h"
  "Param (rider_request m h) ''orderId'' = uuid_string the_order"
  "rq_method (rider_request m h) = m"
  by (simp_all add: GetHeader_def Param_def rider_request_def)

text \<open>The rider's id in upper case: the same UUID, another text.\<close>

definition upper_rider :: string where
  "upper_rider = ''00000000-0000-0000-0000-0000000000AB''"

lemma upper_rider_parse: "rfc_parse upper_rider = Some the_rider"
  unfolding upper_rider_def by code_simp

lemma the_rider_text: "uuid_string the_rider = ''00000000-0000-0000-0000-0000000000ab''"
  by code_simp

section \<open>A wiring of the API\<close>

text \<open>
  Libraries that do as little as they may: the instrumentation runs the handler, the entropy is zeros,
  and the routes are found for the path of the orders only.
\<close>

definition plain_wiring :: wiring where
  "plain_wiring = \<lparr>wi_runtime = plain_runtime, wi_bind = (\<lambda>_. Inr body_example),
     wi_riders = Some plain_worker, wi_drivers = Some plain_worker, wi_cache = Some memory_cache,
     wi_instrumentation = Some (\<lambda>h. h), wi_entropy = (\<lambda>w. (Some (replicate 16 0), w)),
     wi_find_route = (\<lambda>routes m p. if p = ''/api/v1/orders'' then Matched p [] else NoRoute),
     wi_probe = (\<lambda>p. Done)\<rparr>"

lemma plain_wiring_ok [simp]: "wiring_ok plain_wiring"
proof -
  have "instrumentation_ok (\<lambda>h. h)"
    unfolding instrumentation_ok_def
  proof
    fix c :: gin
    have "c\<lparr>g_request := (g_request c)\<lparr>rq_carrier := rq_carrier (g_request c)\<rparr>\<rparr> = c" by simp
    then show "\<exists>k. \<forall>h. h c = h (c\<lparr>g_request := (g_request c)\<lparr>rq_carrier := k\<rparr>\<rparr>)" by metis
  qed
  then show ?thesis
    by (simp add: wiring_ok_def plain_wiring_def tel_ok_def telemetry_ok_def
        entropy_ok_def well_behaved_def)
qed

lemma plain_wiring_runtime [simp]: "wi_runtime plain_wiring = plain_runtime"
  by (simp add: plain_wiring_def)

section \<open>Services that are never called\<close>

definition accepted_never :: accepted_port where
  "accepted_never carrier i w = (Inl (errorf ''called''), w)"

definition requested_never :: requested_port where
  "requested_never carrier i w = (Inl (errorf ''called''), w)"

definition counted_drivers :: drivers_service where
  "counted_drivers = NewDriverService (Some plain_worker)
     (\<lambda>i w. (Inl (HTTPErr (NewError 409 ''ORDER_NOT_ACCEPTABLE'' ''order is not in the requested state'')), w)) None"

definition counted_riders :: orders_service where
  "counted_riders = NewService (Some plain_worker)
     \<lparr>repo_Requested = (\<lambda>i w. (Inl (errorf ''down''), w)), repo_Get = (\<lambda>i w. (Inl (errorf ''down''), w))\<rparr> None"

text \<open>An order reader that always says \<open>accepted\<close>.\<close>

definition taken_reader :: get_port where
  "taken_reader ident w = (Inr (zero_OrderView\<lparr>view_Status := ''accepted''\<rparr>), w)"

lemma accept_example_ids [simp]:
  "rfc_parse (acc_OrderID (accept_example drv)) = Some the_order"
  "rfc_parse (acc_DriverID (accept_example drv)) = Some drv"
  by (simp_all add: accept_example_def)

lemma counted_drivers_repo: "repo_Accepted counted_drivers i w =
    (Inl (HTTPErr (NewError 409 ''ORDER_NOT_ACCEPTABLE'' ''order is not in the requested state'')), w)"
  by (simp add: counted_drivers_def NewDriverService_def)

lemma counted_refusal: "fst (doAccepted plain_runtime counted_drivers [] (accept_example driver_b) taken_world)
    = Inl (HTTPErr order_not_acceptable)"
proof -
  have e: "early_check counted_drivers oid w = (False, w)" for oid w
    by (simp add: early_check_def counted_drivers_def NewDriverService_def)
  have "accepted_body plain_runtime counted_drivers [] (accept_example driver_b) taken_world
      = ((''error'', Inl (HTTPErr order_not_acceptable)), taken_world)"
    by (simp add: accepted_body_def e Let_def counted_drivers_repo accepted_error_def order_not_acceptable_def)
  then show ?thesis by (simp add: doAccepted_def)
qed

section \<open>A server with calls\<close>

definition driver_request :: "uuid \<Rightarrow> request" where
  "driver_request drv = \<lparr>rq_method = ''PUT'', rq_path = ''/api/v1/orders'', rq_pattern = [],
     rq_headers = [(''driver_id'', uuid_string drv)], rq_params = [(''orderId'', uuid_string the_order)],
     rq_body = [], rq_carrier = [], rq_has_telemetry = False\<rparr>"

lemma driver_request_sel [simp]:
  "GetHeader (driver_request drv) ''driver_id'' = uuid_string drv"
  "Param (driver_request drv) ''orderId'' = uuid_string the_order"
  by (simp_all add: GetHeader_def Param_def driver_request_def)

definition example_bind :: "string \<Rightarrow> string + requestInput" where
  "example_bind = (\<lambda>_. Inr body_example)"

definition idle_server :: server where
  "idle_server = \<lparr>sys = race0, calls = [], sent = []\<rparr>"

lemma idle_server_serving: "serving plain_runtime example_bind idle_server"
  by (rule serving.idle) (simp_all add: idle_server_def start_system_def race0_def)

lemma post_example_arrives:
  obtains i w where "request_arrive plain_runtime example_bind post_example empty_world = (Inr i, w)"
    "inp_ID i = uuid_string the_order" "inp_RiderID i = uuid_string the_rider"
proof -
  have p: "post_ids post_example body_example empty_world
      = (uuid_string the_order, uuid_string the_rider, empty_world)"
    by (simp add: post_ids_def post_example_def body_example_def)
  have "\<exists>i w. request_arrive plain_runtime example_bind post_example empty_world = (Inr i, w)
      \<and> inp_ID i = uuid_string the_order \<and> inp_RiderID i = uuid_string the_rider"
    by (simp add: request_arrive_def example_bind_def p request_ready_def new_uuid_def Let_def post_input_def)
  then show thesis using that by blast
qed

text \<open>The rider's request is served and answered 201, then the driver's.\<close>

lemma waiting_server:
  obtains s i resp where "serving plain_runtime example_bind s" "calls s = []"
    "sent s = [Job_reply (Post post_example i) resp]" "rs_status resp = 201"
    "abs_tables (db (here (sys s))) the_order = Some (Waiting the_rider)"
proof -
  obtain i w where a: "request_arrive plain_runtime example_bind post_example (here (sys idle_server)) = (Inr i, w)"
    "inp_ID i = uuid_string the_order" "inp_RiderID i = uuid_string the_rider"
    using post_example_arrives by (auto simp: idle_server_def race0_def)
  have ok: "sys_ok plain_runtime (sys idle_server)"
    using serving_ok(1) [OF idle_server_serving] by simp
  have n: "abs_tables (db (here (sys idle_server))) the_order = None" "sent idle_server = []" "calls idle_server = []"
    by (simp_all add: idle_server_def race0_def)
  note alone = post_alone [OF plain_runtime_ok _ ok a(1) _ _ n(1), of the_rider, unfolded a(2,3), simplified]
  obtain s' where "(server_step plain_runtime example_bind)\<^sup>*\<^sup>* idle_server s'" "calls s' = calls idle_server"
    "sent s' = sent idle_server @ [Job_reply (Post post_example i)
       \<lparr>rs_status = 201, rs_body = OrderOutput_json (fmt_float plain_runtime) (output_of_input i)\<rparr>]"
    "abs_tables (db (here (sys s'))) = (abs_tables (db (here (sys idle_server))))(the_order \<mapsto> Waiting the_rider)"
    using solo_reaches [OF post_arrives alone] by blast
  then show thesis
    using that [of s' i] serving_steps [OF idle_server_serving] n by simp
qed

lemma taken_server:
  obtains s i1 resp1 i2 resp2 where "serving plain_runtime example_bind s" "calls s = []"
    "sent s = [Job_reply (Post post_example i1) resp1, Job_reply (Accept (driver_request driver_a) i2) resp2]"
    "rs_status resp1 = 201" "rs_status resp2 = 201"
proof -
  obtain s i1 resp1 where s: "serving plain_runtime example_bind s" "calls s = []"
    "sent s = [Job_reply (Post post_example i1) resp1]" "rs_status resp1 = 201"
    "abs_tables (db (here (sys s))) the_order = Some (Waiting the_rider)"
    by (rule waiting_server)
  have ok: "sys_ok plain_runtime (sys s)"
    using serving_ok(1) [OF s(1)] by simp
  note alone = accept_alone [OF plain_runtime_ok _ ok _ _ _ _ s(5), of "driver_request driver_a" driver_a, simplified]
  obtain s' i2 where "(server_step plain_runtime example_bind)\<^sup>*\<^sup>* s s'" "calls s' = calls s"
    "sent s' = sent s @ [Job_reply (Accept (driver_request driver_a) i2)
       \<lparr>rs_status = 201, rs_body = DriverOrderOutput_json \<lparr>dout_ID = uuid_string the_order\<rparr>\<rparr>]"
    using solo_reaches [OF accept_arrives alone] by blast
  then show thesis
    using that [of s'] serving_steps [OF s(1)] s by simp
qed

lemma read_server:
  obtains s resp where "serving plain_runtime example_bind s"
    "Read_reply get_example (uuid_string the_order) resp \<in> set (sent s)" "rs_status resp = 200"
proof -
  obtain s where s: "serving plain_runtime example_bind s" "calls s = []"
    "abs_tables (db (here (sys s))) the_order = Some (Waiting the_rider)"
    by (rule waiting_server)
  have ok: "tables_ok (db (here (sys s)))"
    using serving_ok(1) [OF s(1)] by (simp add: sys_ok_def)
  obtain v where v: "select_view plain_runtime (db (here (sys s))) the_order = Some v"
    using select_view_None [OF ok plain_runtime_ok, of the_order] s(3) by auto
  then have rider: "view_RiderID v = uuid_string the_rider"
    using select_view_ride [OF ok plain_runtime_ok v] s(3) by auto
  define s1 where "s1 = admit get_example (Reading get_example) (get_arrive plain_runtime get_example (here (sys s))) s"
  have s1: "calls s1 = [] @ Reading get_example (uuid_string the_order) # []" "sys s1 = sys s"
    by (simp_all add: s1_def admit_def get_arrive_def get_example_def s(2))
  have "read_result plain_runtime (sys s1) (uuid_string the_order) (Inr v)"
    using v by (simp add: read_result_def s1(2))
  from read_order [OF s1(1) this] have "\<exists>s2. move plain_runtime s1 s2 \<and> Read_reply get_example (uuid_string the_order)
      (fst (get_answered plain_runtime get_example (Inr v) (here (sys s1)))) \<in> set (sent s2)"
    by fastforce
  then obtain s2 where s2: "move plain_runtime s1 s2" "Read_reply get_example (uuid_string the_order)
      (fst (get_answered plain_runtime get_example (Inr v) (here (sys s1)))) \<in> set (sent s2)" by blast
  have "serving plain_runtime example_bind s1"
    unfolding s1_def by (rule serve_next [OF s(1) get_arrives])
  then have "serving plain_runtime example_bind s2"
    using serve_next call_moves [OF s2(1)] by blast
  then show thesis
    using that s2(2) rider by (simp add: get_answered_def get_example_def)
qed

lemma refused_server:
  obtains s resp where "serving plain_runtime example_bind s"
    "Refused_reply (driver_request driver_b) resp \<in> set (sent s)"
proof -
  obtain s i1 resp1 i2 resp2 where s: "serving plain_runtime example_bind s" "calls s = []"
    "sent s = [Job_reply (Post post_example i1) resp1, Job_reply (Accept (driver_request driver_a) i2) resp2]"
    "rs_status resp2 = 201"
    by (rule taken_server)
  note ok = serving_ok [OF s(1) plain_runtime_ok foreign_errors_plain]
  have "reply_ok plain_runtime (sys s) (Job_reply (Accept (driver_request driver_a) i2) resp2)"
    using ok(2) s(3) by (simp add: srv_ok_def)
  then obtain r d where t: "abs_tables (db (here (sys s))) the_order = Some (Taken r d)"
    using s(4) wins_once(3) [OF ok(1)] by fastforce
  have tok: "tables_ok (db (here (sys s)))" using ok(1) by (simp add: sys_ok_def)
  obtain v where v: "select_view plain_runtime (db (here (sys s))) the_order = Some v"
    using select_view_None [OF tok plain_runtime_ok, of the_order] t by auto
  then have st: "view_Status v = ''accepted''"
    using select_view_ride [OF tok plain_runtime_ok v] t by auto
  let ?req = "driver_request driver_b"
  obtain i w where a: "accept_arrive plain_runtime ?req (here (sys s)) = (Inr i, w)"
    "acc_OrderID i = uuid_string the_order" "db w = db (here (sys s))" "cached w = cached (here (sys s))"
    by (rule accept_arrive_input [of plain_runtime ?req the_order driver_b "here (sys s)"]) simp_all
  define s1 where "s1 = admit ?req (Checking ?req) (accept_arrive plain_runtime ?req (here (sys s))) s"
  have s1: "calls s1 = [] @ Checking ?req i # []" "here (sys s1) = w"
    by (simp_all add: s1_def admit_def s(2) a(1))
  have r: "read_result plain_runtime (sys s1) (acc_OrderID i) (Inr v)"
    using v by (simp add: read_result_def s1(2) a)
  have e: "accept_checked (rq_carrier ?req) i (Inr v) (here (sys s1)) = Inl (HTTPErr order_not_acceptable)"
    by (simp add: accept_checked_def st)
  have "\<exists>s2 resp. move plain_runtime s1 s2 \<and> Refused_reply ?req resp \<in> set (sent s2)"
    using refuse [OF s1(1) r e] by fastforce
  then obtain s2 resp where s2: "move plain_runtime s1 s2" "Refused_reply ?req resp \<in> set (sent s2)" by blast
  have "serving plain_runtime example_bind s1"
    unfolding s1_def by (rule serve_next [OF s(1) accept_arrives])
  then have "serving plain_runtime example_bind s2"
    using serve_next call_moves [OF s2(1)] by blast
  then show thesis using that s2(2) by blast
qed

lemma racing_server:
  obtains s i d where "serving plain_runtime example_bind s"
    "Planned (Accept (driver_request driver_b) i) d \<in> set (calls s)"
    "commit plain_runtime d (db (here (sys s))) = Inl (unique_violation history_key)"
proof -
  obtain s where s: "serving plain_runtime example_bind s"
    "abs_tables (db (here (sys s))) the_order = Some (Waiting the_rider)"
    by (rule waiting_server)
  obtain s' i d where "serving plain_runtime example_bind s'"
    "calls s' = calls s @ [Planned (Accept (driver_request driver_b) i) d]"
    "commit plain_runtime d (db (here (sys s'))) = Inl (unique_violation history_key)"
    by (rule two_drivers_race [OF plain_runtime_ok _ foreign_errors_plain s(1), of "driver_request driver_a" the_order
          driver_a "driver_request driver_b" driver_b the_rider])
      (use s(2) in simp_all)
  then show thesis using that [of s' i d] by simp
qed

lemma post_example_created:
  assumes "db w = empty_tables" "wi_riders wi = Some plain_worker" "wi_runtime wi = plain_runtime"
    and "wi_bind wi = example_bind"
  shows "rs_status (fst (Handler_request (wi_runtime wi) (wi_bind wi) (Service_Requested (wi_runtime wi)
      (riderService (wi_runtime wi) (wi_riders wi) (wi_cache wi)))
      (post_example\<lparr>rq_params := ps, rq_pattern := pat, rq_carrier := k, rq_has_telemetry := b\<rparr>) w)) = 201"
proof -
  let ?req = "post_example\<lparr>rq_params := ps, rq_pattern := pat, rq_carrier := k, rq_has_telemetry := b\<rparr>"
  let ?i = "post_input body_example (uuid_string the_order) (uuid_string the_rider)"
  have h: "GetHeader ?req ''rider_id'' = uuid_string the_rider"
    by (simp add: GetHeader_def post_example_def rider_request_def)
  have p: "post_ids ?req body_example w = (uuid_string the_order, uuid_string the_rider, w)"
    unfolding post_ids_def h by (simp add: body_example_def)
  have i: "request_input plain_runtime ?i the_order the_rider"
    by (simp add: request_input_def post_input_def)
  obtain w1 where s: "Service_Requested plain_runtime (riderService plain_runtime (Some plain_worker) (wi_cache wi))
      k ?i w = (Inr (output_of_input ?i), w1)"
    by (rule rider_request_new [OF plain_runtime_ok _ _ _ i, of w "Some plain_worker" "wi_cache wi" k])
      (simp_all add: assms(1) tel_ok_def)
  show ?thesis
    unfolding assms
    using s Handler_request_bound [where bind = example_bind and req = ?req and w = w, OF _ p, of plain_runtime]
    by (simp add: example_bind_def)
qed

end
