(* ===== verification/Spec2Isabelle.thy ===== *)
theory Spec2Isabelle
  imports Examples
begin

text \<open>
  A model of \<open>fast-platform\<close>, the HTTP API of a ride-hailing service in Go, with the theorems that make it
  correct. A rider posts an order; a driver accepts it; a rider reads it. The API keeps no state of its
  own: orders, their status history, acceptances and an outbox of events are append-only tables of a
  PostgreSQL database, written by one SQL statement per request, and reads go through a cache.

  \<^bold>\<open>The program and the theories.\<close> Every definition is named after the Go function or type it models,
  with a prefix where the name is taken (\<open>Env_\<close>, \<open>Service_\<close>, \<open>Handler_\<close>, \<open>Database_\<close>).

  \<^item> \<open>Prelude\<close>: collections of rewrite rules, 64-bit wrap-around, helper lemmas. \<open>GoText\<close>, \<open>Json\<close>, \<open>Uuid\<close>: what
    the code uses of \<open>strings\<close>, \<open>strconv\<close>, \<open>encoding/json\<close> and the text of a UUID. Go strings are byte lists.
  \<^item> \<open>Env\<close>, \<open>Duration\<close> (\<open>env/env.go\<close>): typed environment variables; \<open>time.ParseDuration\<close>, \<open>Duration.String\<close> and
    \<open>fmt.Sscanf\<close> are written out. \<open>DurationText\<close>: every duration is read from its text.
  \<^item> \<open>PlatformErrors\<close> (\<open>platform/platform.go\<close>): \<open>HTTPError\<close> in a tree of wrapped errors, \<open>errors.As\<close>, \<open>HasCode\<close>,
    \<open>MapError\<close>. \<open>Http\<close>: requests, responses, \<open>AbortError\<close>.
  \<^item> \<open>Config\<close> (\<open>platform/platform.go\<close>): \<open>NewConfig\<close>, \<open>csvEnv\<close>, \<open>Validate\<close>.
  \<^item> \<open>Middleware\<close> (\<open>platform/middleware.go\<close>): the gin context, \<open>observedWriter\<close>, and one middleware each for
    telemetry, request ids, security headers, CORS and recovery. \<open>Router\<close> (\<open>platform/platform.go\<close>):
    \<open>NewRouter\<close> and how a request is served by the chain. \<open>Responses\<close>: what every response of the router has.
  \<^item> \<open>Process\<close> (\<open>platform/process.go\<close>, \<open>NewServer\<close> and \<open>Run\<close>, \<open>cmd/platform/main.go\<close>): start, warm-up, server,
    consumer loops, exit code.
  \<^item> \<open>Events\<close> (\<open>events/events.go\<close>, \<open>platform/context.go\<close>): the two events, their JSON, and the trace context that
    travels in a payload.
  \<^item> \<open>Models\<close>, \<open>World\<close>: the structs of \<open>internal/orders\<close> and \<open>internal/drivers\<close>, the rows of the tables, and the
    state that the operations pass on: tables, cache, environment, clock, random numbers, log and metrics.
  \<^item> \<open>Store\<close> (\<open>repository.go\<close> of both packages): the statements \<open>requestedSQL\<close>, \<open>acceptedSQL\<close> and \<open>viewSQL\<close>. A
    statement is planned on the tables it sees (\<open>plan\<close>) and committed on the tables there are then
    (\<open>commit\<close>). \<open>pg_DB\<close> is the database handle on which \<open>NewRepository\<close> of both packages builds.
  \<^item> \<open>Telemetry\<close>: \<open>WorkerContext\<close> as the services use it; the job runs in a context of its own, whose carrier is
    \<open>job_carrier\<close>. \<open>Cache\<close>: \<open>GetOrSetContext\<close> as a contract, with two caches that keep it.
  \<^item> \<open>Orders\<close>, \<open>Drivers\<close> (\<open>internal/orders\<close>, \<open>internal/drivers\<close>): repository, service and handlers of a package.
  \<^item> \<open>Api\<close> (\<open>cmd/platform/main.go\<close>): services, routes and router put together; \<open>api\<close> is the way of a request
    through all of it, and \<open>run\<close> listens with it.
  \<^item> \<open>Calls\<close> (\<open>handler.go\<close> and \<open>service.go\<close> of both packages): the handlers cut where they wait for the database or
    the cache. \<open>Server\<close>: calls in flight, moved one stage at a time in any order, and the replies sent.
    \<open>Progress\<close>: what the server gets done, and which answers there are (\<open>documented\<close>).
  \<^item> \<open>Lifecycle\<close>, \<open>Rides\<close>, \<open>OrdersCorrect\<close>, \<open>RiderService\<close>, \<open>RiderRequests\<close>, \<open>DriversCorrect\<close>, \<open>Interleaving\<close>: the
    lemmas behind the properties below. \<open>Freshness\<close>: how old a cached answer may be. \<open>Payloads\<close>: what the trace
    context of a call decides. \<open>Examples\<close>: closed states for the instances of the properties.

  \<^bold>\<open>The specification.\<close> \<open>Rides\<close> has it: a map from order ids to rides, a ride waiting for a driver or taken by
  one, with two partial operations, \<open>spec_request\<close> and \<open>spec_accept\<close>, and an order in which rides advance.
  \<open>abs_tables\<close> reads the map off the tables. \<open>Lifecycle\<close> has the invariant \<open>tables_ok\<close> and shows that a planned statement keeps it on
  whatever tables it is committed. \<open>Interleaving\<close> is a step relation over any number of requests: planning and
  committing a statement are two steps with others in between, so are loading and storing a cached view.
  \<open>Server\<close> puts the HTTP calls on top: \<open>move\<close> is one stage of one call, \<open>server_step\<close> also has calls that
  arrive and what the system does by itself, \<open>serving\<close> are the states of all runs. Its invariant \<open>srv_ok\<close>
  ties every reply that was sent to what was committed. \<open>solo\<close> are the moves of one call while the others
  rest, and \<open>within k\<close> says that every run of them reaches its end in at most \<open>k\<close> moves.

  \<^bold>\<open>Interfaces.\<close> Locales: \<open>statement\<close> (what both statements promise), \<open>view_cache\<close>, \<open>orders_repository\<close> and
  \<open>cached_orders\<close> (reads of an order, direct and cached), \<open>order_reader\<close> (what the early check of the drivers
  service needs of it), \<open>safe_handler\<close> (what the API needs of a handler). Each is interpreted on the model of
  the code that provides it; the cache itself is a library's, and \<open>view_cache\<close> is interpreted on the
  \<open>memoryCache\<close> of the tests and on a cache whose entries expire. The theorems about the services hold for no
  cache or any cache of the contract (\<open>known_cache\<close>).

  \<^bold>\<open>Parameters.\<close> Code that is not in the repository is an argument: \<open>runtime\<close> (\<open>uuid.Parse\<close>, the casts of
  PostgreSQL, which violated constraint the server reports, \<open>refuse\<close> and \<open>lost_read\<close> for statements and reads
  that fail for the database's own reasons), the cache (\<open>view_cache\<close>, and \<open>keeps_ttl\<close> where its time to live
  matters),
  \<open>telemetry.Middleware\<close> and \<open>WorkerContext\<close>, \<open>ShouldBindJSON\<close>, gin's routing, \<open>godotenv.Load\<close>, \<open>crypto/rand\<close>,
  the W3C propagator, the probe handlers, and what opening a library gives. The hypotheses
  \<open>runtime_ok\<close>, \<open>worker_ok\<close>, \<open>instrumentation_ok\<close>, \<open>entropy_ok\<close>, \<open>wiring_ok\<close> say what the code relies on.
  The schema is kept in another repository: \<open>commit\<close> assumes the three constraints whose names the Go code
  compares with (\<open>orders_pkey\<close>, \<open>order_status_history_order_id_sequence_key\<close>, \<open>uq_order_acceptances_order\<close>).

  \<^bold>\<open>Bounds.\<close> \<open>int\<close> and \<open>time.Duration\<close> are integers in the range of \<open>int64\<close>, with \<open>wrap64\<close> where the code can
  overflow; \<open>float64\<close> coordinates are their 64 bits, since they are only moved; the one float computation, in
  \<open>ParseDuration\<close>, rounds to 53 bits. No definition uses fuel; loops end by a measure.

  \<^bold>\<open>The properties\<close>, by theory. Here: C1 to C5 the race of drivers for an order, C1 and C5 for the HTTP calls of
  the server; C6 to C10 the use cases and statements against the specification; C11 to C13, C16 reading an
  order; C32 malformed requests; C21, C22, C40 telemetry; C14, C15 the whole API; C17 the server against the
  specification; C24 the server against the handlers; C28 the end of every call; C30 from the router to the
  handlers. \<open>Http\<close>: C18, C19. \<open>PlatformErrors\<close>: C20. \<open>Middleware\<close>: C23. \<open>Responses\<close>: C25, C26. \<open>Events\<close>: C27.
  \<open>Config\<close>: C29, C31. \<open>DurationText\<close>: C33. \<open>Duration\<close>: C34. \<open>Env\<close>: C35. \<open>Process\<close>: C36 to C39.

  \<^bold>\<open>Not modelled.\<close> Trace spans and their attributes, the values of histograms, and the bytes of a JSON text (a
  body is a JSON value) have no effect the code depends on; cancellation of a request's context reaches only
  the libraries. The calls of \<open>Server\<close> run without telemetry, which changes the trace context in the payload
  of an event and nothing else (C21). When a cache drops an entry is its own business: the contract allows
  it at any call, and \<open>Interleaving\<close> has a step for it. The
  load tests (\<open>k6\<close>), the build files and the tests are not part of the program. Every function of the Go
  code has its definition.
\<close>

section \<open>Many requests at once\<close>

text \<open>C1: whatever calls are in flight and however they interleave, at most one driver is answered 201 for an
  order and at most one request creates it. A driver who was answered 201 is the one the tables
  record as the order's driver from then on, and a 201 for a request means that the order is theirs.\<close>

theorem one_driver_per_order:
  assumes "runtime_ok rt" "foreign_errors rt" "serving rt bnd s"
  shows "length (filter (gives rt oid) (sent s)) \<le> 1 \<and> length (filter (creates rt oid) (sent s)) \<le> 1
    \<and> (\<forall>req i resp. Job_reply (Accept req i) resp \<in> set (sent s) \<and> rs_status resp = 201 \<longrightarrow>
         (\<exists>o1 r drv. pg_uuid rt (Param req ''orderId'') = Some o1 \<and> pg_uuid rt (GetHeader req ''driver_id'') = Some drv
            \<and> abs_tables (db (here (sys s))) o1 = Some (Taken r drv)))
    \<and> (\<forall>req i resp. Job_reply (Post req i) resp \<in> set (sent s) \<and> rs_status resp = 201 \<longrightarrow>
         (\<exists>o1 rd. pg_uuid rt (inp_ID i) = Some o1 \<and> pg_uuid rt (inp_RiderID i) = Some (rider rd)
            \<and> abs_tables (db (here (sys s))) o1 = Some rd))"
proof -
  note ok = serving_ok [OF assms(3,1,2)]
  note once = wins_once [OF ok(1)]
  have r: "\<forall>x \<in> set (sent s). reply_ok rt (sys s) x"
    and n: "length (filter (gives rt oid) (sent s)) \<le> length (filter (wins oid) (answers (sys s)))"
      "length (filter (creates rt oid) (sent s)) \<le> length (filter (makes oid) (answers (sys s)))"
    using ok(2) by (simp_all add: srv_ok_def)
  show ?thesis
    using n once(1,2) [of oid] order_trans by (intro conjI allI impI; use r once(3,4) in \<open>fastforce\<close>)
qed

theorem one_driver_per_order_witness:
  "\<exists>s r. serving plain_runtime example_bind s \<and> length (filter (gives plain_runtime the_order) (sent s)) = 1
     \<and> abs_tables (db (here (sys s))) the_order = Some (Taken r driver_a)"
proof -
  obtain s i1 resp1 i2 resp2 where s: "serving plain_runtime example_bind s"
    "sent s = [Job_reply (Post post_example i1) resp1, Job_reply (Accept (driver_request driver_a) i2) resp2]"
    "rs_status resp1 = 201" "rs_status resp2 = 201"
    by (rule taken_server)
  have "length (filter (gives plain_runtime the_order) (sent s)) = 1"
    by (simp add: s(2,4))
  moreover have "\<exists>o1 r drv. pg_uuid plain_runtime (Param (driver_request driver_a) ''orderId'') = Some o1
      \<and> pg_uuid plain_runtime (GetHeader (driver_request driver_a) ''driver_id'') = Some drv
      \<and> abs_tables (db (here (sys s))) o1 = Some (Taken r drv)"
    using one_driver_per_order [OF plain_runtime_ok foreign_errors_plain s(1)] s(2,4) by (metis list.set_intros)
  ultimately show ?thesis using s(1) by auto
qed

text \<open>C2: in every reachable state an order id has no row at all, or one order, its first status and one
  event, or in addition one acceptance, the accepted status with the next sequence and a second
  event: the order, its history, its acceptance and the outbox never disagree.\<close>

theorem tables_in_step:
  assumes "runtime_ok rt" "reachable rt s"
  shows "row_counts (db (here s)) oid \<in> {(0, [], 0, 0), (1, [(1, 1)], 0, 1), (1, [(1, 1), (2, 3)], 1, 2)}"
  using reachable_ok [OF assms(2,1)] by (auto simp: sys_ok_def tables_ok_def order_ok_def)

theorem tables_in_step_witness:
  "reachable plain_runtime race5 \<and> row_counts (db (here race5)) the_order
     \<in> {(0, [], 0, 0), (1, [(1, 1)], 0, 1), (1, [(1, 1), (2, 3)], 1, 2)}"
  using tables_in_step [OF plain_runtime_ok race5_reachable] race5_reachable by blast

text \<open>C3: the early check of the drivers service, which may read an old view from the cache, never
  refuses a driver wrongly, whatever calls are in flight: a driver it refused is answered 409, the order is
  taken by then and stays taken, so that the guard of the statement would have refused as well.\<close>

theorem refusal_is_final:
  assumes "runtime_ok rt" "foreign_errors rt" "serving rt bnd s" "Refused_reply req resp \<in> set (sent s)"
  shows "resp = \<lparr>rs_status = 409, rs_body = error_envelope ''ORDER_NOT_ACCEPTABLE''
           ''order is not in the requested state''\<rparr>
    \<and> (\<exists>oid r d. pg_uuid rt (Param req ''orderId'') = Some oid
          \<and> abs_tables (db (here (sys s))) oid = Some (Taken r d) \<and> \<not> guard (db (here (sys s))) oid)"
proof -
  note ok = serving_ok [OF assms(3,1,2)]
  have "reply_ok rt (sys s) (Refused_reply req resp)"
    using ok(2) assms(4) unfolding srv_ok_def by blast
  moreover have "tables_ok (db (here (sys s)))" using ok(1) by (simp add: sys_ok_def)
  ultimately show ?thesis using guard_abs by auto
qed

theorem refusal_is_final_witness:
  "\<exists>s r d. serving plain_runtime example_bind s \<and> sent s \<noteq> []
     \<and> abs_tables (db (here (sys s))) the_order = Some (Taken r d) \<and> \<not> guard (db (here (sys s))) the_order"
proof -
  obtain s resp where s: "serving plain_runtime example_bind s"
    "Refused_reply (driver_request driver_b) resp \<in> set (sent s)"
    by (rule refused_server)
  then have "sent s \<noteq> []" by auto
  then show ?thesis
    using refusal_is_final [OF plain_runtime_ok foreign_errors_plain s] s(1) by auto
qed

text \<open>C4: a driver's call that passed the check and the guard and then lost the race is refused by one of two
  unique constraints, whatever else is in flight. Which of them the server reports decides the answer:
  \<open>ORDER_ALREADY_ACCEPTED\<close> for the constraint the service looks for, and an internal error for the other
  one. In both cases the order belongs to another driver's acceptance, which stays.\<close>

theorem loser_is_told:
  assumes "runtime_ok rt" "\<And>t d. refuse rt t d = None" "lift_pg rt = PgErr"
    and "serving rt bnd s" "Planned (Accept req i) d \<in> set (calls s)" "commit rt d (db (here (sys s))) = Inl e"
  shows "\<exists>c \<in> {history_key, acceptance_key}. e = unique_violation c
    \<and> fst (job_answered rt (Accept req i) (Inl (lift_pg rt e)) w) =
        (if c = acceptance_key
         then \<lparr>rs_status = 409, rs_body = error_envelope ''ORDER_ALREADY_ACCEPTED''
                 ''order has already been accepted''\<rparr>
         else \<lparr>rs_status = 500, rs_body = error_envelope ''INTERNAL_ERROR'' ''internal server error''\<rparr>)
    \<and> (\<exists>oid r drv. pg_uuid rt (Param req ''orderId'') = Some oid
         \<and> abs_tables (db (here (sys s))) oid = Some (Taken r drv))"
proof -
  have "foreign_errors rt" using assms(3) by (simp add: foreign_errors_def)
  note ok = serving_ok [OF assms(4,1) this]
  obtain oid where oid: "accept_delta oid d" "pg_uuid rt (Param req ''orderId'') = Some oid"
    "hist (db (here (sys s))) oid \<noteq> []"
    by (rule planned_accept_delta [OF ok assms(2,5,6)])
  have t: "tables_ok (db (here (sys s)))" using ok(1) by (simp add: sys_ok_def)
  have v: "violations d (db (here (sys s))) = [history_key, acceptance_key]"
    using violations_accept_ok [OF t oid(1)] assms(2,6) by (auto simp: commit_def split: if_splits)
  have "\<not> length (hist (db (here (sys s))) oid) < 2"
    using violations_accept_ok [OF t oid(1)] v by (auto split: if_splits)
  then obtain r drv where "abs_tables (db (here (sys s))) oid = Some (Taken r drv)"
    using abs_tables_hist(3) [OF t, of oid] oid(3) by (cases rule: order_ok_cases [OF t, of oid]) auto
  moreover define c where "c = reported rt [history_key, acceptance_key]"
  have "c \<in> {history_key, acceptance_key}"
    using runtime_okD(5) [OF assms(1), of "[history_key, acceptance_key]"] by (simp add: c_def)
  moreover have "e = unique_violation c"
    using assms(2,6) by (simp add: commit_def v c_def)
  ultimately show ?thesis
    using oid(2)
    by (intro bexI [of _ c])
      (auto simp: assms(3) accept_answered_def accepted_error_def unique_violation_def order_already_accepted_def
        AbortError_response)
qed

theorem loser_is_told_witness:
  "\<exists>s i d. serving plain_runtime example_bind s \<and> Planned (Accept (driver_request driver_b) i) d \<in> set (calls s)
     \<and> commit plain_runtime d (db (here (sys s))) = Inl (unique_violation history_key)
     \<and> fst (job_answered plain_runtime (Accept (driver_request driver_b) i)
          (Inl (PgErr (unique_violation history_key))) empty_world) =
         \<lparr>rs_status = 500, rs_body = error_envelope ''INTERNAL_ERROR'' ''internal server error''\<rparr>"
proof -
  obtain s i d where s: "serving plain_runtime example_bind s"
    "Planned (Accept (driver_request driver_b) i) d \<in> set (calls s)"
    "commit plain_runtime d (db (here (sys s))) = Inl (unique_violation history_key)"
    by (rule racing_server)
  have k: "\<And>t d. refuse plain_runtime t d = None" "lift_pg plain_runtime = PgErr" by simp_all
  show ?thesis
    using loser_is_told [OF plain_runtime_ok k s, of empty_world] s by (fastforce simp: unique_violation_def)
qed

text \<open>C5: as long as the server refuses nothing of its own and the connection to the database holds, calls succeed
  where they may, whatever other calls are in flight and wherever they are. In every state of a run, a driver
  who asks for a waiting order and is served while the others rest is answered 201 with its id and gets the
  order, in at most three moves: whatever the early check reads, an entry of the cache, somebody's load, the
  tables or a failure, no run of the call ends in anything else. And a request with readable ids for an order
  that does not exist is answered 201 and makes it wait, in at most two moves.\<close>

theorem waiting_can_be_taken:
  assumes "runtime_ok rt" "\<And>t d. refuse rt t d = None" "serving rt bnd s" "foreign_errors rt"
  shows "(uuid_Parse rt (Param req ''orderId'') \<noteq> None \<and> uuid_Parse rt (GetHeader req ''driver_id'') \<noteq> None
      \<and> pg_uuid rt (Param req ''orderId'') = Some oid \<and> pg_uuid rt (GetHeader req ''driver_id'') = Some drv
      \<and> abs_tables (db (here (sys s))) oid = Some (Waiting r) \<longrightarrow>
      within 3 (solo rt (calls s))
        (\<lambda>s'. calls s' = calls s
           \<and> (\<exists>i. sent s' = sent s @ [Job_reply (Accept req i)
                \<lparr>rs_status = 201, rs_body = DriverOrderOutput_json \<lparr>dout_ID = Param req ''orderId''\<rparr>\<rparr>])
           \<and> abs_tables (db (here (sys s'))) = (abs_tables (db (here (sys s))))(oid \<mapsto> Taken r drv))
        (admit req (Checking req) (accept_arrive rt req (here (sys s))) s))
    \<and> (request_arrive rt bnd req (here (sys s)) = (Inr i, w) \<and> pg_uuid rt (inp_ID i) = Some oid
      \<and> pg_uuid rt (inp_RiderID i) = Some r \<and> abs_tables (db (here (sys s))) oid = None \<longrightarrow>
      within 2 (solo rt (calls s))
        (\<lambda>s'. calls s' = calls s
           \<and> sent s' = sent s @ [Job_reply (Post req i)
                \<lparr>rs_status = 201, rs_body = OrderOutput_json (fmt_float rt) (output_of_input i)\<rparr>]
           \<and> abs_tables (db (here (sys s'))) = (abs_tables (db (here (sys s))))(oid \<mapsto> Waiting r))
        (admit req (\<lambda>i. Ready (Post req i)) (request_arrive rt bnd req (here (sys s))) s))"
proof (intro conjI impI; elim conjE)
  note ok = serving_ok(1) [OF assms(3,1,4)]
  show "within 3 (solo rt (calls s))
        (\<lambda>s'. calls s' = calls s
           \<and> (\<exists>i. sent s' = sent s @ [Job_reply (Accept req i)
                \<lparr>rs_status = 201, rs_body = DriverOrderOutput_json \<lparr>dout_ID = Param req ''orderId''\<rparr>\<rparr>])
           \<and> abs_tables (db (here (sys s'))) = (abs_tables (db (here (sys s))))(oid \<mapsto> Taken r drv))
        (admit req (Checking req) (accept_arrive rt req (here (sys s))) s)"
    if "uuid_Parse rt (Param req ''orderId'') \<noteq> None" "uuid_Parse rt (GetHeader req ''driver_id'') \<noteq> None"
      "pg_uuid rt (Param req ''orderId'') = Some oid" "pg_uuid rt (GetHeader req ''driver_id'') = Some drv"
      "abs_tables (db (here (sys s))) oid = Some (Waiting r)"
    by (rule accept_alone [OF assms(1,2) ok that])
  show "within 2 (solo rt (calls s))
        (\<lambda>s'. calls s' = calls s
           \<and> sent s' = sent s @ [Job_reply (Post req i)
                \<lparr>rs_status = 201, rs_body = OrderOutput_json (fmt_float rt) (output_of_input i)\<rparr>]
           \<and> abs_tables (db (here (sys s'))) = (abs_tables (db (here (sys s))))(oid \<mapsto> Waiting r))
        (admit req (\<lambda>i. Ready (Post req i)) (request_arrive rt bnd req (here (sys s))) s)"
    if "request_arrive rt bnd req (here (sys s)) = (Inr i, w)" "pg_uuid rt (inp_ID i) = Some oid"
      "pg_uuid rt (inp_RiderID i) = Some r" "abs_tables (db (here (sys s))) oid = None"
    by (rule post_alone [OF assms(1,2) ok that])
qed

theorem waiting_can_be_taken_witness:
  "\<exists>s. serving plain_runtime example_bind s
     \<and> within 3 (solo plain_runtime (calls s))
        (\<lambda>s'. abs_tables (db (here (sys s'))) the_order = Some (Taken the_rider driver_a))
        (admit (driver_request driver_a) (Checking (driver_request driver_a))
           (accept_arrive plain_runtime (driver_request driver_a) (here (sys s))) s)"
proof -
  obtain s where s: "serving plain_runtime example_bind s"
    "abs_tables (db (here (sys s))) the_order = Some (Waiting the_rider)"
    by (rule waiting_server)
  have "within 3 (solo plain_runtime (calls s))
      (\<lambda>s'. calls s' = calls s
         \<and> (\<exists>i. sent s' = sent s @ [Job_reply (Accept (driver_request driver_a) i)
              \<lparr>rs_status = 201, rs_body = DriverOrderOutput_json \<lparr>dout_ID = Param (driver_request driver_a) ''orderId''\<rparr>\<rparr>])
         \<and> abs_tables (db (here (sys s'))) = (abs_tables (db (here (sys s))))(the_order \<mapsto> Taken the_rider driver_a))
      (admit (driver_request driver_a) (Checking (driver_request driver_a))
         (accept_arrive plain_runtime (driver_request driver_a) (here (sys s))) s)"
    by (rule waiting_can_be_taken [OF plain_runtime_ok _ s(1) foreign_errors_plain, THEN conjunct1, THEN mp])
      (simp_all add: s(2))
  then have "within 3 (solo plain_runtime (calls s))
      (\<lambda>s'. abs_tables (db (here (sys s'))) the_order = Some (Taken the_rider driver_a))
      (admit (driver_request driver_a) (Checking (driver_request driver_a))
         (accept_arrive plain_runtime (driver_request driver_a) (here (sys s))) s)"
    by (rule within_weaken) simp
  then show ?thesis using s(1) by blast
qed

section \<open>The service calls\<close>

text \<open>C6: accepting an order through the drivers service, with its early check reading the orders service
  over any cache that keeps its contract or over none, is the abstract acceptance: a waiting order is taken by
  the driver, with one event appended to the outbox in the same statement, the event of this acceptance with
  the ids, the clock and the topic of the call and the trace context of its job; any other order is left as it is and answered \<open>ORDER_NOT_ACCEPTABLE\<close>.\<close>

theorem accept_is_spec:
  assumes "runtime_ok rt" "\<And>t d. refuse rt t d = None" "tel_ok t" "known_cache c"
    and "tables_ok (db w)" "cache_sound rt w" "accept_input rt i oid drv"
  shows "case Service_Accepted rt (driverService rt t (Some (Service_Get rt (riderService rt u c)))) carrier i w of
      (r, w') \<Rightarrow> tables_ok (db w') \<and> cache_sound rt w' \<and> extends (db w) (db w') \<and>
        (case spec_accept oid drv (abs_tables (db w)) of
           None \<Rightarrow> r = Inl (HTTPErr order_not_acceptable) \<and> db w' = db w
         | Some m \<Rightarrow> r = Inr \<lparr>dout_ID = acc_OrderID i\<rparr> \<and> abs_tables (db w') = m
             \<and> outbox_events (db w') = outbox_events (db w) @
                 [accepted_event rt (job_carrier t ''drivers.accepted'' carrier w) i oid (snd (early_check (driverService rt t
                    (Some (Service_Get rt (riderService rt u c)))) (acc_OrderID i) w))])"
  by (rule rider_accept [OF assms(1-3) sound_reader_rider(2) [OF assms(4), of rt u] assms(5-7), of carrier])
    simp

theorem accept_is_spec_witness:
  "case Service_Accepted plain_runtime (driverService plain_runtime None
        (Some (Service_Get plain_runtime (riderService plain_runtime None (Some memory_cache)))))
        [] (accept_example driver_a) waiting_world of
     (r, w') \<Rightarrow> r = Inr \<lparr>dout_ID = uuid_string the_order\<rparr>
       \<and> abs_tables (db w') the_order = Some (Taken the_rider driver_a)"
  using accept_is_spec [of plain_runtime None "Some memory_cache" waiting_world "accept_example driver_a"
      the_order driver_a "[]" None] accept_example_input [of driver_a]
  by (simp add: tel_ok_def spec_accept_def split: prod.splits) (simp add: accept_example_def)

text \<open>C7: after a driver was given an order, every later driver who asks for it is answered 409
  \<open>ORDER_NOT_ACCEPTABLE\<close>, and nothing is written.\<close>

theorem accept_twice:
  assumes "runtime_ok rt" "\<And>t d. refuse rt t d = None" "tel_ok t" "known_cache c"
    and "tables_ok (db w)" "cache_sound rt w" "accept_input rt i oid drv" "accept_input rt i2 oid drv2"
    and "Service_Accepted rt (driverService rt t (Some (Service_Get rt (riderService rt u c)))) carrier i w
          = (Inr out, w1)"
    and "Service_Accepted rt (driverService rt t (Some (Service_Get rt (riderService rt u c)))) carrier2 i2 w1
          = (r2, w2)"
  shows "r2 = Inl (HTTPErr order_not_acceptable) \<and> db w2 = db w1"
proof -
  note sr = sound_reader_rider(2) [OF assms(4), of rt u]
  obtain m where m: "spec_accept oid drv (abs_tables (db w)) = Some m" "abs_tables (db w1) = m"
    and ok1: "tables_ok (db w1)" "cache_sound rt w1"
    by (rule rider_accept [OF assms(1-3) sr assms(5-7), of carrier])
      (use assms(9) in \<open>auto split: option.splits\<close>)
  have n: "spec_accept oid drv2 (abs_tables (db w1)) = None"
    using spec_accept_once m by blast
  show ?thesis
    by (rule rider_accept [OF assms(1-3) sr ok1 assms(8), of carrier2]) (use n assms(10) in simp)
qed

theorem accept_twice_witness:
  "let s = driverService plain_runtime None
         (Some (Service_Get plain_runtime (riderService plain_runtime None (Some memory_cache))));
       (r1, w1) = Service_Accepted plain_runtime s [] (accept_example driver_a) waiting_world;
       (r2, w2) = Service_Accepted plain_runtime s [] (accept_example driver_b) w1
   in r1 = Inr \<lparr>dout_ID = uuid_string the_order\<rparr> \<and> r2 = Inl (HTTPErr order_not_acceptable) \<and> db w2 = db w1"
proof -
  let ?s = "driverService plain_runtime None
      (Some (Service_Get plain_runtime (riderService plain_runtime None (Some memory_cache))))"
  have k: "tel_ok None" "known_cache (Some memory_cache)" "\<And>t d. refuse plain_runtime t d = None"
    by (simp_all add: tel_ok_def)
  have w: "tables_ok (db waiting_world)" "cache_sound plain_runtime waiting_world" by simp_all
  obtain w1 where a: "Service_Accepted plain_runtime ?s [] (accept_example driver_a) waiting_world
      = (Inr \<lparr>dout_ID = uuid_string the_order\<rparr>, w1)"
    by (rule rider_accept [OF plain_runtime_ok k(3,1) sound_reader_rider(2) [OF k(2)] w accept_example_input,
          where drv = driver_a and carrier = "[]"])
      (simp add: spec_accept_def accept_example_def)
  obtain r2 w2 where b: "Service_Accepted plain_runtime ?s [] (accept_example driver_b) w1 = (r2, w2)"
    by fastforce
  show ?thesis
    using accept_twice [OF plain_runtime_ok k(3,1,2) w accept_example_input accept_example_input a b] a b by simp
qed

text \<open>C8: requesting an order that does not exist makes it wait for a driver, and appends one event to the
  outbox in the same statement: the event of this order with the ids, the clock and the topic of the
  call and the trace context of its job. The answer repeats the input.\<close>

theorem request_is_spec:
  assumes "runtime_ok rt" "\<And>t d. refuse rt t d = None" "tables_ok (db w)" "tel_ok t"
    and "request_input rt i oid r" "abs_tables (db w) oid = None"
  shows "\<exists>w'. Service_Requested rt (riderService rt t c) carrier i w = (Inr (output_of_input i), w')
    \<and> spec_request oid r (abs_tables (db w)) = Some (abs_tables (db w'))
    \<and> outbox_events (db w') = outbox_events (db w) @
        [requested_event rt (job_carrier t ''orders.requested'' carrier w) i oid w]
    \<and> tables_ok (db w')"
  by (rule rider_request_new [OF assms, of c carrier]) (use assms(6) in \<open>auto simp: spec_request_def\<close>)

theorem request_is_spec_witness:
  "\<exists>w'. Service_Requested plain_runtime (riderService plain_runtime None None) [] request_example empty_world
        = (Inr (output_of_input request_example), w')
    \<and> spec_request the_order the_rider (abs_tables empty_tables) = Some (abs_tables (db w'))"
  using request_is_spec [of plain_runtime empty_world None request_example the_order the_rider None "[]"]
    request_example_input by (auto simp: tel_ok_def)

text \<open>C9: requesting an order that exists, by whatever rider, is answered 409 \<open>ORDER_ALREADY_EXISTS\<close>,
  whichever of the two violated constraints the server reports and however the error is wrapped, and
  writes nothing.\<close>

theorem request_twice:
  assumes "runtime_ok rt" "\<And>t d. refuse rt t d = None" "\<And>e. errors_As to_pg (lift_pg rt e) = Some e"
    and "tables_ok (db w)" "tel_ok t" "request_input rt i oid r" "abs_tables (db w) oid \<noteq> None"
  shows "\<exists>w'. Service_Requested rt (riderService rt t c) carrier i w
      = (Inl (HTTPErr (NewError 409 ''ORDER_ALREADY_EXISTS'' ''an order with this id already exists'')), w')
    \<and> db w' = db w"
  by (rule rider_request_duplicate [OF assms, of c carrier]) (auto simp: order_already_exists_def)

theorem request_twice_witness:
  "\<exists>w'. Service_Requested plain_runtime (riderService plain_runtime None None) [] request_example taken_world
        = (Inl (HTTPErr (NewError 409 ''ORDER_ALREADY_EXISTS'' ''an order with this id already exists'')), w')
    \<and> db w' = taken_tables"
  using request_twice [of plain_runtime taken_world None request_example the_order the_rider None "[]"]
    request_example_input by (simp add: tel_ok_def)

text \<open>C10: \<open>requestedSQL\<close> and \<open>acceptedSQL\<close> on the tables, for any arguments the database can read, are the two
  abstract operations. With $1 the order and $2 the rider, a request for an order that does not exist affects
  one row, makes the order wait for the rider $2, appends exactly the event with the id, type and payload of
  the arguments, and \<open>viewSQL\<close> then shows the coordinates of the arguments, the status \<open>requested\<close> and the time of
  the statement; for an order that exists it is an error of one of the two keys of orders. With $2 the order
  and $3 the driver, an acceptance of a waiting order affects one row, gives the order to the driver $3,
  appends exactly its event, and \<open>viewSQL\<close> shows the same order as \<open>accepted\<close>; of any other order it affects no
  row. Where a statement affects no row or fails, it writes nothing.\<close>

theorem statements_are_spec:
  assumes "runtime_ok rt" "\<And>t d. refuse rt t d = None" "tables_ok (db w)"
    and "pg_uuid rt a1 = Some oid" "pg_uuid rt a2 = Some r" "pg_uuid rt a7 = Some h" "pg_uuid rt a8 = Some x"
      "pg_jsonb a9 = Some j"
    and "pg_uuid rt b1 = Some a" "pg_uuid rt b2 = Some oid2" "pg_uuid rt b3 = Some drv" "pg_uuid rt b4 = Some h2"
      "pg_uuid rt b5 = Some x2" "pg_jsonb b6 = Some j2"
  shows "(case pg_execute rt requestedSQL
         [AText a1, AText a2, AFloat a3, AFloat a4, AFloat a5, AFloat a6, AText a7, AText a8, ABytes a9, AText a10] w of
       (Inl e, w') \<Rightarrow> spec_request oid r (abs_tables (db w)) = None \<and> w' = w
         \<and> (\<exists>c \<in> {orders_pkey, history_key}. e = lift_pg rt (unique_violation c))
     | (Inr n, w') \<Rightarrow> spec_request oid r (abs_tables (db w)) = Some (abs_tables (db w')) \<and> n = 1
         \<and> tables_ok (db w') \<and> w' = w\<lparr>db := db w'\<rparr>
         \<and> outbox_events (db w') = outbox_events (db w) @ [\<lparr>x_id = x, x_aggregate_type = ''order'',
              x_aggregate_id = oid, x_event_type = a10, x_event_version = 1, x_payload = j\<rparr>]
         \<and> select_view rt (db w') oid = Some \<lparr>view_ID = uuid_string oid, view_RiderID = uuid_string r,
              view_PickupLatitude = a3, view_PickupLongitude = a4, view_DestinationLatitude = a5,
              view_DestinationLongitude = a6, view_Status = ''requested'', view_CreatedAt = clock w\<rparr>)
   \<and> (case pg_execute rt acceptedSQL [AText b1, AText b2, AText b3, AText b4, AText b5, ABytes b6, AText b7] w of
       (Inl e, w') \<Rightarrow> False
     | (Inr n, w') \<Rightarrow>
         if n = 0 then spec_accept oid2 drv (abs_tables (db w)) = None \<and> w' = w
         else spec_accept oid2 drv (abs_tables (db w)) = Some (abs_tables (db w')) \<and> n = 1
           \<and> tables_ok (db w') \<and> w' = w\<lparr>db := db w'\<rparr>
           \<and> outbox_events (db w') = outbox_events (db w) @ [\<lparr>x_id = x2, x_aggregate_type = ''order'',
                x_aggregate_id = oid2, x_event_type = b7, x_event_version = 1, x_payload = j2\<rparr>]
           \<and> (\<exists>v. select_view rt (db w) oid2 = Some v
                \<and> select_view rt (db w') oid2 = Some (v\<lparr>view_Status := ''accepted''\<rparr>)))"
proof (intro conjI, goal_cases)
  case 1
  note e = requested_executes [OF assms(1,2,3-8), where ?a3.0 = a3 and ?a4.0 = a4 and ?a5.0 = a5 and ?a6.0 = a6
      and ?a10.0 = a10]
  show ?case
    using e by (cases "abs_tables (db w) oid") auto
next
  case 2
  note e = accepted_executes [OF assms(1,2,3,9-14), where ?a7.0 = b7]
  show ?case
  proof (cases "\<exists>r. abs_tables (db w) oid2 = Some (Waiting r)")
    case True
    then show ?thesis using e(1) by fastforce
  next
    case False
    then show ?thesis using e(2) by simp
  qed
qed

theorem statements_are_spec_witness:
  "(\<exists>c e. pg_execute plain_runtime requestedSQL request_args waiting_world = (Inl e, waiting_world)
      \<and> e = PgErr (unique_violation c))
   \<and> (case pg_execute plain_runtime acceptedSQL (accept_args_of driver_b) waiting_world of
       (Inl e, w') \<Rightarrow> False
     | (Inr n, w') \<Rightarrow> (if n = 0 then False
         else abs_tables (db w') = (abs_tables waiting_tables)(the_order \<mapsto> Taken the_rider driver_b) \<and> n = 1))"
proof -
  have p: "pg_uuid plain_runtime (uuid_string u) = Some u" for u by simp
  have j: "pg_jsonb NilPayload = Some None" by simp
  have ok: "tables_ok (db waiting_world)" and rf: "\<And>t d. refuse plain_runtime t d = None" by simp_all
  note st = statements_are_spec [OF plain_runtime_ok rf ok
      p [of the_order] p [of the_rider] p [of 31] p [of 32] j
      p [of "40 + driver_b"] p [of the_order] p [of driver_b] p [of "50 + driver_b"] p [of "60 + driver_b"] j,
      where ?a3.0 = 0 and ?a4.0 = 0 and ?a5.0 = 0 and ?a6.0 = 0 and ?a10.0 = "''t''" and ?b7.0 = "''t''",
      folded request_args_def accept_args_of_def]
  have "abs_tables waiting_tables the_order = Some (Waiting the_rider)" by simp
  then show ?thesis
    using st by (auto simp: spec_request_def spec_accept_def split: prod.splits sum.splits if_splits)
qed

section \<open>The handlers\<close>

text \<open>C11: a rider who asks for an order gets it exactly if it is theirs; for somebody else's order the
  answer is, byte for byte, the 404 of an order that does not exist, so that ids cannot be probed. The
  view that is shown was true of this order at some moment. The header is compared as text with the
  canonical form of the rider's UUID, although it is accepted in every form the parser reads: the rider of
  an order who writes the same UUID in another form, in upper case for one, is told that it does not exist.
  Where the database does not answer the read, nobody else sees the order either: the answer is such a view
  for the rider of the order, from the cache, or the same 404, or a 500 with the fixed text.\<close>

theorem get_only_for_the_rider:
  assumes "runtime_ok rt" "known_cache c" "tables_ok (db w)" "cache_sound rt w"
    and "uuid_Parse rt (Param req ''orderId'') \<noteq> None" "pg_uuid rt (Param req ''orderId'') = Some oid"
    and "uuid_Parse rt (GetHeader req ''rider_id'') \<noteq> None"
  shows "let resp = fst (Handler_get rt (Service_Get rt (riderService rt t c)) req w)
    in (lost_read rt (db w) oid = None \<longrightarrow>
        (if \<exists>rd. abs_tables (db w) oid = Some rd \<and> uuid_string (rider rd) = GetHeader req ''rider_id''
         then \<exists>v. resp = \<lparr>rs_status = 200, rs_body = OrderView_json (fmt_float rt) (fmt_time rt) v\<rparr>
                \<and> past_view rt (db w) oid v \<and> view_RiderID v = GetHeader req ''rider_id''
         else resp = \<lparr>rs_status = 404, rs_body = error_envelope ''ORDER_NOT_FOUND'' ''order not found''\<rparr>)
        \<and> (\<forall>rd. abs_tables (db w) oid = Some rd \<and> uuid_Parse rt (GetHeader req ''rider_id'') = Some (rider rd) \<longrightarrow>
             rs_status resp = (if GetHeader req ''rider_id'' = uuid_string (rider rd) then 200 else 404)))
     \<and> (foreign_errors rt \<longrightarrow>
          (\<exists>v rd. resp = \<lparr>rs_status = 200, rs_body = OrderView_json (fmt_float rt) (fmt_time rt) v\<rparr>
              \<and> past_view rt (db w) oid v \<and> view_RiderID v = GetHeader req ''rider_id''
              \<and> abs_tables (db w) oid = Some rd \<and> uuid_string (rider rd) = GetHeader req ''rider_id'')
          \<or> resp \<in> {\<lparr>rs_status = 404, rs_body = error_envelope ''ORDER_NOT_FOUND'' ''order not found''\<rparr>,
               \<lparr>rs_status = 500, rs_body = error_envelope ''INTERNAL_ERROR'' ''internal server error''\<rparr>})"
  unfolding Let_def
proof (intro conjI impI allI)
  let ?resp = "fst (Handler_get rt (Service_Get rt (riderService rt t c)) req w)"
  note g = get_status [OF assms, of t]
  show "if \<exists>rd. abs_tables (db w) oid = Some rd \<and> uuid_string (rider rd) = GetHeader req ''rider_id''
    then \<exists>v. ?resp = \<lparr>rs_status = 200, rs_body = OrderView_json (fmt_float rt) (fmt_time rt) v\<rparr>
         \<and> past_view rt (db w) oid v \<and> view_RiderID v = GetHeader req ''rider_id''
    else ?resp = \<lparr>rs_status = 404, rs_body = error_envelope ''ORDER_NOT_FOUND'' ''order not found''\<rparr>"
    if "lost_read rt (db w) oid = None"
    using g that by auto
  show "rs_status ?resp = (if GetHeader req ''rider_id'' = uuid_string (rider rd) then 200 else 404)"
    if l: "lost_read rt (db w) oid = None"
      and a: "abs_tables (db w) oid = Some rd \<and> uuid_Parse rt (GetHeader req ''rider_id'') = Some (rider rd)" for rd
    using g l unfolding conjunct1 [OF a] option.inject by (elim disjE conjE exE) (simp_all, blast?)
  assume f: "foreign_errors rt"
  from g consider "?resp = \<lparr>rs_status = 404, rs_body = error_envelope ''ORDER_NOT_FOUND'' ''order not found''\<rparr>"
    | v rd where "?resp = \<lparr>rs_status = 200, rs_body = OrderView_json (fmt_float rt) (fmt_time rt) v\<rparr>"
        "past_view rt (db w) oid v" "abs_tables (db w) oid = Some rd" "view_RiderID v = uuid_string (rider rd)"
        "uuid_string (rider rd) = GetHeader req ''rider_id''"
    | e x where "read_error (lift_pg rt e) x" "?resp = fst (AbortError req (Some x) w)"
    by blast
  then show "(\<exists>v rd. ?resp = \<lparr>rs_status = 200, rs_body = OrderView_json (fmt_float rt) (fmt_time rt) v\<rparr>
              \<and> past_view rt (db w) oid v \<and> view_RiderID v = GetHeader req ''rider_id''
              \<and> abs_tables (db w) oid = Some rd \<and> uuid_string (rider rd) = GetHeader req ''rider_id'')
          \<or> ?resp \<in> {\<lparr>rs_status = 404, rs_body = error_envelope ''ORDER_NOT_FOUND'' ''order not found''\<rparr>,
               \<lparr>rs_status = 500, rs_body = error_envelope ''INTERNAL_ERROR'' ''internal server error''\<rparr>}"
  proof cases
    case 2
    then show ?thesis by auto
  next
    case 3
    then show ?thesis using lost_answer [OF f 3(1), of req w] by simp
  qed simp
qed

theorem get_only_for_the_rider_witness:
  "(\<exists>v. fst (Handler_get plain_runtime
        (Service_Get plain_runtime (riderService plain_runtime None (Some memory_cache))) get_example waiting_world)
      = \<lparr>rs_status = 200, rs_body = OrderView_json (fmt_float plain_runtime) (fmt_time plain_runtime) v\<rparr>
     \<and> past_view plain_runtime waiting_tables the_order v)
   \<and> rfc_parse upper_rider = Some the_rider
   \<and> rs_status (fst (Handler_get plain_runtime (Service_Get plain_runtime (riderService plain_runtime None None))
        (rider_request ''GET'' upper_rider) waiting_world)) = 404"
proof
  show "\<exists>v. fst (Handler_get plain_runtime
        (Service_Get plain_runtime (riderService plain_runtime None (Some memory_cache))) get_example waiting_world)
      = \<lparr>rs_status = 200, rs_body = OrderView_json (fmt_float plain_runtime) (fmt_time plain_runtime) v\<rparr>
     \<and> past_view plain_runtime waiting_tables the_order v"
    using get_only_for_the_rider [of plain_runtime "Some memory_cache" waiting_world get_example the_order None]
    by (auto simp: get_example_def Let_def)
  have "upper_rider \<noteq> uuid_string the_rider"
    by (simp add: the_rider_text upper_rider_def)
  then show "rfc_parse upper_rider = Some the_rider
   \<and> rs_status (fst (Handler_get plain_runtime (Service_Get plain_runtime (riderService plain_runtime None None))
        (rider_request ''GET'' upper_rider) waiting_world)) = 404"
    using get_only_for_the_rider [of plain_runtime None waiting_world "rider_request ''GET'' upper_rider" the_order None]
    by (simp add: upper_rider_parse Let_def)
qed

text \<open>C12: whatever calls are in flight, and whether the answer came from the database, from the cache or from
  somebody else's load: an order that was shown with 200 belongs to the rider in the header, the view has its
  id, and a view that says \<open>accepted\<close> says so of an order that is taken. Only \<open>requested\<close> may be out of date.\<close>

theorem every_read_is_the_riders:
  assumes "runtime_ok rt" "foreign_errors rt" "serving rt bnd s"
    and "Read_reply req ident resp \<in> set (sent s)" "rs_status resp = 200"
  shows "\<exists>v oid rd. rs_body resp = OrderView_json (fmt_float rt) (fmt_time rt) v
    \<and> pg_uuid rt (Param req ''orderId'') = Some oid \<and> abs_tables (db (here (sys s))) oid = Some rd
    \<and> view_ID v = uuid_string oid \<and> view_RiderID v = GetHeader req ''rider_id''
    \<and> GetHeader req ''rider_id'' = uuid_string (rider rd)
    \<and> (view_Status v = ''requested'' \<or> view_Status v = ''accepted'' \<and> (\<exists>r d. rd = Taken r d))"
proof -
  note ok = serving_ok [OF assms(3,1,2)]
  have "reply_ok rt (sys s) (Read_reply req ident resp)"
    using ok(2) assms(4) unfolding srv_ok_def by blast
  then obtain v oid where v: "rs_body resp = OrderView_json (fmt_float rt) (fmt_time rt) v"
    "pg_uuid rt (Param req ''orderId'') = Some oid" "past_view rt (db (here (sys s))) oid v"
    "view_RiderID v = GetHeader req ''rider_id''"
    using assms(5) by auto
  have t: "tables_ok (db (here (sys s)))" using ok(1) by (simp add: sys_ok_def)
  obtain rd where rd: "abs_tables (db (here (sys s))) oid = Some rd" "view_RiderID v = uuid_string (rider rd)"
    "view_ID v = uuid_string oid"
    using past_view_rider [OF assms(1) v(3)] by blast
  have "view_Status v = ''requested'' \<or> view_Status v = ''accepted'' \<and> (\<exists>r d. rd = Taken r d)"
    using past_view_not_requested(2,3) [OF assms(1) t v(3)] rd(1) by auto
  then show ?thesis using v rd by metis
qed

theorem every_read_is_the_riders_witness:
  "\<exists>s resp. serving plain_runtime example_bind s \<and> Read_reply get_example (uuid_string the_order) resp \<in> set (sent s)
     \<and> rs_status resp = 200 \<and> (\<exists>v. rs_body resp = OrderView_json (fmt_float plain_runtime) (fmt_time plain_runtime) v
          \<and> view_ID v = uuid_string the_order)"
proof -
  obtain s resp where s: "serving plain_runtime example_bind s"
    "Read_reply get_example (uuid_string the_order) resp \<in> set (sent s)" "rs_status resp = 200"
    by (rule read_server)
  have "Param get_example ''orderId'' = uuid_string the_order" by (simp add: get_example_def)
  then show ?thesis
    using every_read_is_the_riders [OF plain_runtime_ok foreign_errors_plain s] s by auto
qed

text \<open>C13: posting a new order is answered 201, and the rider who then asks for it with the canonical text
  of their id is shown an order that waits for a driver, as long as the database answers the read.\<close>

theorem post_then_get:
  assumes rt: "runtime_ok rt" "\<And>t d. refuse rt t d = None" and tel: "tel_ok t" and c: "known_cache c"
    and ok: "tables_ok (db w)" "cache_sound rt w"
    and post: "bnd (rq_body req) = Inr inb" "post_ids req inb w = (ident, riderID, w0)"
      "uuid_Parse rt ident \<noteq> None" "uuid_Parse rt riderID \<noteq> None" "TrimSpace ident \<noteq> []"
      "pg_uuid rt ident = Some oid" "pg_uuid rt riderID = Some r" "riderID = uuid_string r"
    and new: "abs_tables (db w) oid = None"
    and get: "Param req2 ''orderId'' = ident" "GetHeader req2 ''rider_id'' = riderID" "\<And>t. lost_read rt t oid = None"
  shows "\<exists>w1 v. Handler_request rt bnd (Service_Requested rt (riderService rt t c)) req w
        = (\<lparr>rs_status = 201, rs_body = OrderOutput_json (fmt_float rt)
              (output_of_input (post_input inb ident riderID))\<rparr>, w1)
     \<and> fst (Handler_get rt (Service_Get rt (riderService rt t c)) req2 w1)
        = \<lparr>rs_status = 200, rs_body = OrderView_json (fmt_float rt) (fmt_time rt) v\<rparr>
     \<and> view_ID v = uuid_string oid \<and> view_RiderID v = riderID \<and> view_Status v = ''requested''"
proof -
  have w0: "db w0 = db w" "cached w0 = cached w"
    using post_ids_frame [OF post(2)] by simp_all
  have i: "request_input rt (post_input inb ident riderID) oid r"
    using post(5-8) by (simp add: request_input_def post_input_def)
  have ok0: "tables_ok (db w0)" and new0: "abs_tables (db w0) oid = None"
    using ok(1) new w0 by simp_all
  obtain w1 where s: "Service_Requested rt (riderService rt t c) (rq_carrier req) (post_input inb ident riderID) w0
        = (Inr (output_of_input (post_input inb ident riderID)), w1)"
    and w1: "abs_tables (db w1) = (abs_tables (db w0))(oid \<mapsto> Waiting r)" "tables_ok (db w1)"
      "extends (db w0) (db w1)" "cached w1 = cached w0"
    by (rule rider_request_new [OF rt ok0 tel i new0]) blast
  have c1: "cache_sound rt w1"
    using cache_sound_extends [of rt w w1] ok(2) w0 w1(3,4) by simp
  have ride: "abs_tables (db w1) oid = Some (Waiting r)" using w1(1) by simp
  obtain v where v: "fst (Handler_get rt (Service_Get rt (riderService rt t c)) req2 w1)
        = \<lparr>rs_status = 200, rs_body = OrderView_json (fmt_float rt) (fmt_time rt) v\<rparr>"
    "past_view rt (db w1) oid v" "view_RiderID v = riderID"
    using get_status [OF rt(1) c w1(2) c1, of req2 oid t] get(1,2) get(3) [of "db w1"] post(3,4,6,8) ride by auto
  moreover have "view_Status v = ''requested''"
    using past_view_not_requested(1) [OF rt(1) w1(2) v(2)] guard_abs [OF w1(2)] ride by blast
  moreover have "view_ID v = uuid_string oid"
    using past_view_rider [OF rt(1) v(2)] by blast
  moreover have "Handler_request rt bnd (Service_Requested rt (riderService rt t c)) req w
        = (\<lparr>rs_status = 201, rs_body = OrderOutput_json (fmt_float rt)
              (output_of_input (post_input inb ident riderID))\<rparr>, w1)"
    using Handler_request_bound [where bind = bnd, OF post(1-4)] s by simp
  ultimately show ?thesis by blast
qed

theorem post_then_get_witness:
  "\<exists>w1 v. Handler_request plain_runtime (\<lambda>_. Inr body_example)
        (Service_Requested plain_runtime (riderService plain_runtime None (Some memory_cache))) post_example empty_world
      = (\<lparr>rs_status = 201, rs_body = OrderOutput_json (fmt_float plain_runtime)
            (output_of_input (post_input body_example (uuid_string the_order) (uuid_string the_rider)))\<rparr>, w1)
     \<and> fst (Handler_get plain_runtime
          (Service_Get plain_runtime (riderService plain_runtime None (Some memory_cache))) get_example w1)
        = \<lparr>rs_status = 200, rs_body = OrderView_json (fmt_float plain_runtime) (fmt_time plain_runtime) v\<rparr>
     \<and> view_Status v = ''requested''"
proof -
  have p: "post_ids post_example body_example empty_world
      = (uuid_string the_order, uuid_string the_rider, empty_world)"
    by (simp add: post_ids_def post_example_def body_example_def)
  have k: "tel_ok None" "known_cache (Some memory_cache)" "\<And>t d. refuse plain_runtime t d = None"
    by (simp_all add: tel_ok_def)
  have w: "tables_ok (db empty_world)" "cache_sound plain_runtime empty_world" by simp_all
  have g: "Param get_example ''orderId'' = uuid_string the_order"
    "GetHeader get_example ''rider_id'' = uuid_string the_rider"
    by (simp_all add: get_example_def)
  have b: "(\<lambda>_. Inr body_example) (rq_body post_example) = Inr body_example" by simp
  show ?thesis
    using post_then_get [where bnd = "\<lambda>_. Inr body_example", OF plain_runtime_ok k(3,1,2) w b p _ _ _ _ _ _ _ g]
    by simp blast
qed

text \<open>C32: a request with a malformed body, order id, rider or driver is answered 400 before any statement is
  run and before any read: the tables, and on the routes of orders by id the cache too, stay as they are. For a
  malformed driver or body that holds whatever the services behind the handlers would do; the order id of an
  acceptance is checked by the drivers service, whatever its repository and its order reader would do.\<close>

theorem malformed_requests_write_nothing:
  "(uuid_Parse rt (GetHeader req ''rider_id'') = None \<longrightarrow>
      rs_status (fst (Handler_get rt (Service_Get rt s) req w)) = 400
      \<and> db (snd (Handler_get rt (Service_Get rt s) req w)) = db w
      \<and> cached (snd (Handler_get rt (Service_Get rt s) req w)) = cached w)
   \<and> (uuid_Parse rt (GetHeader req ''rider_id'') \<noteq> None \<longrightarrow> uuid_Parse rt (Param req ''orderId'') = None \<longrightarrow>
      rs_status (fst (Handler_get rt (Service_Get rt s) req w)) = 400
      \<and> db (snd (Handler_get rt (Service_Get rt s) req w)) = db w
      \<and> cached (snd (Handler_get rt (Service_Get rt s) req w)) = cached w)
   \<and> (uuid_Parse rt (GetHeader req ''driver_id'') = None \<longrightarrow>
      rs_status (fst (Handler_accept rt accepted req w)) = 400
      \<and> db (snd (Handler_accept rt accepted req w)) = db w)
   \<and> (tel_ok (dtel s2) \<longrightarrow> uuid_Parse rt (Param req ''orderId'') = None \<longrightarrow>
      rs_status (fst (Handler_accept rt (Service_Accepted rt s2) req w)) = 400
      \<and> db (snd (Handler_accept rt (Service_Accepted rt s2) req w)) = db w
      \<and> cached (snd (Handler_accept rt (Service_Accepted rt s2) req w)) = cached w)
   \<and> ((\<exists>msg. bnd (rq_body req) = Inl msg)
        \<or> (\<exists>inb ident riderID w2. bnd (rq_body req) = Inr inb \<and> post_ids req inb w = (ident, riderID, w2)
             \<and> (uuid_Parse rt ident = None \<or> uuid_Parse rt riderID = None)) \<longrightarrow>
      rs_status (fst (Handler_request rt bnd requested req w)) = 400
      \<and> db (snd (Handler_request rt bnd requested req w)) = db w)"
proof -
  have get: "rs_status (fst (Handler_get rt (Service_Get rt s) req w)) = 400
      \<and> db (snd (Handler_get rt (Service_Get rt s) req w)) = db w
      \<and> cached (snd (Handler_get rt (Service_Get rt s) req w)) = cached w"
    if "uuid_Parse rt (GetHeader req ''rider_id'') = None \<or> uuid_Parse rt (Param req ''orderId'') = None"
    using that by (auto simp: Handler_get_def Service_Get_def AbortError_typed Let_def split: option.split)
  have driver: "rs_status (fst (Handler_accept rt a req w)) = 400
      \<and> db (snd (Handler_accept rt a req w)) = db w \<and> cached (snd (Handler_accept rt a req w)) = cached w"
    if "uuid_Parse rt (GetHeader req ''driver_id'') = None" for a
    using that by (simp add: Handler_accept_def AbortError_typed)
  have order: "rs_status (fst (Handler_accept rt (Service_Accepted rt s2) req w)) = 400
      \<and> db (snd (Handler_accept rt (Service_Accepted rt s2) req w)) = db w
      \<and> cached (snd (Handler_accept rt (Service_Accepted rt s2) req w)) = cached w"
    if t: "tel_ok (dtel s2)" and o: "uuid_Parse rt (Param req ''orderId'') = None"
  proof (cases "uuid_Parse rt (GetHeader req ''driver_id'') = None")
    case False
    have f: "r = Inl (HTTPErr (ValidationError ''order_id'' ''must be a UUID'')) \<and> db w2 = db w1 \<and> cached w2 = cached w1"
      if "Service_Accepted rt s2 k i w1 = (r, w2)" "acc_OrderID i = Param req ''orderId''" for k i w1 r w2
      using that o by (auto simp: Service_Accepted_eq [OF t] doAccepted_def accepted_body_def)
    show ?thesis
      using False by (auto simp: Handler_accept_def AbortError_typed Let_def split: prod.split sum.split
          dest!: f new_uuid_keeps)
  qed (rule driver)
  show ?thesis
    using Handler_request_invalid [where bind = bnd and svc = requested and req = req and w = w and rt = rt]
      get driver order by blast
qed

theorem malformed_requests_write_nothing_witness:
  "rs_status (fst (Handler_accept plain_runtime accepted_never get_example waiting_world)) = 400
   \<and> rs_status (fst (Handler_accept plain_runtime (Service_Accepted plain_runtime counted_drivers)
        ((driver_request driver_a)\<lparr>rq_params := []\<rparr>) waiting_world)) = 400
   \<and> rs_status (fst (Handler_request plain_runtime (\<lambda>_. Inl ''EOF'') requested_never post_example waiting_world)) = 400"
proof -
  have "GetHeader get_example ''driver_id'' = []"
    by (simp add: get_example_def rider_request_def GetHeader_def to_lower_def)
  moreover have "rfc_parse [] = None" by (simp add: rfc_parse_def undashed_def)
  moreover have "tel_ok (dtel counted_drivers)" by (simp add: tel_ok_def counted_drivers_def NewDriverService_def)
  moreover have "Param ((driver_request driver_a)\<lparr>rq_params := []\<rparr>) ''orderId'' = []" by (simp add: Param_def)
  ultimately show ?thesis
    using malformed_requests_write_nothing [where rt = plain_runtime and req = get_example and accepted = accepted_never
        and w = waiting_world]
      malformed_requests_write_nothing [where rt = plain_runtime and req = "(driver_request driver_a)\<lparr>rq_params := []\<rparr>"
        and ?s2.0 = counted_drivers and w = waiting_world]
      malformed_requests_write_nothing [where rt = plain_runtime and req = post_example and bnd = "\<lambda>_. Inl ''EOF''"
        and requested = requested_never and w = waiting_world] by simp
qed

text \<open>C40: where there is telemetry, every call of either service is counted once, and its duration once, under
  exactly one status. A request counts as \<open>validation_error\<close> if an id is blank, as \<open>success\<close> if it succeeded, as
  \<open>conflict\<close> if it was answered \<open>ORDER_ALREADY_EXISTS\<close>, and as \<open>error\<close> otherwise. An acceptance counts as
  \<open>validation_error\<close> if an id is malformed, as \<open>conflict\<close> if the early check rejected it, as \<open>success\<close> if it
  succeeded, and as \<open>error\<close> otherwise: so one that the guard of the SQL statement rejects is an \<open>error\<close>,
  although the same answer from the early check is a \<open>conflict\<close>.\<close>

theorem calls_are_counted_once:
  assumes "tel s1 \<noteq> None" "dtel s2 \<noteq> None"
    and "\<And>i w. counters (snd (repo_Requested (orders_repo s1) i w)) = counters w"
    and "\<And>i w err. fst (repo_Requested (orders_repo s1) i w) = Inl err \<Longrightarrow> errors_As to_http err = None"
    and "\<And>i w. counters (snd (repo_Accepted s2 i w)) = counters w"
    and "\<And>oid w. counters (snd (early_check s2 oid w)) = counters w"
  shows "(let r = fst (doRequested rt s1 carrier i w);
        st = (if TrimSpace (inp_ID i) = [] \<or> TrimSpace (inp_RiderID i) = [] then ''validation_error''
              else case r of
                Inr _ \<Rightarrow> ''success''
              | Inl e \<Rightarrow>
                  if e = HTTPErr (NewError 409 ''ORDER_ALREADY_EXISTS'' ''an order with this id already exists'')
                  then ''conflict'' else ''error'')
      in counters (snd (doRequested rt s1 carrier i w)) = counters w
           @ [(''orders.requested.total'', st), (''orders.requested.duration_seconds'', st)])
   \<and> (let r = fst (doAccepted rt s2 carrier2 i2 w);
        st = (if uuid_Parse rt (acc_OrderID i2) = None \<or> uuid_Parse rt (acc_DriverID i2) = None then ''validation_error''
              else if fst (early_check s2 (acc_OrderID i2) w) then ''conflict''
              else if is_Inr r then ''success'' else ''error'')
      in counters (snd (doAccepted rt s2 carrier2 i2 w)) = counters w
           @ [(''drivers.accepted.total'', st), (''drivers.accepted.duration_seconds'', st)])"
proof
  obtain st r w1 where b: "requested_body rt s1 carrier i w = ((st, r), w1)"
    by (metis prod.exhaust)
  then show "let r = fst (doRequested rt s1 carrier i w);
        st = (if TrimSpace (inp_ID i) = [] \<or> TrimSpace (inp_RiderID i) = [] then ''validation_error''
              else case r of
                Inr _ \<Rightarrow> ''success''
              | Inl e \<Rightarrow>
                  if e = HTTPErr (NewError 409 ''ORDER_ALREADY_EXISTS'' ''an order with this id already exists'')
                  then ''conflict'' else ''error'')
      in counters (snd (doRequested rt s1 carrier i w)) = counters w
           @ [(''orders.requested.total'', st), (''orders.requested.duration_seconds'', st)]"
    using assms(1) requested_body_status [OF assms(3,4) b]
    unfolding requested_status_def [symmetric] by (simp add: doRequested_def add_counter_def add_histogram_def Let_def)
next
  obtain st r w1 where b: "accepted_body rt s2 carrier2 i2 w = ((st, r), w1)"
    by (metis prod.exhaust)
  then show "let r = fst (doAccepted rt s2 carrier2 i2 w);
        st = (if uuid_Parse rt (acc_OrderID i2) = None \<or> uuid_Parse rt (acc_DriverID i2) = None then ''validation_error''
              else if fst (early_check s2 (acc_OrderID i2) w) then ''conflict''
              else if is_Inr r then ''success'' else ''error'')
      in counters (snd (doAccepted rt s2 carrier2 i2 w)) = counters w
           @ [(''drivers.accepted.total'', st), (''drivers.accepted.duration_seconds'', st)]"
    using assms(2) accepted_body_status [OF assms(5,6) b]
    unfolding accepted_status_def [symmetric] by (simp add: doAccepted_def add_counter_def add_histogram_def Let_def)
qed

theorem calls_are_counted_once_witness:
  "counters (snd (doAccepted plain_runtime counted_drivers [] (accept_example driver_b) taken_world))
      = [(''drivers.accepted.total'', ''error''), (''drivers.accepted.duration_seconds'', ''error'')]
   \<and> counters (snd (doAccepted plain_runtime (counted_drivers\<lparr>reader := Some taken_reader\<rparr>) [] (accept_example driver_b) taken_world))
      = [(''drivers.accepted.total'', ''conflict''), (''drivers.accepted.duration_seconds'', ''conflict'')]"
proof -
  let ?late = "counted_drivers\<lparr>reader := Some taken_reader\<rparr>"
  have k: "counters taken_world = []" by (simp add: taken_world_def empty_world_def start_world_def)
  have s: "tel counted_riders \<noteq> None" "dtel counted_drivers \<noteq> None" "dtel ?late \<noteq> None"
    "\<And>i w. counters (snd (repo_Requested (orders_repo counted_riders) i w)) = counters w"
    "\<And>i w err. fst (repo_Requested (orders_repo counted_riders) i w) = Inl err \<Longrightarrow> errors_As to_http err = None"
    "\<And>i w. counters (snd (repo_Accepted counted_drivers i w)) = counters w"
    "\<And>i w. counters (snd (repo_Accepted ?late i w)) = counters w"
    "\<And>oid w. counters (snd (early_check counted_drivers oid w)) = counters w"
    "\<And>oid w. counters (snd (early_check ?late oid w)) = counters w"
    "fst (early_check counted_drivers oid w) = False" "fst (early_check ?late oid w) = True" for oid w
    by (auto simp: counted_riders_def counted_drivers_def NewService_def NewDriverService_def early_check_def taken_reader_def)
  have "\<not> is_Inr (fst (doAccepted plain_runtime counted_drivers [] (accept_example driver_b) taken_world))"
    by (simp add: counted_refusal)
  then show ?thesis
    using calls_are_counted_once [where rt = plain_runtime and ?carrier2.0 = "[]" and ?i2.0 = "accept_example driver_b"
        and w = taken_world, OF s(1,2,4,5,6,8), THEN conjunct2]
      calls_are_counted_once [where rt = plain_runtime and ?carrier2.0 = "[]" and ?i2.0 = "accept_example driver_b"
        and w = taken_world, OF s(1,3,4,5,7,9), THEN conjunct2]
      k s(10,11) by (simp add: Let_def)
qed

text \<open>C21: with telemetry a call of either service runs as a job that keeps its result in captured variables, hides
  client errors from the worker, and hands on the context of the worker's span. It is the call without telemetry
  in that context: the same answer, tables and cache, and besides only metrics and log lines. What the context
  of the span changes is the trace context in the payload of the event: the services of the process give the
  same answer with telemetry and without, and but for the payloads of the outbox leave the same tables and
  cache.\<close>

theorem telemetry_changes_nothing:
  assumes "tel_ok (tel s1)" "tel_ok (dtel s2)" "tel_ok t" "tel_ok u" "\<And>t d. refuse rt t d = None"
  shows "fst (Service_Requested rt s1 carrier i w)
        = fst (Service_Requested rt (s1\<lparr>tel := None\<rparr>) (job_carrier (tel s1) ''orders.requested'' carrier w) i w)
    \<and> quiet (snd (Service_Requested rt s1 carrier i w))
        = quiet (snd (Service_Requested rt (s1\<lparr>tel := None\<rparr>) (job_carrier (tel s1) ''orders.requested'' carrier w) i w))
    \<and> fst (Service_Accepted rt s2 carrier2 i2 w)
        = fst (Service_Accepted rt (s2\<lparr>dtel := None\<rparr>) (job_carrier (dtel s2) ''drivers.accepted'' carrier2 w) i2 w)
    \<and> quiet (snd (Service_Accepted rt s2 carrier2 i2 w))
        = quiet (snd (Service_Accepted rt (s2\<lparr>dtel := None\<rparr>) (job_carrier (dtel s2) ''drivers.accepted'' carrier2 w) i2 w))
    \<and> fst (Service_Requested rt (riderService rt t c) carrier i w)
        = fst (Service_Requested rt (riderService rt None c) carrier i w)
    \<and> quiet (forget (snd (Service_Requested rt (riderService rt t c) carrier i w)))
        = quiet (forget (snd (Service_Requested rt (riderService rt None c) carrier i w)))
    \<and> fst (Service_Accepted rt (driverService rt u rd) carrier2 i2 w)
        = fst (Service_Accepted rt (driverService rt None rd) carrier2 i2 w)
    \<and> quiet (forget (snd (Service_Accepted rt (driverService rt u rd) carrier2 i2 w)))
        = quiet (forget (snd (Service_Accepted rt (driverService rt None rd) carrier2 i2 w)))"
proof -
  have n: "tel_ok (tel (s1\<lparr>tel := None\<rparr>))" "tel_ok (dtel (s2\<lparr>dtel := None\<rparr>))"
    and j: "job_carrier (tel (s1\<lparr>tel := None\<rparr>)) x k w = k" "job_carrier (dtel (s2\<lparr>dtel := None\<rparr>)) x k w = k" for x k
    by (simp_all add: tel_ok_def)
  show ?thesis
    unfolding Service_Requested_eq [OF assms(1)] Service_Requested_eq [OF n(1)]
      Service_Accepted_eq [OF assms(2)] Service_Accepted_eq [OF n(2)] j
    using requested_with_telemetry [OF assms(3,5)] accepted_with_telemetry [OF assms(4,5)]
    by (intro conjI doRequested_silent doAccepted_silent) blast+
qed

theorem telemetry_changes_nothing_witness:
  "fst (Service_Accepted plain_runtime counted_drivers [] (accept_example driver_b) taken_world)
     = fst (Service_Accepted plain_runtime (counted_drivers\<lparr>dtel := None\<rparr>) [(''traceparent'', ''drivers.accepted'')]
         (accept_example driver_b) taken_world)
   \<and> fst (Service_Accepted plain_runtime (driverService plain_runtime (Some plain_worker) None) [] (accept_example driver_a) waiting_world)
     = fst (Service_Accepted plain_runtime (driverService plain_runtime None None) [] (accept_example driver_a) waiting_world)"
proof -
  have t: "tel_ok (tel counted_riders)" "tel_ok (dtel counted_drivers)" "tel_ok (Some plain_worker)"
    by (simp_all add: tel_ok_def counted_riders_def counted_drivers_def NewService_def NewDriverService_def)
  have j: "job_carrier (dtel counted_drivers) ''drivers.accepted'' [] taken_world = [(''traceparent'', ''drivers.accepted'')]"
    by (simp add: counted_drivers_def NewDriverService_def plain_worker_def)
  have r: "\<And>t d. refuse plain_runtime t d = None" by simp
  show ?thesis
    using telemetry_changes_nothing [OF t(1,2) t(3) t(3) r, of _ _ taken_world "[]" "accept_example driver_b"]
      telemetry_changes_nothing [OF t(1,2) t(3) t(3) r, of _ _ waiting_world "[]" "accept_example driver_a"]
    unfolding j by blast
qed

text \<open>C22: a worker that counts how its jobs end counts a call of a service as failed exactly where the answer is
  an error that is not the client's: for a 4xx answer the job went well, and the caller still gets it.\<close>

theorem client_errors_are_not_failures:
  assumes "tel s1 = Some counting_worker" "dtel s2 = Some counting_worker"
    and "doRequested rt s1 carrier i w = (r1, w1)" "doAccepted rt s2 carrier2 i2 w = (r2, w2)"
  shows "Service_Requested rt s1 carrier i w = (r1, add_counter ''orders.requested''
        (case r1 of Inr _ \<Rightarrow> ''ok'' | Inl e \<Rightarrow> if \<exists>h. errors_As to_http e = Some h \<and> 400 \<le> Status h \<and> Status h < 500 then ''ok'' else ''error'') w1)
    \<and> Service_Accepted rt s2 carrier2 i2 w = (r2, add_counter ''drivers.accepted''
        (case r2 of Inr _ \<Rightarrow> ''ok'' | Inl e \<Rightarrow> if \<exists>h. errors_As to_http e = Some h \<and> 400 \<le> Status h \<and> Status h < 500 then ''ok'' else ''error'') w2)"
  using run_job_counting [of "\<lambda>ctx. doRequested rt s1 ctx i", OF assms(3), unfolded IsClientError_typed]
    run_job_counting [of "\<lambda>ctx. doAccepted rt s2 ctx i2", OF assms(4), unfolded IsClientError_typed]
  by (simp add: Service_Requested_def Service_Accepted_def assms(1,2))

theorem client_errors_are_not_failures_witness:
  "\<exists>w. Service_Accepted plain_runtime (counted_drivers\<lparr>dtel := Some counting_worker\<rparr>) [] (accept_example driver_b)
       taken_world = (Inl (HTTPErr order_not_acceptable), add_counter ''drivers.accepted'' ''ok'' w)"
proof -
  let ?s = "counted_drivers\<lparr>dtel := Some counting_worker\<rparr>"
  let ?r = "counted_riders\<lparr>tel := Some counting_worker\<rparr>"
  obtain r1 w1 where r: "doRequested plain_runtime ?r [] request_example taken_world = (r1, w1)" by fastforce
  obtain r2 w2 where a: "doAccepted plain_runtime ?s [] (accept_example driver_b) taken_world = (r2, w2)" by fastforce
  have "r2 = Inl (HTTPErr order_not_acceptable)"
    using doAccepted_silent(1) [of plain_runtime ?s "[]" "accept_example driver_b" taken_world]
      doAccepted_silent(1) [of plain_runtime counted_drivers "[]" "accept_example driver_b" taken_world]
      counted_refusal a by simp
  moreover have "400 \<le> Status order_not_acceptable \<and> Status order_not_acceptable < 500"
    by (simp add: order_not_acceptable_def)
  ultimately show ?thesis
    using client_errors_are_not_failures [OF _ _ r a] by auto
qed

section \<open>The API as a whole\<close>

text \<open>C14: whatever a client sends, and even if a handler panics, the API answers, and the answer has a
  request id (the client's own one if it is well formed), the security headers, a CORS origin exactly
  for an origin that is configured, and the telemetry library has seen its one status and whole body.
  The server that the process listens with is this API, under a configuration that was accepted.\<close>

theorem every_request_is_answered:
  assumes "wiring_ok wi"
  shows "(\<exists>c. api wi cfg req w = Done c \<and> response_ok cfg (wi_instrumentation wi) req c)
    \<and> (Listen srv \<in> set (fst (snd (run x (api wi) (api_register wi name) w0))) \<longrightarrow>
         (\<exists>cfg c. valid_config cfg \<and> srv_Addr srv = '':'' @ cfg_Port cfg \<and> srv_Handler srv req w = Done c
            \<and> response_ok cfg (wi_instrumentation wi) req c))"
proof -
  have *: "\<exists>c. api wi cfg req w = Done c \<and> response_ok cfg (wi_instrumentation wi) req c" for cfg
    by (rule api_answers [OF assms, of cfg req w]) blast
  moreover have "\<exists>cfg c. valid_config cfg \<and> srv_Addr srv = '':'' @ cfg_Port cfg \<and> srv_Handler srv req w = Done c
      \<and> response_ok cfg (wi_instrumentation wi) req c"
    if "Listen srv \<in> set (fst (snd (run x (api wi) (api_register wi name) w0)))"
    using run_listens [OF that] * by (auto simp: NewServer_def)
  ultimately show ?thesis by blast
qed

theorem every_request_is_answered_witness:
  "\<exists>c. srv_Handler (NewServer (default_config ''api'') (api plain_wiring (default_config ''api''))) get_example
       waiting_world = Done c \<and> response_header c ''X-Frame-Options'' = Some ''DENY''"
  using every_request_is_answered [OF plain_wiring_ok, of "default_config ''x''" get_example waiting_world
      "NewServer (default_config ''api'') (api plain_wiring (default_config ''api''))" calm_outside "\<lambda>_. []" named_world]
    calm_listens [of "api plain_wiring" "api_register plain_wiring (\<lambda>_. [])"]
  by (auto simp: response_ok_def security_values_def)

text \<open>C30: the middlewares hand a request to the handler of its route and its answer back, unchanged: the handler
  sees the method, path, headers and body as they came, with the parameters of the path, in a world with the
  same tables and cache; the status and the one body of the response are the handler's, and so is the world
  that is left. Only a CORS preflight does not get there.\<close>

theorem routes_reach_their_handlers:
  assumes "wiring_ok wi" "\<not> cuts_off cfg req" "api_handler wi (rq_method req) p = Some h"
    and "wi_find_route wi (map (\<lambda>(m, p, h). (m, p)) (api_routes wi)) (rq_method req) (rq_path req) = Matched p params"
  shows "\<exists>c k pat w'. api wi cfg req w = Done c \<and> db w' = db w \<and> cached w' = cached w
    \<and> (let (resp, w1) = h (req\<lparr>rq_params := params, rq_pattern := pat, rq_carrier := k,
              rq_has_telemetry := (wi_instrumentation wi \<noteq> None)\<rparr>) w'
       in g_world c = w1 \<and> g_body c = [Doc (rs_body resp)] \<and> (0 < rs_status resp \<longrightarrow> g_status c = rs_status resp))"
  by (rule api_route [OF assms(1,4) api_handler_route [OF assms(3)] assms(2)])

theorem routes_reach_their_handlers_witness:
  "\<exists>c. api plain_wiring (default_config ''x'') post_example empty_world = Done c \<and> g_status c = 201
     \<and> length (g_body c) = 1"
proof -
  let ?h = "Handler_request (wi_runtime plain_wiring) (wi_bind plain_wiring) (Service_Requested (wi_runtime plain_wiring)
      (riderService (wi_runtime plain_wiring) (wi_riders plain_wiring) (wi_cache plain_wiring)))"
  have p: "rq_method post_example = ''POST''" "rq_path post_example = ''/api/v1/orders''"
    by (simp_all add: post_example_def rider_request_def)
  have c: "\<not> cuts_off (default_config ''x'') post_example"
    by (simp add: cuts_off_def default_config_def slice_def)
  have h: "api_handler plain_wiring (rq_method post_example) ''/api/v1/orders'' = Some ?h"
    by (simp add: api_handler_def p Let_def)
  have r: "wi_find_route plain_wiring (map (\<lambda>(m, p, h). (m, p)) (api_routes plain_wiring)) (rq_method post_example)
      (rq_path post_example) = Matched ''/api/v1/orders'' []"
    by (simp add: plain_wiring_def p)
  have created: "rs_status (fst (?h (post_example\<lparr>rq_params := ps, rq_pattern := pat, rq_carrier := k,
      rq_has_telemetry := b\<rparr>) w)) = 201" if "db w = empty_tables" for ps pat k b w
    by (rule post_example_created) (simp_all add: that plain_wiring_def example_bind_def)
  define r where "r = (\<lambda>k pat. post_example\<lparr>rq_params := [], rq_pattern := pat, rq_carrier := k,
         rq_has_telemetry := (wi_instrumentation plain_wiring \<noteq> None)\<rparr>)"
  obtain c k pat w' where c: "api plain_wiring (default_config ''x'') post_example empty_world = Done c"
    "db w' = db empty_world"
    "let (resp, w1) = ?h (r k pat) w'
     in g_world c = w1 \<and> g_body c = [Doc (rs_body resp)] \<and> (0 < rs_status resp \<longrightarrow> g_status c = rs_status resp)"
    using routes_reach_their_handlers [OF plain_wiring_ok c h r, of empty_world] unfolding r_def by blast
  obtain resp w1 where h: "?h (r k pat) w' = (resp, w1)" by fastforce
  have "rs_status (fst (?h (r k pat) w')) = 201"
    unfolding r_def by (rule created) (use c(2) in simp)
  then have "rs_status resp = 201" by (simp only: h fst_conv)
  moreover have "g_body c = [Doc (rs_body resp)]" "0 < rs_status resp \<longrightarrow> g_status c = rs_status resp"
    using c(3) unfolding h Let_def prod.case by blast+
  ultimately show ?thesis using c(1) by simp
qed

text \<open>C15: any sequence of requests leaves the tables well formed and only appends to them: an order keeps
  its rider for good, and an order that is taken keeps its driver.\<close>

theorem requests_only_append:
  assumes "wiring_ok wi" "tables_ok (db w)" "cache_sound (wi_runtime wi) w"
  shows "tables_ok (db (api_run wi cfg reqs w)) \<and> extends (db w) (db (api_run wi cfg reqs w))
    \<and> (\<forall>oid rd. abs_tables (db w) oid = Some rd \<longrightarrow>
         (\<exists>rd'. abs_tables (db (api_run wi cfg reqs w)) oid = Some rd' \<and> rider rd' = rider rd
            \<and> (\<forall>r d. rd = Taken r d \<longrightarrow> rd' = rd)))"
  using api_run_grows [OF assms(1), of w cfg reqs] assms(2,3) abs_tables_extends
  by (auto simp: grows_def world_ok_def)

theorem requests_only_append_witness:
  "tables_ok (db (api_run plain_wiring (default_config ''x'') [post_example, get_example] taken_world))
   \<and> abs_tables (db (api_run plain_wiring (default_config ''x'') [post_example, get_example] taken_world)) the_order
       = Some (Taken the_rider driver_a)"
proof -
  let ?w = "api_run plain_wiring (default_config ''x'') [post_example, get_example] taken_world"
  have *: "tables_ok (db ?w) \<and> (\<forall>oid rd. abs_tables (db taken_world) oid = Some rd \<longrightarrow>
         (\<exists>rd'. abs_tables (db ?w) oid = Some rd' \<and> rider rd' = rider rd \<and> (\<forall>r d. rd = Taken r d \<longrightarrow> rd' = rd)))"
    using requests_only_append [OF plain_wiring_ok, of taken_world] by simp
  moreover have "abs_tables (db taken_world) the_order = Some (Taken the_rider driver_a)" by simp
  ultimately show ?thesis by blast
qed

text \<open>C16: reading an order writes nothing, and through any cache that keeps the time to live it is given an answer
  is at most ten seconds old. From an empty cache on, whatever other reads, commits and losses of entries there
  were: at least ten seconds after a moment \<open>w0\<close>, every view that is shown was the order's at a moment since
  \<open>w0\<close>. As long as the database answers, the only error is the 404 of an order that does not exist, and it is not
  remembered: there is no entry for the order, so that it is found once it is there.\<close>

theorem reads_through_the_cache:
  assumes "runtime_ok rt" "keeps_ttl g" "tables_ok (db ws)" "cached ws = []"
    and "meanwhile rt g ws w0" "meanwhile rt g w0 w" "clock w0 + 10 * 10 ^ 9 \<le> clock w"
    and "uuid_Parse rt ident \<noteq> None" "pg_uuid rt ident = Some oid"
  shows "case Service_Get rt (riderService rt t (Some g)) ident w of
      (Inr v, w') \<Rightarrow> view_between rt (db w0) (db w) oid v
        \<and> w' = w\<lparr>cached := cached w', cached_until := cached_until w'\<rparr>
    | (Inl err, w') \<Rightarrow> w' = w\<lparr>cached := cached w'\<rparr> \<and> map_of (cached w') \<subseteq>\<^sub>m map_of (cached w)
        \<and> (lost_read rt (db w) oid = None \<longrightarrow> err = HTTPErr order_not_found
             \<and> abs_tables (db w) oid = None \<and> map_of (cached w') (view_key ident) = None)"
proof -
  have late: "clock w0 + viewTTL \<le> clock w" using assms(7) by (simp add: viewTTL_def)
  have c: "view_cache g" by (rule keeps_ttl_view_cache [OF assms(2)])
  obtain r w' where g: "Service_Get rt (riderService rt t (Some g)) ident w = (r, w')" by fastforce
  have "tables_ok (db ws) \<and> cache_sound rt ws" using assms(3,4) by (simp add: cache_sound_empty)
  then have ok: "tables_ok (db w)" "cache_sound rt w"
    using meanwhile_sound [OF assms(5) c] meanwhile_sound [OF assms(6) c] by blast+
  show ?thesis
  proof (cases r)
    case (Inr v)
    from assms(2,8) g have "w' = w\<lparr>cached := cached w', cached_until := cached_until w'\<rparr>"
      by (cases rule: ttl_get_cases) simp_all
    then show ?thesis
      using read_since [OF assms(2-6) late assms(8,9), of t v w'] g Inr by simp
  next
    case (Inl err)
    from assms(2,8) g have w': "w' = w\<lparr>cached := cached w'\<rparr> \<and> map_of (cached w') \<subseteq>\<^sub>m map_of (cached w)"
      by (cases rule: ttl_get_cases) (simp_all add: Inl)
    have k: "known_cache (Some g)" using c by simp
    have "err = HTTPErr order_not_found \<and> abs_tables (db w) oid = None \<and> map_of (cached w') (view_key ident) = None"
      if "lost_read rt (db w) oid = None"
    proof -
      have n: "abs_tables (db w) oid = None"
        by (rule ccontr) (use rider_get_present [OF assms(1) k ok(1) that assms(8,9), of t] g Inl in auto)
      moreover have "err = HTTPErr order_not_found"
        using rider_get_absent [OF assms(1) k ok that assms(8,9) n, of t] g Inl by auto
      moreover have "map_of (cached w') (view_key ident) = None"
        using no_entry [OF assms(1) ok assms(9) n] w' map_le_Some [of "map_of (cached w')" "map_of (cached w)"]
        by (metis option.exhaust)
      ultimately show ?thesis by simp
    qed
    then show ?thesis using g Inl w' by simp
  qed
qed

theorem reads_through_the_cache_witness:
  "let w1 = snd (Service_Get plain_runtime (riderService plain_runtime None (Some expiring_cache)) (uuid_string the_order)
              waiting_world);
       w = w1\<lparr>db := taken_tables, clock := 10 * 10 ^ 9\<rparr>
   in \<forall>v w'. Service_Get plain_runtime (riderService plain_runtime None (Some expiring_cache)) (uuid_string the_order) w
         = (Inr v, w') \<longrightarrow> view_Status v = ''accepted''"
proof -
  let ?get = "Service_Get plain_runtime (riderService plain_runtime None (Some expiring_cache)) (uuid_string the_order)"
  obtain r w1 where 1: "?get waiting_world = (r, w1)" by fastforce
  have f: "db w1 = waiting_tables" "clock w1 = 0"
    using rider_get_frame(1,3) [OF _ _ _ 1] by simp_all
  define w0 where "w0 = w1\<lparr>db := taken_tables\<rparr>"
  define w where "w = w1\<lparr>db := taken_tables, clock := 10 * 10 ^ 9\<rparr>"
  have m1: "meanwhile plain_runtime expiring_cache waiting_world w1"
    by (rule meanwhile.reads [OF meanwhile.nothing 1])
  have ex: "extends waiting_tables taken_tables" by (simp add: taken_tables_def waiting_tables_def)
  have m0: "meanwhile plain_runtime expiring_cache waiting_world w0"
    by (rule meanwhile.elsewhere [OF m1]) (simp_all add: w0_def f ex)
  have m: "meanwhile plain_runtime expiring_cache w0 w"
    by (rule meanwhile.elsewhere [OF meanwhile.nothing]) (simp_all add: w0_def w_def f)
  have "view_Status v = ''accepted''" if g: "?get w = (Inr v, w')" for v w'
  proof -
    have "view_between plain_runtime (db w0) (db w) the_order v"
      using reads_through_the_cache [OF plain_runtime_ok keeps_ttl_expiring _ _ m0 m, of "uuid_string the_order" the_order None]
        g by (simp add: w0_def w_def f)
    then obtain t0 where t0: "tables_ok t0" "extends taken_tables t0" "select_view plain_runtime t0 the_order = Some v"
      by (auto simp: view_between_def w0_def)
    obtain rd where rd: "abs_tables t0 the_order = Some rd" "view_Status v = ride_status rd"
      using select_view_ride [OF t0(1) plain_runtime_ok t0(3)] by metis
    have "rd = Taken the_rider driver_a"
      using abs_tables_extends [OF t0(2) example_rides(2)] rd(1) by auto
    then show ?thesis using rd(2) by simp
  qed
  then show ?thesis unfolding 1 snd_conv Let_def w_def [symmetric] by blast
qed

text \<open>C17: seen from the rides, every run of the server with all its calls is a run of the specification: each
  event is an abstract request, an abstract acceptance, or nothing. So the rides only advance: an order
  once there stays with its rider, and an order once taken with its driver.\<close>

theorem system_refines_rides:
  assumes "runtime_ok rt" "serving rt bnd s" "(server_step rt bnd ^^ n) s s'"
  shows "(ride_move ^^ n) (abs_tables (db (here (sys s)))) (abs_tables (db (here (sys s'))))
    \<and> abs_tables (db (here (sys s))) \<le> abs_tables (db (here (sys s')))"
  using server_run_rides [OF assms] ride_moves_grow by blast

theorem system_refines_rides_witness:
  "\<exists>n s'. (server_step plain_runtime example_bind ^^ n) idle_server s'
     \<and> (ride_move ^^ n) Map.empty (abs_tables (db (here (sys s'))))
     \<and> abs_tables (db (here (sys s'))) the_order = Some (Waiting the_rider)"
proof -
  obtain i w where a: "request_arrive plain_runtime example_bind post_example (here (sys idle_server)) = (Inr i, w)"
    "inp_ID i = uuid_string the_order" "inp_RiderID i = uuid_string the_rider"
    using post_example_arrives by (auto simp: idle_server_def race0_def)
  have e: "abs_tables (db (here (sys idle_server))) = Map.empty"
    by (auto simp: idle_server_def race0_def)
  have "\<exists>s'. (server_step plain_runtime example_bind)\<^sup>*\<^sup>* idle_server s'
      \<and> abs_tables (db (here (sys s'))) = [the_order \<mapsto> Waiting the_rider]"
    using solo_reaches [OF post_arrives post_alone [OF plain_runtime_ok _ serving_ok(1) [OF idle_server_serving] a(1),
        of the_order the_rider]] a(2,3) e by fastforce
  then obtain n s' where s': "(server_step plain_runtime example_bind ^^ n) idle_server s'"
    "abs_tables (db (here (sys s'))) = [the_order \<mapsto> Waiting the_rider]"
    by (metis rtranclp_imp_relpowp)
  show ?thesis
    using system_refines_rides [OF plain_runtime_ok idle_server_serving s'(1)] s' e
    by (intro exI [of _ n] exI [of _ s']) simp
qed



text \<open>C28: every call ends, whatever it meets, and gets exactly one reply of its own, one of the documented answers. A
  call in flight can always go on and has at most three moves left; when no call is left, each has been sent
  one reply, to its own request. Every reply of every run is one of these: 400 for a field that is not valid;
  for an acceptance 201 with the id that was asked for, 409 \<open>ORDER_NOT_ACCEPTABLE\<close> or
  \<open>ORDER_ALREADY_ACCEPTED\<close>; for a request 201 with what was asked for, 409 \<open>ORDER_ALREADY_EXISTS\<close>; for a read 200
  with a view of the asking rider, 404 \<open>ORDER_NOT_FOUND\<close>; and 500 with the fixed text.\<close>

theorem every_call_ends:
  assumes "runtime_ok rt" "foreign_errors rt" "serving rt bnd s"
  shows "(\<forall>n s'. (move rt ^^ n) s s' \<longrightarrow> n \<le> 3 * length (calls s)
        \<and> mset (map reply_request (sent s') @ map call_request (calls s'))
            = mset (map reply_request (sent s) @ map call_request (calls s))
        \<and> (calls s' \<noteq> [] \<longrightarrow> (\<exists>s''. move rt s' s''))
        \<and> (\<forall>r \<in> set (sent s'). documented rt r))
    \<and> (\<exists>n s'. (move rt ^^ n) s s' \<and> calls s' = []
        \<and> mset (map reply_request (sent s')) = mset (map reply_request (sent s) @ map call_request (calls s)))"
proof (intro conjI allI impI)
  note ok = serving_ok [OF assms(3,1,2)]
  fix n s'
  assume m: "(move rt ^^ n) s s'"
  show "n \<le> 3 * length (calls s)"
    using moves_work [OF m] work_bound [of s] by linarith
  show "mset (map reply_request (sent s') @ map call_request (calls s'))
      = mset (map reply_request (sent s) @ map call_request (calls s))"
    by (rule moves_requests [OF m])
  have "(server_step rt bnd)\<^sup>*\<^sup>* s s'"
    using m moves_server_steps relpowp_imp_rtranclp by metis
  then show "\<forall>r \<in> set (sent s'). documented rt r"
    using serving_documented [OF serving_steps [OF assms(3)] assms(1,2)] by blast
  assume "calls s' \<noteq> []"
  then show "\<exists>s''. move rt s' s''"
    using some_move moves_srv_ok [OF assms(1,2) ok m] by blast
next
  obtain n s' where "(move rt ^^ n) s s'" "calls s' = []"
    using moves_end [OF assms(1,2) serving_ok [OF assms(3,1,2)]] by blast
  then show "\<exists>n s'. (move rt ^^ n) s s' \<and> calls s' = []
      \<and> mset (map reply_request (sent s')) = mset (map reply_request (sent s) @ map call_request (calls s))"
    using moves_requests by fastforce
qed

theorem every_call_ends_witness:
  "\<exists>s. serving plain_runtime example_bind s \<and> length (calls s) = 1 \<and> (\<exists>s'. move plain_runtime s s')
     \<and> (\<exists>n s'. (move plain_runtime ^^ n) s s' \<and> calls s' = [] \<and> map reply_request (sent s') = [get_example]
          \<and> (\<forall>r \<in> set (sent s'). documented plain_runtime r))"
proof -
  let ?s = "admit get_example (Reading get_example) (get_arrive plain_runtime get_example (here (sys idle_server))) idle_server"
  have s: "serving plain_runtime example_bind ?s"
    by (rule serve_next [OF idle_server_serving get_arrives])
  have c: "length (calls ?s) = 1" "map call_request (calls ?s) = [get_example]" "sent ?s = []"
    by (simp_all add: get_arrive_def admit_def idle_server_def get_example_def)
  note ends = every_call_ends [OF plain_runtime_ok foreign_errors_plain s]
  obtain n s' where s': "(move plain_runtime ^^ n) ?s s'" "calls s' = []" "mset (map reply_request (sent s')) = {#get_example#}"
    using ends c(2,3) by auto
  have req: "map reply_request (sent s') = [get_example]"
    using s'(3) by (simp only: mset_single_iff)
  have doc: "\<forall>r \<in> set (sent s'). documented plain_runtime r"
    using conjunct1 [OF ends] s'(1) by blast
  have mv: "\<exists>s'. move plain_runtime ?s s'"
  proof -
    have "(move plain_runtime ^^ 0) ?s ?s" "calls ?s \<noteq> []" using c(1) by auto
    then show ?thesis using conjunct1 [OF ends] by blast
  qed
  have ex: "\<exists>n s'. (move plain_runtime ^^ n) ?s s' \<and> calls s' = [] \<and> map reply_request (sent s') = [get_example]
      \<and> (\<forall>r \<in> set (sent s'). documented plain_runtime r)"
    by (rule exI [of _ n], rule exI [of _ s']) (intro conjI s' req doc)
  show ?thesis
    by (rule exI [of _ ?s]) (intro conjI s c(1) mv ex)
qed

end
